theory Spec2Isabelle
  imports Main "HOL-Library.Word" "HOL-Library.Sublist"
begin

section \<open>p-load: the action pipeline and the device session\<close>

text \<open>
  A shallow embedding of \<^verbatim>\<open>src/p-load.c\<close>. The C globals become the fields of one
  \<open>state\<close> record that every function takes and returns. Everything the program asks of
  its collaborators (the bootloader library, the HEX codec, the C library) is a field of
  the \<open>env\<close> record: each such field is a function of the history of calls made so far,
  so that a collaborator may answer differently each time it is asked. Every call that
  leaves the program is appended to the \<open>trace\<close> of the state.
\<close>

subsection \<open>Data\<close>

type_synonym byte = "8 word"
type_synonym uint32_t = "32 word"

text \<open>\<open>ExitCode\<close>, \<open>PLOADER_RESULT\<close> and \<open>IHX_RESULT\<close> are C integers; 0 is success.\<close>

type_synonym ExitCode = int
type_synonym PLOADER_RESULT = int
type_synonym IHX_RESULT = int

text \<open>
  A connected bootloader. An entry of a \<open>ploaderList\<close> is a device, and a
  \<open>ploaderHandle\<close> is the device it is connected to.
\<close>

type_synonym device = nat

record ploaderInfo =
  name :: string
  serialNumber :: string
  appAddress :: uint32_t
  appSize :: uint32_t
  eepromSize :: uint32_t
  eepromAddressHexFile :: uint32_t

text \<open>One region handed to the HEX codec: the buffer, its start and its end address.\<close>

record ihxMemory =
  image :: "byte list"
  startAddress :: uint32_t
  endAddress :: uint32_t

text \<open>The private state of an action: \<open>NULL\<close>, a \<open>HexFileInput\<close> or a \<open>HexFileOutput\<close>.\<close>

record HexFileInput =
  fileName :: "string option"
  flash :: "byte list option"
  eeprom :: "byte list option"

record HexFileOutput =
  outFileName :: "string option"
  outFile :: "string option"

datatype actionData = NoData | Input HexFileInput | Output HexFileOutput

datatype actionType =
    actList
  | actListSupported
  | actWriteFlashAndEeprom
  | actWriteFlash
  | actWriteEeprom
  | actEraseFlashAndEeprom
  | actEraseFlash
  | actEraseEeprom
  | actReadFlashAndEeprom
  | actReadFlash
  | actReadEeprom

subsection \<open>The trace of calls\<close>

text \<open>
  \<open>Msg\<close> is a line written for the user: through \<open>error()\<close>, through \<open>info()\<close>, with
  \<open>printf\<close> or with \<open>fprintf(stderr, ...)\<close>; it keeps the format string and its
  arguments. \<open>Dev\<close> is a call into the bootloader library, \<open>Restart\<close> is
  \<open>ploaderRestartDevice\<close>, \<open>File\<close> a call of \<open>fopen\<close>, \<open>fclose\<close> or of the HEX codec,
  \<open>Mem\<close> a \<open>malloc\<close> of so many bytes, \<open>Sleep\<close> a sleep of so many milliseconds.
  \<open>Invoke\<close> and \<open>Return\<close> mark the moment the pipeline calls a phase function of the
  action at an index and the moment that function returns its exit code. Calls that only
  release memory (\<open>free\<close>, \<open>ploaderInfoFree\<close>) are not recorded.
\<close>

datatype channel = ErrorMsg | InfoMsg | Stdout | Stderr

datatype devcall =
    ListCreate
  | ListFilterBySerialNumber string
  | ListFree
  | OpenFromList device
  | Close "device option"
  | CreateInfo "device option"
  | ListCreateInfo device
  | CheckApplication device
  | WriteFlash "device option" "byte list option"
  | WriteEeprom "device option" "byte list option"
  | ReadFlash "device option"
  | ReadEeprom "device option"

datatype filecall =
    Fopen "string option" string
  | Fclose "string option"
  | IhxRead "string option" "ihxMemory list"
  | IhxWrite "string option" "ihxMemory list"

datatype phase = Allocate | Parse | Prepare | Execute | Free

datatype event =
    Msg channel string "string list"
  | Dev devcall
  | Restart "device option"
  | File filecall
  | Mem nat
  | Sleep nat
  | Invoke phase nat
  | Return phase nat ExitCode

subsection \<open>The environment\<close>

text \<open>
  The three error codes are constants of a header that is not part of the source at
  hand, so they are parameters; so is the help text, which embeds the \<open>VERSION\<close> of
  another such header. \<open>clock_ms\<close> is the wall clock in milliseconds; \<open>time(NULL)\<close>
  reads it in whole seconds. \<open>malloc\<close> answers with the fresh buffer, whose bytes are
  whatever they are, or with \<open>None\<close> for \<open>NULL\<close>; \<open>fopen\<close> answers whether the file is open.
  A library call that fails is taken to leave the pointer it would have set as it was.
\<close>

record env =
  ERROR_BAD_ARGS :: ExitCode
  ERROR_OPERATION_FAILED :: ExitCode
  ERROR_BOOTLOADER_NOT_FOUND :: ExitCode
  ploaderTable :: "string list"
  ploaderListCreate :: "event list \<Rightarrow> PLOADER_RESULT \<times> device list"
  ploaderListFilterBySerialNumber ::
    "event list \<Rightarrow> device list \<Rightarrow> string \<Rightarrow> PLOADER_RESULT \<times> device list"
  ploaderOpenFromList :: "event list \<Rightarrow> device \<Rightarrow> PLOADER_RESULT"
  ploaderCreateInfo :: "event list \<Rightarrow> device option \<Rightarrow> PLOADER_RESULT \<times> ploaderInfo"
  ploaderListCreateInfo :: "event list \<Rightarrow> device \<Rightarrow> PLOADER_RESULT \<times> ploaderInfo"
  ploaderCheckApplication :: "event list \<Rightarrow> device \<Rightarrow> PLOADER_RESULT \<times> bool"
  ploaderWriteFlash :: "event list \<Rightarrow> device option \<Rightarrow> byte list option \<Rightarrow> PLOADER_RESULT"
  ploaderWriteEeprom :: "event list \<Rightarrow> device option \<Rightarrow> byte list option \<Rightarrow> PLOADER_RESULT"
  ploaderReadFlash :: "event list \<Rightarrow> device option \<Rightarrow> PLOADER_RESULT \<times> byte list"
  ploaderReadEeprom :: "event list \<Rightarrow> device option \<Rightarrow> PLOADER_RESULT \<times> byte list"
  ploaderRestartDevice :: "event list \<Rightarrow> device option \<Rightarrow> PLOADER_RESULT"
  malloc :: "event list \<Rightarrow> nat \<Rightarrow> byte list option"
  fopen :: "event list \<Rightarrow> string option \<Rightarrow> string \<Rightarrow> bool"
  strerror_errno :: "event list \<Rightarrow> string"
  ihxRead ::
    "event list \<Rightarrow> string option \<Rightarrow> ihxMemory list \<Rightarrow> IHX_RESULT \<times> byte list \<times> byte list"
  ihxWrite :: "event list \<Rightarrow> string option \<Rightarrow> ihxMemory list \<Rightarrow> IHX_RESULT"
  clock_ms :: "event list \<Rightarrow> nat"
  help_text :: string
  sizeof_HexFileInput :: nat
  sizeof_HexFileOutput :: nat

subsection \<open>The state\<close>

text \<open>
  The five globals of \<^verbatim>\<open>p-load.c\<close>, the argument reader (the tokens not yet read and
  the last token returned), the queue of actions, and the trace.
\<close>

record state =
  desiredSerialNumber :: "string option"
  waitForBootloaderFlag :: bool
  restartBootloaderFlag :: bool
  bootloaderList :: "device list option"
  bootloaderHandle :: "device option"
  argReaderArgs :: "string list"
  argReaderLastArg :: "string option"
  actions :: "(actionType \<times> actionData) list"
  trace :: "event list"

definition initialState :: state where
  "initialState =
     \<lparr> desiredSerialNumber = None, waitForBootloaderFlag = False,
       restartBootloaderFlag = False, bootloaderList = None, bootloaderHandle = None,
       argReaderArgs = [], argReaderLastArg = None, actions = [], trace = [] \<rparr>"

definition emit :: "event \<Rightarrow> state \<Rightarrow> state" where
  "emit e s = s\<lparr>trace := trace s @ [e]\<rparr>"

definition error :: "string \<Rightarrow> string list \<Rightarrow> state \<Rightarrow> state" where
  "error fmt args s = emit (Msg ErrorMsg fmt args) s"

definition info :: "string \<Rightarrow> string list \<Rightarrow> state \<Rightarrow> state" where
  "info fmt args s = emit (Msg InfoMsg fmt args) s"

definition printf :: "string \<Rightarrow> string list \<Rightarrow> state \<Rightarrow> state" where
  "printf fmt args s = emit (Msg Stdout fmt args) s"

definition fprintf_stderr :: "string \<Rightarrow> string list \<Rightarrow> state \<Rightarrow> state" where
  "fprintf_stderr fmt args s = emit (Msg Stderr fmt args) s"

text \<open>\<open>time(NULL)\<close>: the wall clock in whole seconds.\<close>

definition time :: "env \<Rightarrow> state \<Rightarrow> int" where
  "time env s = int (clock_ms env (trace s) div 1000)"

text \<open>A C string handed to \<open>%s\<close>; glibc prints a null pointer as \<open>(null)\<close>.\<close>

definition cstr :: "string option \<Rightarrow> string" where
  "cstr p = (case p of None \<Rightarrow> ''(null)'' | Some x \<Rightarrow> x)"

text \<open>
  \<open>ploaderListSize\<close>. The list is opaque in C; here it is the list of its entries, and
  the size of no list is taken to be 0.
\<close>

definition listEntries :: "device list option \<Rightarrow> device list" where
  "listEntries l = (case l of None \<Rightarrow> [] | Some xs \<Rightarrow> xs)"

definition ploaderListSize :: "device list option \<Rightarrow> nat" where
  "ploaderListSize l = length (listEntries l)"

subsection \<open>The device session\<close>

definition listSupportedBootloaders :: "env \<Rightarrow> state \<Rightarrow> ExitCode \<times> state" where
  "listSupportedBootloaders env s =
     (0, fold (\<lambda>n. printf ''%s\<newline>'' [n]) (ploaderTable env)
           (printf ''Supported bootloaders:\<newline>'' [] s))"

definition bootloaderListRequire :: "env \<Rightarrow> state \<Rightarrow> ExitCode \<times> state" where
  "bootloaderListRequire env s =
     (if bootloaderList s \<noteq> None then (0, s)
      else
        let (result, l) = ploaderListCreate env (trace s);
            s1 = emit (Dev ListCreate) s
        in if result \<noteq> 0 then (result, s1)
           else
             let s2 = s1\<lparr>bootloaderList := Some l\<rparr>
             in case desiredSerialNumber s2 of
                  None \<Rightarrow> (0, s2)
                | Some sn \<Rightarrow>
                    let (result, l') = ploaderListFilterBySerialNumber env (trace s2) l sn;
                        s3 = emit (Dev (ListFilterBySerialNumber sn)) s2
                    in if result \<noteq> 0
                       then (ERROR_OPERATION_FAILED env,
                             (emit (Dev ListFree) s3)\<lparr>bootloaderList := None\<rparr>)
                       else (0, s3\<lparr>bootloaderList := Some l'\<rparr>))"

definition bootloaderNotFoundError :: "env \<Rightarrow> state \<Rightarrow> ExitCode \<times> state" where
  "bootloaderNotFoundError env s =
     (case desiredSerialNumber s of
        Some sn \<Rightarrow>
          (ERROR_BOOTLOADER_NOT_FOUND env,
           error ''No bootloader found with serial number '%s'.'' [sn] s)
      | None \<Rightarrow> (ERROR_BOOTLOADER_NOT_FOUND env, error ''No bootloader found.'' [] s))"

definition bootloaderNotFoundInfo :: "env \<Rightarrow> state \<Rightarrow> ExitCode \<times> state" where
  "bootloaderNotFoundInfo env s =
     (case desiredSerialNumber s of
        Some sn \<Rightarrow>
          (ERROR_BOOTLOADER_NOT_FOUND env,
           info ''No bootloader found with serial number '%s'.'' [sn] s)
      | None \<Rightarrow> (ERROR_BOOTLOADER_NOT_FOUND env, info ''No bootloader found.'' [] s))"


definition printBootloaderInfo :: "env \<Rightarrow> state \<Rightarrow> int \<times> state" where
  "printBootloaderInfo env s =
     (let (result, pinfo) = ploaderCreateInfo env (trace s) (bootloaderHandle s);
          s1 = emit (Dev (CreateInfo (bootloaderHandle s))) s
      in if result \<noteq> 0 then (ERROR_OPERATION_FAILED env, s1)
         else (0, info ''Serial number: %s'' [serialNumber pinfo]
                    (info ''Bootloader:    %s'' [name pinfo] s1)))"

definition multipleBootloadersMessage :: string where
  "multipleBootloadersMessage =
     ''There are multiple qualifying bootloaders connected to this computer.\<newline>'' @
     ''Use the -d option to specify which bootloader you want to use, or disconnect\<newline>'' @
     ''the others.''"

definition bootloaderHandleRequire :: "env \<Rightarrow> state \<Rightarrow> ExitCode \<times> state" where
  "bootloaderHandleRequire env s =
     (if bootloaderHandle s \<noteq> None then (0, s)
      else
        let (exitCode, s1) = bootloaderListRequire env s
        in if exitCode \<noteq> 0 then (exitCode, s1)
           else
             let size = ploaderListSize (bootloaderList s1)
             in if size = 0 then bootloaderNotFoundError env s1
                else if size > 1
                then (ERROR_OPERATION_FAILED env, error multipleBootloadersMessage [] s1)
                else
                  let d = listEntries (bootloaderList s1) ! 0;
                      result = ploaderOpenFromList env (trace s1) d;
                      s2 = emit (Dev (OpenFromList d)) s1
                  in if result \<noteq> 0 then (ERROR_OPERATION_FAILED env, s2)
                     else
                       let s3 = s2\<lparr>bootloaderHandle := Some d\<rparr>;
                           (_, s4) = printBootloaderInfo env s3
                       in (0, s4))"

text \<open>
  The \<open>while(1)\<close> of \<open>waitForBootloaderIfNeeded\<close>. Nothing in the source bounds the number
  of rounds: the loop ends when the clock says so. \<open>None\<close> is a loop that never
  returns. \<open>difftime\<close> of two \<open>time_t\<close> is their difference in seconds.
\<close>

partial_function (option) waitLoop :: "env \<Rightarrow> int \<Rightarrow> state \<Rightarrow> (ExitCode \<times> state) option" where
  "waitLoop env waitStartTime s =
     (case bootloaderListRequire env s of
        (exitCode, s1) \<Rightarrow>
          if exitCode \<noteq> 0 then Some (exitCode, s1)
          else if ploaderListSize (bootloaderList s1) > 0 then Some (0, s1)
          else
            let s2 = (emit (Dev ListFree) s1)\<lparr>bootloaderList := None\<rparr>
            in if time env s2 - waitStartTime > 10 then Some (bootloaderNotFoundError env s2)
               else waitLoop env waitStartTime (emit (Sleep 100) s2))"

declare waitLoop.simps [code]

definition waitForBootloaderIfNeeded :: "env \<Rightarrow> state \<Rightarrow> (ExitCode \<times> state) option" where
  "waitForBootloaderIfNeeded env s =
     (if \<not> waitForBootloaderFlag s then Some (0, s)
      else waitLoop env (time env s) s)"

definition getStatus :: "env \<Rightarrow> device list option \<Rightarrow> nat \<Rightarrow> state \<Rightarrow> string \<times> state" where
  "getStatus env list index s =
     (let d = listEntries list ! index;
          result = ploaderOpenFromList env (trace s) d;
          s1 = emit (Dev (OpenFromList d)) s
      in if result \<noteq> 0
         then (''?'', fprintf_stderr ''Warning: Unable to connect to bootloader.\<newline>'' [] s1)
         else
           let (result, appValid) = ploaderCheckApplication env (trace s1) d;
               s2 = emit (Dev (CheckApplication d)) s1
           in if result \<noteq> 0
              then (''?'', emit (Dev (Close (Some d)))
                             (fprintf_stderr ''Warning: Unable to check application.\<newline>'' [] s2))
              else (if appValid then ''App present'' else ''No app present'',
                    emit (Dev (Close (Some d))) s2))"

text \<open>
  The \<open>for\<close> loop of \<open>listConnectedBootloaders\<close>, from index \<open>i\<close>. \<open>Some c\<close> is the
  \<open>return c\<close> inside the loop, \<open>None\<close> is the loop running to its end.
\<close>

function listLoop :: "env \<Rightarrow> nat \<Rightarrow> nat \<Rightarrow> state \<Rightarrow> ExitCode option \<times> state" where
  "listLoop env i bootloaderCount s =
     (if i < bootloaderCount
      then
        let d = listEntries (bootloaderList s) ! i;
            (result, usbInfo) = ploaderListCreateInfo env (trace s) d;
            s1 = emit (Dev (ListCreateInfo d)) s
        in if result \<noteq> 0 then (Some (ERROR_OPERATION_FAILED env), s1)
           else
             let (status, s2) = getStatus env (bootloaderList s1) i s1;
                 s3 = printf ''%-11s  %-40s %-15s\<newline>''
                        [serialNumber usbInfo, name usbInfo, status] s2
             in listLoop env (i + 1) bootloaderCount s3
      else (None, s))"
  by pat_completeness auto
termination
  by (relation "measure (\<lambda>(env, i, bootloaderCount, s). bootloaderCount - i)") auto

definition listConnectedBootloaders :: "env \<Rightarrow> state \<Rightarrow> ExitCode \<times> state" where
  "listConnectedBootloaders env s =
     (let s1 = (emit (Dev (Close (bootloaderHandle s))) s)\<lparr>bootloaderHandle := None\<rparr>;
          (result, s2) = bootloaderListRequire env s1
      in if result \<noteq> 0 then (ERROR_OPERATION_FAILED env, s2)
         else
           let bootloaderCount = ploaderListSize (bootloaderList s2)
           in case listLoop env 0 bootloaderCount s2 of
                (Some c, s3) \<Rightarrow> (c, s3)
              | (None, s3) \<Rightarrow>
                  if bootloaderCount = 0 then bootloaderNotFoundInfo env s3 else (0, s3))"

definition restartBootloaderIfNeeded :: "env \<Rightarrow> state \<Rightarrow> ExitCode \<times> state" where
  "restartBootloaderIfNeeded env s =
     (if \<not> restartBootloaderFlag s then (0, s)
      else
        let (exitCode, s1) = bootloaderHandleRequire env s
        in if exitCode \<noteq> 0 then (exitCode, s1)
           else
             let result = ploaderRestartDevice env (trace s1) (bootloaderHandle s1);
                 s2 = emit (Restart (bootloaderHandle s1)) s1
             in if result \<noteq> 0 then (ERROR_OPERATION_FAILED env, s2) else (0, s2))"


subsection \<open>The argument reader\<close>

text \<open>
  Modelled from the spec: \<^verbatim>\<open>arg_reader.c\<close> is not part of the source at hand. The spec
  names it an argument-token source with \<open>next()\<close> and \<open>last()\<close>. \<open>argReaderNext\<close> returns
  the next token, or \<open>NULL\<close> when none is left; \<open>argReaderLast\<close> returns the token that
  \<open>argReaderNext\<close> returned last; \<open>argReaderInit\<close> starts after the program's name.
\<close>

definition argReaderInit :: "string list \<Rightarrow> state \<Rightarrow> state" where
  "argReaderInit argv s = s\<lparr>argReaderArgs := tl argv, argReaderLastArg := None\<rparr>"

definition argReaderNext :: "state \<Rightarrow> string option \<times> state" where
  "argReaderNext s =
     (case argReaderArgs s of
        [] \<Rightarrow> (None, s)
      | a # as \<Rightarrow> (Some a, s\<lparr>argReaderArgs := as, argReaderLastArg := Some a\<rparr>))"

definition argReaderLast :: "state \<Rightarrow> string option" where
  "argReaderLast s = argReaderLastArg s"

subsection \<open>The phase functions\<close>

text \<open>
  A phase function takes the private state of its action and returns an exit code and
  that state as it has become. \<open>None\<close> is a call that does not return: an \<open>assert\<close> of
  the source fails and aborts the process. The cast of the \<open>void *\<close> to the struct the
  function works on is the \<open>case\<close> on the \<open>actionData\<close>; a pointer that is \<open>NULL\<close> where
  the source asserts that it is not, or that points to the other struct, is such an
  abort.
\<close>

type_synonym phaseFn = "env \<Rightarrow> actionData \<Rightarrow> state \<Rightarrow> (ExitCode \<times> actionData \<times> state) option"

definition allocateHexFileInput :: phaseFn where
  "allocateHexFileInput env d s =
     (let p = malloc env (trace s) (sizeof_HexFileInput env);
          s1 = emit (Mem (sizeof_HexFileInput env)) s
      in if p = None
         then Some (ERROR_OPERATION_FAILED env, NoData,
                    error ''Failed to allocate memory for image struct.'' [] s1)
         else Some (0, Input \<lparr>fileName = None, flash = None, eeprom = None\<rparr>, s1))"

definition freeHexFileInput :: "actionData \<Rightarrow> state \<Rightarrow> state" where
  "freeHexFileInput x s = s"

definition parseHexFileInputArg :: phaseFn where
  "parseHexFileInputArg env x s =
     (case x of
        Input data \<Rightarrow>
          (let (arg, s1) = argReaderNext s
           in case arg of
                None \<Rightarrow>
                  Some (ERROR_BAD_ARGS env, x,
                        error ''Expected a filename after %s.'' [cstr (argReaderLast s1)] s1)
              | Some a \<Rightarrow> Some (0, Input (data\<lparr>fileName := Some a\<rparr>), s1))
      | _ \<Rightarrow> None)"

definition readHexFile :: phaseFn where
  "readHexFile env x s =
     (case x of
        Input data \<Rightarrow>
          if fileName data = None \<or> flash data \<noteq> None \<or> eeprom data \<noteq> None then None
          else
            let (exitCode, s1) = bootloaderHandleRequire env s
            in if exitCode \<noteq> 0 then Some (exitCode, x, s1)
               else
                 let (ploaderResult, pInfo) = ploaderCreateInfo env (trace s1) (bootloaderHandle s1);
                     s2 = emit (Dev (CreateInfo (bootloaderHandle s1))) s1
                 in if ploaderResult \<noteq> 0 then Some (ERROR_OPERATION_FAILED env, x, s2)
                    else
                      let flashPtr = malloc env (trace s2) (unat (appSize pInfo));
                          s3 = emit (Mem (unat (appSize pInfo))) s2;
                          eepromPtr = malloc env (trace s3) (unat (eepromSize pInfo));
                          s4 = emit (Mem (unat (eepromSize pInfo))) s3
                      in if flashPtr = None \<or> eepromPtr = None
                         then Some (ERROR_OPERATION_FAILED env,
                                Input (data\<lparr>flash := flashPtr, eeprom := eepromPtr\<rparr>),
                                error ''Failed to allocate memory for image.'' [] s4)
                         else
                           let flashBuf = replicate (unat (appSize pInfo)) (0xFF :: byte);
                               eepromBuf = replicate (unat (eepromSize pInfo)) (0xFF :: byte);
                               opened = fopen env (trace s4) (fileName data) ''r'';
                               s5 = emit (File (Fopen (fileName data) ''r'')) s4
                           in if \<not> opened
                              then Some (ERROR_OPERATION_FAILED env,
                                     Input (data\<lparr>flash := Some flashBuf, eeprom := Some eepromBuf\<rparr>),
                                     error ''%s: %s''
                                       [cstr (fileName data), strerror_errno env (trace s5)] s5)
                              else
                                let memories =
                                      [\<lparr>image = flashBuf, startAddress = appAddress pInfo,
                                        endAddress = appAddress pInfo + appSize pInfo\<rparr>,
                                       \<lparr>image = eepromBuf, startAddress = eepromAddressHexFile pInfo,
                                        endAddress = eepromAddressHexFile pInfo + eepromSize pInfo\<rparr>];
                                    (ihxResult, flashBuf', eepromBuf') =
                                      ihxRead env (trace s5) (fileName data) memories;
                                    s6 = emit (File (IhxRead (fileName data) memories)) s5;
                                    s7 = emit (File (Fclose (fileName data))) s6;
                                    data' = data\<lparr>flash := Some flashBuf', eeprom := Some eepromBuf'\<rparr>
                                in if ihxResult \<noteq> 0
                                   then Some (ERROR_OPERATION_FAILED env, Input data', s7)
                                   else Some (0, Input data', s7)
      | _ \<Rightarrow> None)"

definition clearHexFileInput :: phaseFn where
  "clearHexFileInput env x s =
     (case x of
        Input data \<Rightarrow>
          if fileName data \<noteq> None \<or> flash data \<noteq> None \<or> eeprom data \<noteq> None then None
          else
            let (exitCode, s1) = bootloaderHandleRequire env s
            in if exitCode \<noteq> 0 then Some (exitCode, x, s1)
               else
                 let (ploaderResult, pInfo) = ploaderCreateInfo env (trace s1) (bootloaderHandle s1);
                     s2 = emit (Dev (CreateInfo (bootloaderHandle s1))) s1
                 in if ploaderResult \<noteq> 0 then Some (ERROR_OPERATION_FAILED env, x, s2)
                    else
                      let flashPtr = malloc env (trace s2) (unat (appSize pInfo));
                          s3 = emit (Mem (unat (appSize pInfo))) s2;
                          eepromPtr = malloc env (trace s3) (unat (eepromSize pInfo));
                          s4 = emit (Mem (unat (eepromSize pInfo))) s3
                      in if flashPtr = None \<or> eepromPtr = None
                         then Some (ERROR_OPERATION_FAILED env,
                                Input (data\<lparr>flash := flashPtr, eeprom := eepromPtr\<rparr>),
                                error ''Failed to allocate memory for image.'' [] s4)
                         else
                           Some (0,
                             Input (data\<lparr>
                               flash := Some (replicate (unat (appSize pInfo)) (0xFF :: byte)),
                               eeprom := Some (replicate (unat (eepromSize pInfo)) (0xFF :: byte))\<rparr>),
                             s4)
      | _ \<Rightarrow> None)"

definition writeFlashAndEeprom :: phaseFn where
  "writeFlashAndEeprom env x s =
     (case x of
        Input data \<Rightarrow>
          if flash data = None \<or> eeprom data = None then None
          else
            let (exitCode, s1) = bootloaderHandleRequire env s
            in if exitCode \<noteq> 0 then Some (exitCode, x, s1)
               else
                 let ploaderResult =
                       ploaderWriteFlash env (trace s1) (bootloaderHandle s1) (flash data);
                     s2 = emit (Dev (WriteFlash (bootloaderHandle s1) (flash data))) s1
                 in if ploaderResult \<noteq> 0 then Some (ERROR_OPERATION_FAILED env, x, s2)
                    else
                      let ploaderResult =
                            ploaderWriteEeprom env (trace s2) (bootloaderHandle s2) (eeprom data);
                          s3 = emit (Dev (WriteEeprom (bootloaderHandle s2) (eeprom data))) s2
                      in if ploaderResult \<noteq> 0 then Some (ERROR_OPERATION_FAILED env, x, s3)
                         else Some (0, x, s3)
      | _ \<Rightarrow> None)"

definition writeFlash :: phaseFn where
  "writeFlash env x s =
     (case x of
        Input data \<Rightarrow>
          if flash data = None then None
          else
            let (exitCode, s1) = bootloaderHandleRequire env s
            in if exitCode \<noteq> 0 then Some (exitCode, x, s1)
               else
                 let ploaderResult =
                       ploaderWriteFlash env (trace s1) (bootloaderHandle s1) (flash data);
                     s2 = emit (Dev (WriteFlash (bootloaderHandle s1) (flash data))) s1
                 in if ploaderResult \<noteq> 0 then Some (ERROR_OPERATION_FAILED env, x, s2)
                    else Some (0, x, s2)
      | _ \<Rightarrow> None)"

definition writeEeprom :: phaseFn where
  "writeEeprom env x s =
     (case x of
        Input data \<Rightarrow>
          if flash data = None \<or> eeprom data = None then None
          else
            let (exitCode, s1) = bootloaderHandleRequire env s
            in if exitCode \<noteq> 0 then Some (exitCode, x, s1)
               else
                 let ploaderResult =
                       ploaderWriteEeprom env (trace s1) (bootloaderHandle s1) (eeprom data);
                     s2 = emit (Dev (WriteEeprom (bootloaderHandle s1) (eeprom data))) s1
                 in if ploaderResult \<noteq> 0 then Some (ERROR_OPERATION_FAILED env, x, s2)
                    else Some (0, x, s2)
      | _ \<Rightarrow> None)"


definition allocateHexFileOutput :: phaseFn where
  "allocateHexFileOutput env d s =
     (let p = malloc env (trace s) (sizeof_HexFileOutput env);
          s1 = emit (Mem (sizeof_HexFileOutput env)) s
      in if p = None
         then Some (ERROR_OPERATION_FAILED env, NoData,
                    error ''Failed to allocate memory for image struct.'' [] s1)
         else Some (0, Output \<lparr>outFileName = None, outFile = None\<rparr>, s1))"

definition freeHexFileOutput :: "actionData \<Rightarrow> state \<Rightarrow> state" where
  "freeHexFileOutput x s =
     (case x of
        Output data \<Rightarrow>
          (if outFile data \<noteq> None then emit (File (Fclose (outFile data))) s else s)
      | _ \<Rightarrow> s)"

definition parseHexFileOutputArg :: phaseFn where
  "parseHexFileOutputArg env x s =
     (case x of
        Output data \<Rightarrow>
          (let (arg, s1) = argReaderNext s
           in case arg of
                None \<Rightarrow>
                  Some (ERROR_BAD_ARGS env, x,
                        error ''Expected a filename after %s.'' [cstr (argReaderLast s1)] s1)
              | Some a \<Rightarrow> Some (0, Output (data\<lparr>outFileName := Some a\<rparr>), s1))
      | _ \<Rightarrow> None)"

definition prepareHexFileOutput :: phaseFn where
  "prepareHexFileOutput env x s =
     (case x of
        Output data \<Rightarrow>
          (let opened = fopen env (trace s) (outFileName data) ''w'';
               s1 = emit (File (Fopen (outFileName data) ''w'')) s
           in if \<not> opened
              then Some (ERROR_OPERATION_FAILED env, Output (data\<lparr>outFile := None\<rparr>),
                         error ''%s: %s''
                           [cstr (outFileName data), strerror_errno env (trace s1)] s1)
              else Some (0, Output (data\<lparr>outFile := outFileName data\<rparr>), s1))
      | _ \<Rightarrow> None)"

text \<open>
  \<open>readMemories\<close> looks at \<open>data\<close> only when it hands \<open>data->file\<close> to \<open>ihxWrite\<close>: every
  return before that is the same whatever \<open>data\<close> is. At that point a pointer that is
  \<open>NULL\<close>, or that points to the other struct, is an abort.
\<close>

definition readMemories ::
  "env \<Rightarrow> actionData \<Rightarrow> bool \<Rightarrow> bool \<Rightarrow> state \<Rightarrow> (ExitCode \<times> state) option" where
  "readMemories env data readFlash readEeprom s =
     (let (exitCode, s1) = bootloaderHandleRequire env s
      in if exitCode \<noteq> 0 then Some (exitCode, s1)
         else
           let (ploaderResult, pInfo) = ploaderCreateInfo env (trace s1) (bootloaderHandle s1);
               s2 = emit (Dev (CreateInfo (bootloaderHandle s1))) s1
           in if ploaderResult \<noteq> 0 then Some (ERROR_OPERATION_FAILED env, s2)
              else
                let flashPtr = (if readFlash then malloc env (trace s2) (unat (appSize pInfo))
                                else Some []);
                    s3 = (if readFlash then emit (Mem (unat (appSize pInfo))) s2 else s2)
                in if flashPtr = None
                   then Some (ERROR_OPERATION_FAILED env,
                              error ''Failed to allocate memory for flash image.'' [] s3)
                   else
                     let (ploaderResult, flashBuf) =
                           (if readFlash then ploaderReadFlash env (trace s3) (bootloaderHandle s3)
                            else (0, []));
                         s4 = (if readFlash then emit (Dev (ReadFlash (bootloaderHandle s3))) s3 else s3)
                     in if ploaderResult \<noteq> 0 then Some (ERROR_OPERATION_FAILED env, s4)
                        else
                          let flashMemories =
                                (if readFlash
                                 then [\<lparr>image = flashBuf, startAddress = appAddress pInfo,
                                        endAddress = appAddress pInfo + appSize pInfo\<rparr>]
                                 else []);
                              eepromPtr = (if readEeprom
                                           then malloc env (trace s4) (unat (eepromSize pInfo))
                                           else Some []);
                              s5 = (if readEeprom then emit (Mem (unat (eepromSize pInfo))) s4 else s4)
                          in if eepromPtr = None
                             then Some (ERROR_OPERATION_FAILED env,
                                        error ''Failed to allocate memory for EEPROM image.'' [] s5)
                             else
                               let (ploaderResult, eepromBuf) =
                                     (if readEeprom
                                      then ploaderReadEeprom env (trace s5) (bootloaderHandle s5)
                                      else (0, []));
                                   s6 = (if readEeprom
                                         then emit (Dev (ReadEeprom (bootloaderHandle s5))) s5 else s5)
                               in if ploaderResult \<noteq> 0 then Some (ERROR_OPERATION_FAILED env, s6)
                                  else
                                    (case data of
                                       Output out \<Rightarrow>
                                         let ihxMemories = flashMemories @
                                               (if readEeprom
                                                then [\<lparr>image = eepromBuf,
                                                       startAddress = eepromAddressHexFile pInfo,
                                                       endAddress =
                                                         eepromAddressHexFile pInfo + eepromSize pInfo\<rparr>]
                                                else []);
                                             ihxResult = ihxWrite env (trace s6) (outFile out) ihxMemories;
                                             s7 = emit (File (IhxWrite (outFile out) ihxMemories)) s6
                                         in if ihxResult \<noteq> 0 then Some (ERROR_OPERATION_FAILED env, s7)
                                            else Some (0, s7)
                                     | _ \<Rightarrow> None))"

text \<open>The three execute phases that read back: none of them asserts anything.\<close>

definition readFlashAndEeprom :: phaseFn where
  "readFlashAndEeprom env x s =
     (case readMemories env x True True s of None \<Rightarrow> None | Some (c, s') \<Rightarrow> Some (c, x, s'))"

definition readFlash :: phaseFn where
  "readFlash env x s =
     (case readMemories env x True False s of None \<Rightarrow> None | Some (c, s') \<Rightarrow> Some (c, x, s'))"

definition readEeprom :: phaseFn where
  "readEeprom env x s =
     (case readMemories env x False True s of None \<Rightarrow> None | Some (c, s') \<Rightarrow> Some (c, x, s'))"

subsection \<open>The table of action types\<close>

text \<open>
  Each \<open>actionType\<close> of the source is a struct of five function pointers, those it does
  not name being \<open>NULL\<close>. Here each field is a function from the action type to the
  phase function it names, if any. The two list actions do not look at their \<open>data\<close>.
\<close>

definition ignoringData :: "(env \<Rightarrow> state \<Rightarrow> ExitCode \<times> state) \<Rightarrow> phaseFn" where
  "ignoringData f env d s = (case f env s of (c, s') \<Rightarrow> Some (c, d, s'))"

fun allocate :: "actionType \<Rightarrow> phaseFn option" where
  "allocate actList = None"
| "allocate actListSupported = None"
| "allocate actWriteFlashAndEeprom = Some allocateHexFileInput"
| "allocate actWriteFlash = Some allocateHexFileInput"
| "allocate actWriteEeprom = Some allocateHexFileInput"
| "allocate actEraseFlashAndEeprom = Some allocateHexFileInput"
| "allocate actEraseFlash = Some allocateHexFileInput"
| "allocate actEraseEeprom = Some allocateHexFileInput"
| "allocate actReadFlashAndEeprom = Some allocateHexFileOutput"
| "allocate actReadFlash = Some allocateHexFileOutput"
| "allocate actReadEeprom = Some allocateHexFileOutput"

fun parse :: "actionType \<Rightarrow> phaseFn option" where
  "parse actList = None"
| "parse actListSupported = None"
| "parse actWriteFlashAndEeprom = Some parseHexFileInputArg"
| "parse actWriteFlash = Some parseHexFileInputArg"
| "parse actWriteEeprom = Some parseHexFileInputArg"
| "parse actEraseFlashAndEeprom = None"
| "parse actEraseFlash = None"
| "parse actEraseEeprom = None"
| "parse actReadFlashAndEeprom = Some parseHexFileOutputArg"
| "parse actReadFlash = Some parseHexFileOutputArg"
| "parse actReadEeprom = Some parseHexFileOutputArg"

fun prepare :: "actionType \<Rightarrow> phaseFn option" where
  "prepare actList = None"
| "prepare actListSupported = None"
| "prepare actWriteFlashAndEeprom = Some readHexFile"
| "prepare actWriteFlash = Some readHexFile"
| "prepare actWriteEeprom = Some readHexFile"
| "prepare actEraseFlashAndEeprom = Some clearHexFileInput"
| "prepare actEraseFlash = Some clearHexFileInput"
| "prepare actEraseEeprom = Some clearHexFileInput"
| "prepare actReadFlashAndEeprom = Some prepareHexFileOutput"
| "prepare actReadFlash = Some prepareHexFileOutput"
| "prepare actReadEeprom = Some prepareHexFileOutput"

fun execute :: "actionType \<Rightarrow> phaseFn option" where
  "execute actList = Some (ignoringData listConnectedBootloaders)"
| "execute actListSupported = Some (ignoringData listSupportedBootloaders)"
| "execute actWriteFlashAndEeprom = Some writeFlashAndEeprom"
| "execute actWriteFlash = Some writeFlash"
| "execute actWriteEeprom = Some writeEeprom"
| "execute actEraseFlashAndEeprom = Some writeFlashAndEeprom"
| "execute actEraseFlash = Some writeFlash"
| "execute actEraseEeprom = Some writeEeprom"
| "execute actReadFlashAndEeprom = Some readFlashAndEeprom"
| "execute actReadFlash = Some readFlash"
| "execute actReadEeprom = Some readEeprom"

fun freeFunc :: "actionType \<Rightarrow> (actionData \<Rightarrow> state \<Rightarrow> state) option" where
  "freeFunc actList = None"
| "freeFunc actListSupported = None"
| "freeFunc actWriteFlashAndEeprom = Some freeHexFileInput"
| "freeFunc actWriteFlash = Some freeHexFileInput"
| "freeFunc actWriteEeprom = Some freeHexFileInput"
| "freeFunc actEraseFlashAndEeprom = Some freeHexFileInput"
| "freeFunc actEraseFlash = Some freeHexFileInput"
| "freeFunc actEraseEeprom = Some freeHexFileInput"
| "freeFunc actReadFlashAndEeprom = Some freeHexFileOutput"
| "freeFunc actReadFlash = Some freeHexFileOutput"
| "freeFunc actReadEeprom = Some freeHexFileOutput"

subsection \<open>The action pipeline\<close>

text \<open>
  Modelled from the spec: \<^verbatim>\<open>actions.c\<close> (\<open>actionsAdd\<close>, \<open>actionsPrepare\<close>,
  \<open>actionsExecute\<close>, \<open>actionsFree\<close>) is not part of the source at hand. The spec (4.1)
  says: \<open>append\<close> adds an action descriptor and immediately invokes its allocate phase
  (if present) to create private state, then its parse phase (if present);
  \<open>runPreparePass\<close> invokes the prepare phase, in insertion order, for every queued
  action and stops and returns the first failure without running later actions'
  prepare phases; \<open>runExecutePass\<close> invokes the execute phase, in insertion order, for
  every queued action and stops at the first failure; \<open>releaseAll\<close> releases every
  action's private state regardless of how far execution proceeded, and is idempotent.
  An absent phase is a no-op.

  \<open>runPhase\<close> is one call of a phase function of the action at index \<open>i\<close>: it marks the
  call in the trace, hands the function the action's private state, stores that state
  as the function leaves it, and marks the return.
\<close>

definition runPhase :: "phase \<Rightarrow> phaseFn option \<Rightarrow> env \<Rightarrow> nat \<Rightarrow> state \<Rightarrow> (ExitCode \<times> state) option" where
  "runPhase ph f env i s =
     (case f of
        None \<Rightarrow> Some (0, s)
      | Some g \<Rightarrow>
          (case g env (snd (actions s ! i)) (emit (Invoke ph i) s) of
             None \<Rightarrow> None
           | Some (c, d, s1) \<Rightarrow>
               Some (c, emit (Return ph i c)
                          (s1\<lparr>actions := (actions s1)[i := (fst (actions s1 ! i), d)]\<rparr>))))"

definition actionsAdd :: "env \<Rightarrow> actionType \<Rightarrow> state \<Rightarrow> (ExitCode \<times> state) option" where
  "actionsAdd env t s =
     (let i = length (actions s);
          s1 = s\<lparr>actions := actions s @ [(t, NoData)]\<rparr>
      in case runPhase Allocate (allocate t) env i s1 of
           None \<Rightarrow> None
         | Some (exitCode, s2) \<Rightarrow>
             if exitCode \<noteq> 0 then Some (exitCode, s2)
             else runPhase Parse (parse t) env i s2)"

primrec phasePass ::
  "phase \<Rightarrow> (actionType \<Rightarrow> phaseFn option) \<Rightarrow> env \<Rightarrow> nat list \<Rightarrow> state \<Rightarrow> (ExitCode \<times> state) option" where
  "phasePass ph tab env [] s = Some (0, s)"
| "phasePass ph tab env (i # rest) s =
     (case runPhase ph (tab (fst (actions s ! i))) env i s of
        None \<Rightarrow> None
      | Some (exitCode, s1) \<Rightarrow>
          if exitCode \<noteq> 0 then Some (exitCode, s1) else phasePass ph tab env rest s1)"

definition actionsPrepare :: "env \<Rightarrow> state \<Rightarrow> (ExitCode \<times> state) option" where
  "actionsPrepare env s = phasePass Prepare prepare env [0..<length (actions s)] s"

definition actionsExecute :: "env \<Rightarrow> state \<Rightarrow> (ExitCode \<times> state) option" where
  "actionsExecute env s = phasePass Execute execute env [0..<length (actions s)] s"

primrec freePass :: "nat list \<Rightarrow> state \<Rightarrow> state" where
  "freePass [] s = s"
| "freePass (i # rest) s =
     freePass rest
       (case freeFunc (fst (actions s ! i)) of
          None \<Rightarrow> s
        | Some g \<Rightarrow> g (snd (actions s ! i)) (emit (Invoke Free i) s))"

definition actionsFree :: "state \<Rightarrow> state" where
  "actionsFree s = (freePass [0..<length (actions s)] s)\<lparr>actions := []\<rparr>"

subsection \<open>The orchestrator\<close>

text \<open>
  \<open>if (exitCode) { return exitCode; }\<close> at the end of the body of the loop of \<open>parseArgs\<close>:
  \<open>Some c\<close> is \<open>return c\<close>, \<open>None\<close> is another round of the loop.
\<close>

definition checkExitCode :: "(ExitCode \<times> state) option \<Rightarrow> (ExitCode option \<times> state) option" where
  "checkExitCode r =
     (case r of
        None \<Rightarrow> None
      | Some (exitCode, s) \<Rightarrow> Some (if exitCode \<noteq> 0 then Some exitCode else None, s))"

definition parseArgsBody :: "env \<Rightarrow> state \<Rightarrow> (ExitCode option \<times> state) option" where
  "parseArgsBody env s =
     (let (arg, s1) = argReaderNext s
      in case arg of
           None \<Rightarrow> Some (Some 0, s1)
         | Some a \<Rightarrow>
             if a = ''-d'' then
               (if desiredSerialNumber s1 \<noteq> None
                then Some (Some (ERROR_BAD_ARGS env),
                           error ''Serial number can only be specified once.'' [] s1)
                else
                  let (sn, s2) = argReaderNext s1;
                      s3 = s2\<lparr>desiredSerialNumber := sn\<rparr>
                  in if sn = None
                     then Some (Some (ERROR_BAD_ARGS env),
                                error ''Expected a serial number after %s.'' [a] s3)
                     else Some (None, s3))
             else if a = ''--list'' then checkExitCode (actionsAdd env actList s1)
             else if a = ''--list-supported'' then checkExitCode (actionsAdd env actListSupported s1)
             else if a = ''--wait'' then Some (None, s1\<lparr>waitForBootloaderFlag := True\<rparr>)
             else if a = ''-w'' then
               (case actionsAdd env actWriteFlashAndEeprom s1 of
                  None \<Rightarrow> None
                | Some (exitCode, s2) \<Rightarrow>
                    checkExitCode (Some (exitCode, s2\<lparr>restartBootloaderFlag := True\<rparr>)))
             else if a = ''--write'' then checkExitCode (actionsAdd env actWriteFlashAndEeprom s1)
             else if a = ''--write-flash'' then checkExitCode (actionsAdd env actWriteFlash s1)
             else if a = ''--write-eeprom'' then checkExitCode (actionsAdd env actWriteEeprom s1)
             else if a = ''--erase'' then checkExitCode (actionsAdd env actEraseFlashAndEeprom s1)
             else if a = ''--erase-flash'' then checkExitCode (actionsAdd env actEraseFlash s1)
             else if a = ''--erase-eeprom'' then checkExitCode (actionsAdd env actEraseEeprom s1)
             else if a = ''--read'' then checkExitCode (actionsAdd env actReadFlashAndEeprom s1)
             else if a = ''--read-flash'' then checkExitCode (actionsAdd env actReadFlash s1)
             else if a = ''--read-eeprom'' then checkExitCode (actionsAdd env actReadEeprom s1)
             else if a = ''--restart'' then Some (None, s1\<lparr>restartBootloaderFlag := True\<rparr>)
             else Some (Some (ERROR_BAD_ARGS env), error ''Unknown option: %s'' [a] s1))"

text \<open>
  The \<open>while (1)\<close> of \<open>parseArgs\<close>. Each round that does not return reads at least one
  token, so the loop ends (the termination proof follows the definitions); \<open>None\<close> is
  an abort inside a phase function.
\<close>

function parseArgs :: "env \<Rightarrow> state \<Rightarrow> (ExitCode \<times> state) option" where
  "parseArgs env s =
     (case parseArgsBody env s of
        None \<Rightarrow> None
      | Some (Some exitCode, s') \<Rightarrow> Some (exitCode, s')
      | Some (None, s') \<Rightarrow> parseArgs env s')"
  by pat_completeness auto

definition run :: "env \<Rightarrow> state \<Rightarrow> (ExitCode \<times> state) option" where
  "run env s =
     (case parseArgs env s of
        None \<Rightarrow> None
      | Some (exitCode, s1) \<Rightarrow>
          if exitCode \<noteq> 0 then Some (exitCode, s1)
          else
            (case waitForBootloaderIfNeeded env s1 of
               None \<Rightarrow> None
             | Some (exitCode, s2) \<Rightarrow>
                 if exitCode \<noteq> 0 then Some (exitCode, s2)
                 else
                   (case actionsPrepare env s2 of
                      None \<Rightarrow> None
                    | Some (exitCode, s3) \<Rightarrow>
                        if exitCode \<noteq> 0 then Some (exitCode, s3)
                        else
                          (case actionsExecute env s3 of
                             None \<Rightarrow> None
                           | Some (exitCode, s4) \<Rightarrow>
                               if exitCode \<noteq> 0 then Some (exitCode, s4)
                               else
                                 (case restartBootloaderIfNeeded env s4 of
                                    (exitCode, s5) \<Rightarrow>
                                      if exitCode \<noteq> 0 then Some (exitCode, s5)
                                      else Some (0, s5))))))"

text \<open>
  \<open>main\<close>, from the argument vector. \<open>usbSetVerbosity\<close> only configures the USB layer and
  is left out.
\<close>

definition main :: "env \<Rightarrow> string list \<Rightarrow> (ExitCode \<times> state) option" where
  "main env argv =
     (if length argv \<le> 1
      then Some (ERROR_BAD_ARGS env, printf (help_text env) [] initialState)
      else
        (case run env (argReaderInit argv initialState) of
           None \<Rightarrow> None
         | Some (exitCode, s1) \<Rightarrow>
             let s2 = actionsFree s1;
                 s3 = emit (Dev (Close (bootloaderHandle s2))) s2;
                 s4 = emit (Dev ListFree) s3
             in Some (exitCode, s4)))"


subsection \<open>Environments and states to run the program on\<close>

text \<open>
  \<open>quietEnv\<close> is a computer with no bootloader connected, on which every call succeeds;
  \<open>connected l\<close> connects the bootloaders \<open>l\<close>. \<open>discovered l\<close> is the initial state after
  the discovery of \<open>l\<close>.
\<close>

definition info0 :: ploaderInfo where
  "info0 = \<lparr> name = ''P-Star 25K50'', serialNumber = ''00123456'', appAddress = 0x2000,
             appSize = 4, eepromSize = 2, eepromAddressHexFile = 0xF00000 \<rparr>"

definition quietEnv :: env where
  "quietEnv =
     \<lparr> ERROR_BAD_ARGS = 1, ERROR_OPERATION_FAILED = 2, ERROR_BOOTLOADER_NOT_FOUND = 3,
       ploaderTable = [''P-Star 25K50''],
       ploaderListCreate = (\<lambda>h. (0, [])),
       ploaderListFilterBySerialNumber = (\<lambda>h l sn. (0, l)),
       ploaderOpenFromList = (\<lambda>h d. 0),
       ploaderCreateInfo = (\<lambda>h d. (0, info0)),
       ploaderListCreateInfo = (\<lambda>h d. (0, info0)),
       ploaderCheckApplication = (\<lambda>h d. (0, True)),
       ploaderWriteFlash = (\<lambda>h d b. 0),
       ploaderWriteEeprom = (\<lambda>h d b. 0),
       ploaderReadFlash = (\<lambda>h d. (0, [])),
       ploaderReadEeprom = (\<lambda>h d. (0, [])),
       ploaderRestartDevice = (\<lambda>h d. 0),
       malloc = (\<lambda>h n. Some (replicate n 0)),
       fopen = (\<lambda>h f m. True),
       strerror_errno = (\<lambda>h. ''No such file or directory''),
       ihxRead = (\<lambda>h f ms. (0, image (ms ! 0), image (ms ! 1))),
       ihxWrite = (\<lambda>h f ms. 0),
       clock_ms = (\<lambda>h. 0),
       help_text = ''p-load: Pololu USB Bootloader Utility'',
       sizeof_HexFileInput = 24,
       sizeof_HexFileOutput = 16 \<rparr>"

definition connected :: "device list \<Rightarrow> env \<Rightarrow> env" where
  "connected l env = env\<lparr>ploaderListCreate := (\<lambda>h. (0, l))\<rparr>"

definition discovered :: "device list \<Rightarrow> state" where
  "discovered l = (emit (Dev ListCreate) initialState)\<lparr>bootloaderList := Some l\<rparr>"

subsection \<open>The line that says that no bootloader was found\<close>

text \<open>The line \<open>bootloaderNotFoundInfo\<close> writes, for the serial number asked for, if any.\<close>

definition notFoundMessage :: "string option \<Rightarrow> event" where
  "notFoundMessage sn =
     (case sn of
        None \<Rightarrow> Msg InfoMsg ''No bootloader found.'' []
      | Some x \<Rightarrow> Msg InfoMsg ''No bootloader found with serial number '%s'.'' [x])"

subsection \<open>The line that lists a bootloader\<close>

text \<open>
  The line the loop of \<open>listConnectedBootloaders\<close> prints for entry \<open>j\<close> of the list when it
  comes to it in the state \<open>sj\<close>: the serial number and the name of the entry, and the
  status that \<open>getStatus\<close> returns.
\<close>

definition listedLine :: "env \<Rightarrow> device list option \<Rightarrow> nat \<Rightarrow> state \<Rightarrow> event" where
  "listedLine env l j sj =
     (let d = listEntries l ! j;
          usbInfo = snd (ploaderListCreateInfo env (trace sj) d);
          status = fst (getStatus env l j (emit (Dev (ListCreateInfo d)) sj))
      in Msg Stdout ''%-11s  %-40s %-15s\<newline>'' [serialNumber usbInfo, name usbInfo, status])"

subsection \<open>Files and transfers in the trace\<close>

text \<open>
  \<open>isFileCall\<close> holds of the calls that open, close, read or write a file, \<open>isTransfer\<close>
  of the calls that send an image to the device. \<open>targetedTransfers\<close> follows the words
  of the spec: an erase action sends one image for each region it targets, the flash
  image first.
\<close>

fun isFileCall :: "event \<Rightarrow> bool" where
  "isFileCall (File f) = True"
| "isFileCall _ = False"

fun isTransfer :: "event \<Rightarrow> bool" where
  "isTransfer (Dev (WriteFlash h b)) = True"
| "isTransfer (Dev (WriteEeprom h b)) = True"
| "isTransfer _ = False"

definition targetedTransfers :: "actionType \<Rightarrow> device option \<Rightarrow> HexFileInput \<Rightarrow> event list" where
  "targetedTransfers t h x =
     (if t = actEraseFlashAndEeprom
      then [Dev (WriteFlash h (flash x)), Dev (WriteEeprom h (eeprom x))]
      else if t = actEraseFlash then [Dev (WriteFlash h (flash x))]
      else if t = actEraseEeprom then [Dev (WriteEeprom h (eeprom x))]
      else [])"

subsection \<open>Device calls, and the rounds of the parsing loop\<close>

text \<open>\<open>isDeviceCall\<close> holds of every call into the bootloader library.\<close>

fun isDeviceCall :: "event \<Rightarrow> bool" where
  "isDeviceCall (Dev d) = True"
| "isDeviceCall (Restart h) = True"
| "isDeviceCall _ = False"

text \<open>
  \<open>parseRounds env s s'\<close>: the loop of \<open>parseArgs\<close>, entered in the state \<open>s\<close>, is at the
  top of a round in the state \<open>s'\<close>, every round before having gone on to the next.
\<close>

inductive parseRounds :: "env \<Rightarrow> state \<Rightarrow> state \<Rightarrow> bool" for env where
  start: "parseRounds env s s"
| round: "parseArgsBody env s = Some (None, s1) \<Longrightarrow> parseRounds env s1 s2 \<Longrightarrow> parseRounds env s s2"

subsection \<open>Observing the trace\<close>

text \<open>
  A property of events that holds of no call into a collaborator other than a restart:
  it can tell the marks of the pipeline and the restarts apart, and nothing else.
\<close>

definition callFree :: "(event \<Rightarrow> bool) \<Rightarrow> bool" where
  "callFree P =
     ((\<forall>c f a. \<not> P (Msg c f a)) \<and> (\<forall>d. \<not> P (Dev d)) \<and> (\<forall>f. \<not> P (File f)) \<and>
      (\<forall>n. \<not> P (Mem n)) \<and> (\<forall>n. \<not> P (Sleep n)))"

text \<open>
  \<open>flakyEnv\<close> has three bootloaders connected: 7 cannot be opened, 9 does not answer
  when asked for its application.
\<close>

definition flakyEnv :: env where
  "flakyEnv =
     quietEnv\<lparr>ploaderListCreate := (\<lambda>h. (0, [7, 8, 9])),
              ploaderOpenFromList := (\<lambda>h d. if d = 7 then 5 else 0),
              ploaderCheckApplication := (\<lambda>h d. if d = 9 then (6, False) else (0, True))\<rparr>"


subsection \<open>A clock that only sleeping advances\<close>

text \<open>
  On \<open>tickingEnv\<close> nothing is connected, every \<open>usleep(100 * 1000)\<close> takes exactly 100 ms and
  nothing else takes any time: the clock reads 100 ms for each such sleep in the history.
\<close>

definition tickingEnv :: env where
  "tickingEnv = quietEnv\<lparr>clock_ms := (\<lambda>h. 100 * length (filter (\<lambda>e. e = Sleep 100) h))\<rparr>"

text \<open>The state after \<open>--wait\<close> has been parsed: the flag is set and no list is cached.\<close>

definition waitingState :: state where
  "waitingState = initialState\<lparr>waitForBootloaderFlag := True\<rparr>"

text \<open>
  On \<open>strangerEnv\<close> the clock is the same, and one bootloader is connected, whose serial
  number is 00123456: filtering by any other serial number leaves nothing.
\<close>

definition strangerEnv :: env where
  "strangerEnv =
     tickingEnv\<lparr>ploaderListCreate := (\<lambda>h. (0, [7])),
                ploaderListFilterBySerialNumber :=
                  (\<lambda>h l sn. (0, if sn = ''00123456'' then l else []))\<rparr>"

section \<open>Basic facts\<close>

lemma emit_fields [simp]:
  "desiredSerialNumber (emit e s) = desiredSerialNumber s"
  "waitForBootloaderFlag (emit e s) = waitForBootloaderFlag s"
  "restartBootloaderFlag (emit e s) = restartBootloaderFlag s"
  "bootloaderList (emit e s) = bootloaderList s"
  "bootloaderHandle (emit e s) = bootloaderHandle s"
  "argReaderArgs (emit e s) = argReaderArgs s"
  "argReaderLastArg (emit e s) = argReaderLastArg s"
  "actions (emit e s) = actions s"
  "trace (emit e s) = trace s @ [e]"
  by (simp_all add: emit_def)

lemma msg_simps [simp]:
  "error fmt args s = emit (Msg ErrorMsg fmt args) s"
  "info fmt args s = emit (Msg InfoMsg fmt args) s"
  "printf fmt args s = emit (Msg Stdout fmt args) s"
  "fprintf_stderr fmt args s = emit (Msg Stderr fmt args) s"
  by (simp_all add: error_def info_def printf_def fprintf_stderr_def)

lemma argReaderNext_Some:
  "argReaderNext s = (Some a, s1) \<Longrightarrow> length (argReaderArgs s1) < length (argReaderArgs s)"
  by (auto simp: argReaderNext_def split: list.splits)

lemma argReaderNext_le:
  "argReaderNext s = (r, s1) \<Longrightarrow> length (argReaderArgs s1) \<le> length (argReaderArgs s)"
  by (auto simp: argReaderNext_def split: list.splits)

lemma allocate_args:
  "allocate t = Some g \<Longrightarrow> g env d s = Some (c, d', s') \<Longrightarrow> argReaderArgs s' = argReaderArgs s"
  by (cases t) (auto simp: allocateHexFileInput_def allocateHexFileOutput_def Let_def split: if_splits)

lemma parse_args:
  "parse t = Some g \<Longrightarrow> g env d s = Some (c, d', s') \<Longrightarrow>
   length (argReaderArgs s') \<le> length (argReaderArgs s)"
  by (cases t)
     (auto simp: parseHexFileInputArg_def parseHexFileOutputArg_def Let_def
           split: actionData.splits prod.splits option.splits dest: argReaderNext_le)

lemma runPhase_Allocate_args:
  "runPhase Allocate (allocate t) env i s = Some (c, s') \<Longrightarrow> argReaderArgs s' = argReaderArgs s"
  by (auto simp: runPhase_def split: option.splits dest: allocate_args)

lemma runPhase_Parse_args:
  "runPhase Parse (parse t) env i s = Some (c, s') \<Longrightarrow>
   length (argReaderArgs s') \<le> length (argReaderArgs s)"
  by (auto simp: runPhase_def split: option.splits dest: parse_args)

lemma actionsAdd_args:
  "actionsAdd env t s = Some (c, s') \<Longrightarrow> length (argReaderArgs s') \<le> length (argReaderArgs s)"
  by (auto simp: actionsAdd_def Let_def split: option.splits if_splits
           dest!: runPhase_Allocate_args runPhase_Parse_args)

lemma checkExitCode_args:
  "checkExitCode (actionsAdd env t s) = Some (r, s') \<Longrightarrow>
   length (argReaderArgs s') \<le> length (argReaderArgs s)"
  by (auto simp: checkExitCode_def split: option.splits dest: actionsAdd_args)

lemma parseArgsBody_consumes:
  assumes "parseArgsBody env s = Some (None, s')"
  shows "length (argReaderArgs s') < length (argReaderArgs s)"
proof -
  obtain arg s1 where n: "argReaderNext s = (arg, s1)"
    by fastforce
  from assms n obtain a where a: "arg = Some a"
    by (cases arg) (auto simp: parseArgsBody_def)
  have lt: "length (argReaderArgs s1) < length (argReaderArgs s)"
    using n a argReaderNext_Some by blast
  have "length (argReaderArgs s') \<le> length (argReaderArgs s1)"
    using assms n a
    by (auto simp: parseArgsBody_def Let_def checkExitCode_def
             split: if_splits option.splits prod.splits
             dest: actionsAdd_args argReaderNext_le)
  with lt show ?thesis by simp
qed

termination parseArgs
  by (relation "measure (\<lambda>(env, s). length (argReaderArgs s))")
     (auto dest: parseArgsBody_consumes)

lemma initialState_fields [simp]:
  "desiredSerialNumber initialState = None"
  "waitForBootloaderFlag initialState = False"
  "restartBootloaderFlag initialState = False"
  "bootloaderList initialState = None"
  "bootloaderHandle initialState = None"
  "argReaderArgs initialState = []"
  "argReaderLastArg initialState = None"
  "actions initialState = []"
  "trace initialState = []"
  by (simp_all add: initialState_def)

lemma quietEnv_fields [simp]:
  "ERROR_BAD_ARGS quietEnv = 1"
  "ERROR_OPERATION_FAILED quietEnv = 2"
  "ERROR_BOOTLOADER_NOT_FOUND quietEnv = 3"
  "ploaderTable quietEnv = [''P-Star 25K50'']"
  "ploaderListCreate quietEnv = (\<lambda>h. (0, []))"
  "ploaderListFilterBySerialNumber quietEnv = (\<lambda>h l sn. (0, l))"
  "ploaderOpenFromList quietEnv = (\<lambda>h d. 0)"
  "ploaderCreateInfo quietEnv = (\<lambda>h d. (0, info0))"
  "ploaderListCreateInfo quietEnv = (\<lambda>h d. (0, info0))"
  "ploaderCheckApplication quietEnv = (\<lambda>h d. (0, True))"
  "ploaderWriteFlash quietEnv = (\<lambda>h d b. 0)"
  "ploaderWriteEeprom quietEnv = (\<lambda>h d b. 0)"
  "ploaderReadFlash quietEnv = (\<lambda>h d. (0, []))"
  "ploaderReadEeprom quietEnv = (\<lambda>h d. (0, []))"
  "ploaderRestartDevice quietEnv = (\<lambda>h d. 0)"
  "malloc quietEnv = (\<lambda>h n. Some (replicate n 0))"
  "fopen quietEnv = (\<lambda>h f m. True)"
  "ihxRead quietEnv = (\<lambda>h f ms. (0, image (ms ! 0), image (ms ! 1)))"
  "ihxWrite quietEnv = (\<lambda>h f ms. 0)"
  "clock_ms quietEnv = (\<lambda>h. 0)"
  "sizeof_HexFileInput quietEnv = 24"
  "sizeof_HexFileOutput quietEnv = 16"
  by (simp_all add: quietEnv_def)

lemma discovered_fields [simp]:
  "bootloaderList (discovered l) = Some l"
  "bootloaderHandle (discovered l) = None"
  "desiredSerialNumber (discovered l) = None"
  "trace (discovered l) = [Dev ListCreate]"
  by (simp_all add: discovered_def)

lemma bootloaderListRequire_connected:
  "bootloaderListRequire (connected l quietEnv) initialState = (0, discovered l)"
  by (simp add: bootloaderListRequire_def connected_def discovered_def)

subsection \<open>What the device session adds to the trace\<close>

declare listLoop.simps [simp del]

lemma bootloaderListRequire_cached:
  "bootloaderList s \<noteq> None \<Longrightarrow> bootloaderListRequire env s = (0, s)"
  by (simp add: bootloaderListRequire_def)

lemma bootloaderListRequire_handle [simp]:
  "bootloaderHandle (snd (bootloaderListRequire env s)) = bootloaderHandle s"
  by (simp add: bootloaderListRequire_def Let_def split_beta split: option.splits)

lemma bootloaderListRequire_prefix:
  "prefix (trace s) (trace (snd (bootloaderListRequire env s)))"
  by (simp add: bootloaderListRequire_def Let_def split_beta prefix_def split: option.splits)

lemma bootloaderListRequire_fresh:
  "bootloaderList s = None \<Longrightarrow>
   prefix (trace s @ [Dev ListCreate]) (trace (snd (bootloaderListRequire env s)))"
  by (simp add: bootloaderListRequire_def Let_def split_beta prefix_def split: option.splits)

lemma bootloaderListRequire_frame:
  assumes "\<not> P (Dev ListCreate)" "\<And>sn. \<not> P (Dev (ListFilterBySerialNumber sn))" "\<not> P (Dev ListFree)"
  shows "filter P (trace (snd (bootloaderListRequire env s))) = filter P (trace s)"
  using assms by (simp add: bootloaderListRequire_def Let_def split_beta split: option.splits)

lemma getStatus_handle [simp]:
  "bootloaderHandle (snd (getStatus env l i s)) = bootloaderHandle s"
  "bootloaderList (snd (getStatus env l i s)) = bootloaderList s"
  by (simp_all add: getStatus_def Let_def split_beta)

lemma getStatus_prefix:
  "prefix (trace s) (trace (snd (getStatus env l i s)))"
  by (simp add: getStatus_def Let_def split_beta prefix_def)

lemma getStatus_frame:
  assumes "\<And>c f a. \<not> P (Msg c f a)" "\<And>d. \<not> P (Dev (OpenFromList d))"
    "\<And>d. \<not> P (Dev (CheckApplication d))" "\<And>d. \<not> P (Dev (Close d))"
  shows "filter P (trace (snd (getStatus env l i s))) = filter P (trace s)"
  using assms by (simp add: getStatus_def Let_def split_beta)

lemma listLoop_handle [simp]:
  "bootloaderHandle (snd (listLoop env i n s)) = bootloaderHandle s"
proof (induction "n - i" arbitrary: i s)
  case 0
  then show ?case by (subst listLoop.simps) simp
next
  case (Suc k)
  then have k: "k = n - Suc i" by simp
  show ?case
    by (subst listLoop.simps) (simp add: Let_def split_beta Suc(1) [OF k])
qed

lemma listLoop_list [simp]:
  "bootloaderList (snd (listLoop env i n s)) = bootloaderList s"
proof (induction "n - i" arbitrary: i s)
  case 0
  then show ?case by (subst listLoop.simps) simp
next
  case (Suc k)
  then have k: "k = n - Suc i" by simp
  show ?case
    by (subst listLoop.simps) (simp add: Let_def split_beta Suc(1) [OF k])
qed

lemma listLoop_prefix:
  "prefix (trace s) (trace (snd (listLoop env i n s)))"
proof (induction "n - i" arbitrary: i s)
  case 0
  then show ?case by (subst listLoop.simps) simp
next
  case (Suc k)
  then have k: "k = n - Suc i" by simp
  let ?d = "listEntries (bootloaderList s) ! i"
  let ?s1 = "emit (Dev (ListCreateInfo ?d)) s"
  let ?s2 = "snd (getStatus env (bootloaderList ?s1) i ?s1)"
  have p1: "prefix (trace s) (trace ?s2)"
    using getStatus_prefix [of ?s1 env "bootloaderList ?s1" i] by (auto simp: prefix_def)
  show ?case
    apply (subst listLoop.simps)
    apply (simp add: Let_def split_beta)
    apply (intro impI conjI)
    apply (rule prefix_order.trans [OF p1])
    apply (rule prefix_order.trans [OF _ Suc(1) [OF k]])
    apply simp
    done
qed

lemma listLoop_frame:
  assumes "\<And>c f a. \<not> P (Msg c f a)" "\<And>d. \<not> P (Dev (OpenFromList d))"
    "\<And>d. \<not> P (Dev (CheckApplication d))" "\<And>d. \<not> P (Dev (Close d))"
    "\<And>d. \<not> P (Dev (ListCreateInfo d))"
  shows "filter P (trace (snd (listLoop env i n s))) = filter P (trace s)"
proof (induction "n - i" arbitrary: i s)
  case 0
  then show ?case by (subst listLoop.simps) simp
next
  case (Suc k)
  then have k: "k = n - Suc i" by simp
  show ?case
    by (subst listLoop.simps)
       (simp add: Let_def split_beta Suc(1) [OF k] assms getStatus_frame [of P, OF assms(1-4)])
qed

lemma callFree_simps [simp]:
  assumes "callFree P"
  shows "P (Msg c f a) = False" "P (Dev d) = False" "P (File g) = False" "P (Mem n) = False"
    "P (Sleep n) = False"
  using assms by (simp_all add: callFree_def)

lemma bootloaderListRequire_callFree [simp]:
  "callFree P \<Longrightarrow> filter P (trace (snd (bootloaderListRequire env s))) = filter P (trace s)"
  by (rule bootloaderListRequire_frame) simp_all

lemma bootloaderNotFoundError_callFree [simp]:
  "callFree P \<Longrightarrow> filter P (trace (snd (bootloaderNotFoundError env s))) = filter P (trace s)"
  by (simp add: bootloaderNotFoundError_def split: option.splits)

lemma bootloaderNotFoundInfo_callFree [simp]:
  "callFree P \<Longrightarrow> filter P (trace (snd (bootloaderNotFoundInfo env s))) = filter P (trace s)"
  by (simp add: bootloaderNotFoundInfo_def split: option.splits)

lemma printBootloaderInfo_callFree [simp]:
  "callFree P \<Longrightarrow> filter P (trace (snd (printBootloaderInfo env s))) = filter P (trace s)"
  by (simp add: printBootloaderInfo_def Let_def split_beta)

lemma bootloaderHandleRequire_callFree [simp]:
  "callFree P \<Longrightarrow> filter P (trace (snd (bootloaderHandleRequire env s))) = filter P (trace s)"
  by (simp add: bootloaderHandleRequire_def Let_def split_beta)

lemma listLoop_callFree [simp]:
  "callFree P \<Longrightarrow> filter P (trace (snd (listLoop env i n s))) = filter P (trace s)"
  by (rule listLoop_frame) simp_all

lemma listConnectedBootloaders_callFree [simp]:
  "callFree P \<Longrightarrow> filter P (trace (snd (listConnectedBootloaders env s))) = filter P (trace s)"
  by (simp add: listConnectedBootloaders_def Let_def split_beta split: option.splits)

lemma fold_printf_callFree:
  "callFree P \<Longrightarrow> filter P (trace (fold (\<lambda>n. printf fmt [n]) xs s)) = filter P (trace s)"
  by (induction xs arbitrary: s) simp_all

lemma listSupportedBootloaders_callFree [simp]:
  "callFree P \<Longrightarrow> filter P (trace (snd (listSupportedBootloaders env s))) = filter P (trace s)"
  by (simp add: listSupportedBootloaders_def fold_printf_callFree del: msg_simps)
     (simp add: fold_printf_callFree [unfolded msg_simps])

lemma readMemories_callFree:
  assumes "callFree P" and "readMemories env data rf re s = Some (c, s')"
  shows "filter P (trace s') = filter P (trace s)"
proof -
  obtain e s1 where h: "bootloaderHandleRequire env s = (e, s1)"
    by fastforce
  have "filter P (trace s1) = filter P (trace s)"
    using bootloaderHandleRequire_callFree [OF assms(1), of env s] h by simp
  with assms h show ?thesis
    by (cases rf; cases re)
       (auto simp: readMemories_def Let_def split_beta split: if_splits actionData.splits)
qed

lemma restartBootloaderIfNeeded_callFree [simp]:
  "callFree P \<Longrightarrow> (\<And>d. \<not> P (Restart d)) \<Longrightarrow>
   filter P (trace (snd (restartBootloaderIfNeeded env s))) = filter P (trace s)"
  by (simp add: restartBootloaderIfNeeded_def Let_def split_beta)

subsection \<open>What the phase functions add to the trace\<close>

lemma allocate_callFree:
  "callFree P \<Longrightarrow> allocate t = Some g \<Longrightarrow> g env d s = Some (c, d', s') \<Longrightarrow>
   filter P (trace s') = filter P (trace s)"
  by (cases t) (auto simp: allocateHexFileInput_def allocateHexFileOutput_def Let_def split: if_splits)

lemma parse_callFree:
  "callFree P \<Longrightarrow> parse t = Some g \<Longrightarrow> g env d s = Some (c, d', s') \<Longrightarrow>
   filter P (trace s') = filter P (trace s)"
  by (cases t)
     (auto simp: parseHexFileInputArg_def parseHexFileOutputArg_def argReaderNext_def Let_def
           split: actionData.splits option.splits list.splits)

lemma readHexFile_callFree:
  "callFree P \<Longrightarrow> readHexFile env d s = Some (c, d', s') \<Longrightarrow>
   filter P (trace s') = filter P (trace s)"
  by (auto simp: readHexFile_def Let_def split_beta split: actionData.splits if_splits)

lemma clearHexFileInput_callFree:
  "callFree P \<Longrightarrow> clearHexFileInput env d s = Some (c, d', s') \<Longrightarrow>
   filter P (trace s') = filter P (trace s)"
  by (auto simp: clearHexFileInput_def Let_def split_beta split: actionData.splits if_splits)

lemma prepareHexFileOutput_callFree:
  "callFree P \<Longrightarrow> prepareHexFileOutput env d s = Some (c, d', s') \<Longrightarrow>
   filter P (trace s') = filter P (trace s)"
  by (auto simp: prepareHexFileOutput_def Let_def split_beta split: actionData.splits if_splits)

lemma prepare_callFree:
  "callFree P \<Longrightarrow> prepare t = Some g \<Longrightarrow> g env d s = Some (c, d', s') \<Longrightarrow>
   filter P (trace s') = filter P (trace s)"
  by (cases t) (auto dest: readHexFile_callFree clearHexFileInput_callFree prepareHexFileOutput_callFree)

lemma write_callFree:
  assumes "callFree P"
  shows "writeFlashAndEeprom env d s = Some (c, d', s') \<Longrightarrow> filter P (trace s') = filter P (trace s)"
    and "writeFlash env d s = Some (c, d', s') \<Longrightarrow> filter P (trace s') = filter P (trace s)"
    and "writeEeprom env d s = Some (c, d', s') \<Longrightarrow> filter P (trace s') = filter P (trace s)"
  using assms
  by (auto simp: writeFlashAndEeprom_def writeFlash_def writeEeprom_def Let_def split_beta
        split: actionData.splits if_splits)

lemma read_callFree:
  assumes "callFree P"
  shows "readFlashAndEeprom env d s = Some (c, d', s') \<Longrightarrow> filter P (trace s') = filter P (trace s)"
    and "readFlash env d s = Some (c, d', s') \<Longrightarrow> filter P (trace s') = filter P (trace s)"
    and "readEeprom env d s = Some (c, d', s') \<Longrightarrow> filter P (trace s') = filter P (trace s)"
  using assms
  by (auto simp: readFlashAndEeprom_def readFlash_def readEeprom_def
        split: option.splits dest: readMemories_callFree)

lemma execute_callFree:
  "callFree P \<Longrightarrow> execute t = Some g \<Longrightarrow> g env d s = Some (c, d', s') \<Longrightarrow>
   filter P (trace s') = filter P (trace s)"
  by (cases t) (auto simp: ignoringData_def split_beta dest: write_callFree read_callFree)

lemma freeFunc_callFree:
  "callFree P \<Longrightarrow> freeFunc t = Some g \<Longrightarrow> filter P (trace (g d s)) = filter P (trace s)"
  by (cases t) (auto simp: freeHexFileInput_def freeHexFileOutput_def split: actionData.splits)

subsection \<open>What the pipeline adds to the trace\<close>

lemma runPhase_filter:
  assumes "callFree P"
    and frame: "\<And>g d s0 c d' s1. f = Some g \<Longrightarrow> g env d s0 = Some (c, d', s1) \<Longrightarrow>
                  filter P (trace s1) = filter P (trace s0)"
    and "runPhase ph f env i s = Some (c, s')"
  shows "filter P (trace s') =
         filter P (trace s) @ (if f = None then [] else filter P [Invoke ph i, Return ph i c])"
proof (cases f)
  case None
  with assms(3) show ?thesis by (simp add: runPhase_def)
next
  case (Some g)
  with assms(3) obtain d s1 where g: "g env (snd (actions s ! i)) (emit (Invoke ph i) s) = Some (c, d, s1)"
    and s': "s' = emit (Return ph i c) (s1\<lparr>actions := (actions s1)[i := (fst (actions s1 ! i), d)]\<rparr>)"
    by (auto simp: runPhase_def split: option.splits)
  from frame [OF Some g] have "filter P (trace s1) = filter P (trace s) @ filter P [Invoke ph i]"
    by simp
  with Some s' show ?thesis by simp
qed

lemma runPhase_None_code:
  "runPhase ph None env i s = Some (c, s') \<Longrightarrow> c = 0 \<and> s' = s"
  by (simp add: runPhase_def)

lemma waitLoop_callFree:
  assumes "waitLoop env t s = Some y" and "callFree P"
  shows "filter P (trace (snd y)) = filter P (trace s)"
proof (rule waitLoop.raw_induct
    [where P = "\<lambda>env t s y. filter P (trace (snd y)) = filter P (trace s)", OF _ assms(1)])
  fix loop env t s y
  assume IH: "\<And>env t s y. loop env t s = Some y \<Longrightarrow>
               filter P (trace (snd y)) = filter P (trace s)"
    and body: "(case bootloaderListRequire env s of
        (exitCode, s1) \<Rightarrow>
          if exitCode \<noteq> 0 then Some (exitCode, s1)
          else if ploaderListSize (bootloaderList s1) > 0 then Some (0, s1)
          else
            let s2 = (emit (Dev ListFree) s1)\<lparr>bootloaderList := None\<rparr>
            in if time env s2 - t > 10 then Some (bootloaderNotFoundError env s2)
               else loop env t (emit (Sleep 100) s2)) = Some y"
  from body show "filter P (trace (snd y)) = filter P (trace s)"
    using assms(2)
    by (auto simp: Let_def split_beta split: if_splits dest!: IH)
qed

lemma waitForBootloaderIfNeeded_callFree:
  "waitForBootloaderIfNeeded env s = Some (c, s') \<Longrightarrow> callFree P \<Longrightarrow>
   filter P (trace s') = filter P (trace s)"
  by (auto simp: waitForBootloaderIfNeeded_def split: if_splits dest: waitLoop_callFree)

lemma actionsAdd_filter:
  assumes "callFree P" "\<And>i. \<not> P (Invoke Allocate i)" "\<And>i c. \<not> P (Return Allocate i c)"
    "\<And>i. \<not> P (Invoke Parse i)" "\<And>i c. \<not> P (Return Parse i c)"
    and "actionsAdd env t s = Some (c, s')"
  shows "filter P (trace s') = filter P (trace s)"
proof -
  let ?s1 = "s\<lparr>actions := actions s @ [(t, NoData)]\<rparr>"
  from assms(6) obtain c1 s2 where a: "runPhase Allocate (allocate t) env (length (actions s)) ?s1 = Some (c1, s2)"
    and rest: "c1 \<noteq> 0 \<and> s' = s2 \<or> runPhase Parse (parse t) env (length (actions s)) s2 = Some (c, s')"
    by (auto simp: actionsAdd_def Let_def split: option.splits if_splits)
  have "filter P (trace s2) = filter P (trace ?s1)"
    using runPhase_filter [OF assms(1) _ a] allocate_callFree [OF assms(1)] assms(2,3)
    by auto
  moreover have "filter P (trace s') = filter P (trace s2)"
    if "runPhase Parse (parse t) env (length (actions s)) s2 = Some (c, s')"
    using runPhase_filter [OF assms(1) _ that] parse_callFree [OF assms(1)] assms(4,5)
    by auto
  ultimately show ?thesis using rest by auto
qed

lemma parseArgsBody_filter:
  assumes "callFree P" "\<And>i. \<not> P (Invoke Allocate i)" "\<And>i c. \<not> P (Return Allocate i c)"
    "\<And>i. \<not> P (Invoke Parse i)" "\<And>i c. \<not> P (Return Parse i c)"
    and "parseArgsBody env s = Some (r, s')"
  shows "filter P (trace s') = filter P (trace s)"
proof -
  obtain arg s1 where n: "argReaderNext s = (arg, s1)"
    by fastforce
  then have t1: "trace s1 = trace s"
    by (auto simp: argReaderNext_def split: list.splits)
  have n2: "trace (snd (argReaderNext s1)) = trace s1"
    by (auto simp: argReaderNext_def split: list.splits)
  note add = actionsAdd_filter [OF assms(1-5)]
  show ?thesis
    using assms(1,6) n t1 n2
    by (auto simp: parseArgsBody_def Let_def split_beta checkExitCode_def
          split: option.splits if_splits dest!: add)
qed

declare parseArgs.simps [simp del]

lemma parseArgs_filter:
  assumes "callFree P" "\<And>i. \<not> P (Invoke Allocate i)" "\<And>i c. \<not> P (Return Allocate i c)"
    "\<And>i. \<not> P (Invoke Parse i)" "\<And>i c. \<not> P (Return Parse i c)"
  shows "parseArgs env s = Some (c, s') \<Longrightarrow> filter P (trace s') = filter P (trace s)"
proof (induction env s rule: parseArgs.induct)
  case (1 env s)
  from 1(2) show ?case
    apply (subst (asm) parseArgs.simps)
    apply (auto split: option.splits prod.splits dest: parseArgsBody_filter [OF assms])
    apply (frule parseArgsBody_filter [OF assms])
    apply (drule 1(1) [rotated -1])
    apply auto
    done
qed

text \<open>A pass adds marks of its own phase only.\<close>

lemma phasePass_filter:
  assumes "callFree P" "\<And>i. \<not> P (Invoke ph i)" "\<And>i c. \<not> P (Return ph i c)"
    and frame: "\<And>t g d s0 c d' s1. tab t = Some g \<Longrightarrow> g env d s0 = Some (c, d', s1) \<Longrightarrow>
                  filter P (trace s1) = filter P (trace s0)"
  shows "phasePass ph tab env is s = Some (c, s') \<Longrightarrow> filter P (trace s') = filter P (trace s)"
proof (induction "is" arbitrary: s)
  case Nil
  then show ?case by simp
next
  case (Cons i rest)
  from Cons(2) obtain c1 s1 where
    r: "runPhase ph (tab (fst (actions s ! i))) env i s = Some (c1, s1)"
    and rest: "c1 \<noteq> 0 \<and> s' = s1 \<or> phasePass ph tab env rest s1 = Some (c, s')"
    by (auto split: option.splits if_splits)
  have "filter P (trace s1) = filter P (trace s)"
    using runPhase_filter [OF assms(1) _ r] frame assms(2,3) by auto
  with rest Cons(1) show ?case by auto
qed

text \<open>A failed return inside a pass is the result of the pass.\<close>

lemma phasePass_failure:
  assumes frame: "\<And>P t g d s0 c d' s1. callFree P \<Longrightarrow> tab t = Some g \<Longrightarrow>
                    g env d s0 = Some (c, d', s1) \<Longrightarrow> filter P (trace s1) = filter P (trace s0)"
    and "r \<noteq> 0"
  shows "phasePass ph tab env is s = Some (c, s') \<Longrightarrow> Return ph k r \<in> set (trace s') \<Longrightarrow>
         Return ph k r \<in> set (trace s) \<or> r = c"
proof (induction "is" arbitrary: s)
  case Nil
  then show ?case by simp
next
  case (Cons i rest)
  let ?P = "\<lambda>e. e = Return ph k r"
  have cf: "callFree ?P" by (simp add: callFree_def)
  from Cons(2) obtain c1 s1 where
    r: "runPhase ph (tab (fst (actions s ! i))) env i s = Some (c1, s1)"
    and rest: "c1 \<noteq> 0 \<and> s' = s1 \<and> c = c1 \<or> c1 = 0 \<and> phasePass ph tab env rest s1 = Some (c, s')"
    by (auto split: option.splits if_splits)
  have f1: "filter ?P (trace s1) =
            filter ?P (trace s) @
            (if tab (fst (actions s ! i)) = None then [] else filter ?P [Invoke ph i, Return ph i c1])"
    using runPhase_filter [OF cf _ r] frame [OF cf] by blast
  have mem: "Return ph k r \<in> set (trace s1) \<Longrightarrow> Return ph k r \<in> set (trace s) \<or> r = c1"
  proof -
    assume "Return ph k r \<in> set (trace s1)"
    then have "Return ph k r \<in> set (filter ?P (trace s1))" by simp
    with f1 have "Return ph k r \<in> set (filter ?P (trace s)) \<or> r = c1"
      by (auto split: if_splits)
    then show ?thesis by auto
  qed
  from rest show ?case
  proof
    assume "c1 \<noteq> 0 \<and> s' = s1 \<and> c = c1"
    with mem Cons(3) show ?thesis by auto
  next
    assume a: "c1 = 0 \<and> phasePass ph tab env rest s1 = Some (c, s')"
    with Cons(1) [of s1] Cons(3) have "Return ph k r \<in> set (trace s1) \<or> r = c" by auto
    with mem a assms(2) show ?thesis by auto
  qed
qed

text \<open>A mark, once in the trace, stays.\<close>

lemma runPhase_keeps:
  assumes frame: "\<And>P g d s0 c d' s1. callFree P \<Longrightarrow> f = Some g \<Longrightarrow>
                    g env d s0 = Some (c, d', s1) \<Longrightarrow> filter P (trace s1) = filter P (trace s0)"
    and "callFree (\<lambda>x. x = e)"
    and "runPhase ph f env i s = Some (c, s')" and "e \<in> set (trace s)"
  shows "e \<in> set (trace s')"
proof -
  have "filter (\<lambda>x. x = e) (trace s') =
        filter (\<lambda>x. x = e) (trace s) @
        (if f = None then [] else filter (\<lambda>x. x = e) [Invoke ph i, Return ph i c])"
    using runPhase_filter [OF assms(2) _ assms(3)] frame [OF assms(2)] by blast
  moreover from assms(4) have "e \<in> set (filter (\<lambda>x. x = e) (trace s))" by simp
  ultimately have "e \<in> set (filter (\<lambda>x. x = e) (trace s'))" by simp
  then show ?thesis by simp
qed

lemma phasePass_keeps:
  assumes frame: "\<And>P t g d s0 c d' s1. callFree P \<Longrightarrow> tab t = Some g \<Longrightarrow>
                    g env d s0 = Some (c, d', s1) \<Longrightarrow> filter P (trace s1) = filter P (trace s0)"
    and "callFree (\<lambda>x. x = e)"
  shows "phasePass ph tab env is s = Some (c, s') \<Longrightarrow> e \<in> set (trace s) \<Longrightarrow> e \<in> set (trace s')"
proof (induction "is" arbitrary: s)
  case Nil
  then show ?case by simp
next
  case (Cons i rest)
  from Cons(2) obtain c1 s1 where
    r: "runPhase ph (tab (fst (actions s ! i))) env i s = Some (c1, s1)"
    and rest: "c1 \<noteq> 0 \<and> s' = s1 \<or> phasePass ph tab env rest s1 = Some (c, s')"
    by (auto split: option.splits if_splits)
  have "e \<in> set (trace s1)"
    by (rule runPhase_keeps [OF _ assms(2) r Cons(3)]) (rule frame)
  with rest Cons(1) show ?case by auto
qed

text \<open>A pass that succeeds has called every phase function there is, and each returned 0.\<close>

lemma phasePass_success:
  assumes frame: "\<And>P t g d s0 c d' s1. callFree P \<Longrightarrow> tab t = Some g \<Longrightarrow>
                    g env d s0 = Some (c, d', s1) \<Longrightarrow> filter P (trace s1) = filter P (trace s0)"
    and present: "\<And>t. tab t \<noteq> None"
  shows "phasePass ph tab env is s = Some (0, s') \<Longrightarrow> k \<in> set is \<Longrightarrow>
         Return ph k 0 \<in> set (trace s')"
proof (induction "is" arbitrary: s)
  case Nil
  then show ?case by simp
next
  case (Cons i rest)
  let ?P = "\<lambda>e. e = Return ph k 0"
  have cf: "callFree ?P" by (simp add: callFree_def)
  from Cons(2) obtain s1 where
    r: "runPhase ph (tab (fst (actions s ! i))) env i s = Some (0, s1)"
    and rest: "phasePass ph tab env rest s1 = Some (0, s')"
    by (auto split: option.splits if_splits)
  have f1: "filter ?P (trace s1) = filter ?P (trace s) @ filter ?P [Invoke ph i, Return ph i 0]"
    using runPhase_filter [OF cf _ r] frame [OF cf] present by auto
  show ?case
  proof (cases "k = i")
    case True
    with f1 have "Return ph k 0 \<in> set (filter ?P (trace s1))" by simp
    then have "Return ph k 0 \<in> set (trace s1)" by simp
    with phasePass_keeps [OF frame cf rest] show ?thesis by simp
  next
    case False
    with Cons(3) have "k \<in> set rest" by simp
    from Cons(1) [OF rest this] show ?thesis .
  qed
qed

lemma freeFunc_actions:
  "freeFunc t = Some g \<Longrightarrow> actions (g d s) = actions s"
  by (cases t) (auto simp: freeHexFileInput_def freeHexFileOutput_def split: actionData.splits)

lemma freeFunc_keeps:
  "freeFunc t = Some g \<Longrightarrow> set (trace s) \<subseteq> set (trace (g d s))"
  by (cases t) (auto simp: freeHexFileInput_def freeHexFileOutput_def split: actionData.splits)

lemma freePass_actions [simp]:
  "actions (freePass is s) = actions s"
  by (induction "is" arbitrary: s) (auto simp: freeFunc_actions split: option.splits)

lemma freePass_keeps:
  "set (trace s) \<subseteq> set (trace (freePass is s))"
proof (induction "is" arbitrary: s)
  case Nil
  show ?case by simp
next
  case (Cons i rest)
  show ?case
  proof (cases "freeFunc (fst (actions s ! i))")
    case None
    with Cons show ?thesis by simp
  next
    case (Some g)
    have "set (trace s) \<subseteq> set (trace (g (snd (actions s ! i)) (emit (Invoke Free i) s)))"
      using freeFunc_keeps [OF Some, of "emit (Invoke Free i) s"] by auto
    also have "\<dots> \<subseteq> set (trace (freePass rest (g (snd (actions s ! i)) (emit (Invoke Free i) s))))"
      by (rule Cons)
    finally show ?thesis using Some by simp
  qed
qed

lemma freePass_invokes:
  "i \<in> set is \<Longrightarrow> freeFunc (fst (actions s ! i)) \<noteq> None \<Longrightarrow>
   Invoke Free i \<in> set (trace (freePass is s))"
proof (induction "is" arbitrary: s)
  case Nil
  then show ?case by simp
next
  case (Cons j rest)
  show ?case
  proof (cases "freeFunc (fst (actions s ! j))")
    case None
    with Cons(2,3) have "i \<in> set rest" by auto
    with Cons(1) [of s] Cons(3) None show ?thesis by simp
  next
    case (Some g)
    let ?s1 = "g (snd (actions s ! j)) (emit (Invoke Free j) s)"
    have a: "actions ?s1 = actions s"
      using freeFunc_actions [OF Some] by simp
    show ?thesis
    proof (cases "i = j")
      case True
      have "Invoke Free j \<in> set (trace ?s1)"
        using freeFunc_keeps [OF Some, of "emit (Invoke Free j) s"] by auto
      with freePass_keeps [of ?s1 rest] True Some show ?thesis by auto
    next
      case False
      with Cons(2) have "i \<in> set rest" by simp
      from Cons(1) [OF this, of ?s1] Cons(3) a Some show ?thesis by simp
    qed
  qed
qed

lemma freePass_filter:
  assumes "callFree P" "\<And>i. \<not> P (Invoke Free i)"
  shows "filter P (trace (freePass is s)) = filter P (trace s)"
  by (induction "is" arbitrary: s)
     (auto simp: assms freeFunc_callFree [OF assms(1)] split: option.splits)

lemma actionsFree_filter:
  assumes "callFree P" "\<And>i. \<not> P (Invoke Free i)"
  shows "filter P (trace (actionsFree s)) = filter P (trace s)"
  by (simp add: actionsFree_def freePass_filter [OF assms])

lemma actionsFree_invokes:
  "i < length (actions s) \<Longrightarrow> freeFunc (fst (actions s ! i)) \<noteq> None \<Longrightarrow>
   Invoke Free i \<in> set (trace (actionsFree s))"
  by (simp add: actionsFree_def freePass_invokes)

lemma run_cases [consumes 1, case_names parse wait prepare execute restart]:
  assumes "run env s = Some (c, s')"
  obtains
    "parseArgs env s = Some (c, s')" "c \<noteq> 0"
  | s1 where "parseArgs env s = Some (0, s1)" "waitForBootloaderIfNeeded env s1 = Some (c, s')" "c \<noteq> 0"
  | s1 s2 where "parseArgs env s = Some (0, s1)" "waitForBootloaderIfNeeded env s1 = Some (0, s2)"
      "actionsPrepare env s2 = Some (c, s')" "c \<noteq> 0"
  | s1 s2 s3 where "parseArgs env s = Some (0, s1)" "waitForBootloaderIfNeeded env s1 = Some (0, s2)"
      "actionsPrepare env s2 = Some (0, s3)" "actionsExecute env s3 = Some (c, s')" "c \<noteq> 0"
  | s1 s2 s3 s4 where "parseArgs env s = Some (0, s1)" "waitForBootloaderIfNeeded env s1 = Some (0, s2)"
      "actionsPrepare env s2 = Some (0, s3)" "actionsExecute env s3 = Some (0, s4)"
      "restartBootloaderIfNeeded env s4 = (c, s')"
  using assms
  by (auto simp: run_def split: option.splits prod.splits if_splits)

section \<open>Selecting the bootloader\<close>

text \<open>
  C2. When a handle is required and none is cached, \<open>bootloaderHandleRequire\<close> asks for
  the (possibly filtered) list and decides by its size. With no entry it returns
  \<open>ERROR_BOOTLOADER_NOT_FOUND\<close>. With exactly one entry it opens that device: when the
  open succeeds the handle is cached and the result is 0, and when the device's info can
  be read the calls made are exactly the open, the info query and the two \<open>info\<close> lines
  with the name and the serial number. With more than one entry it returns
  \<open>ERROR_OPERATION_FAILED\<close>, caches no handle and makes no call but the \<open>error\<close> message.
\<close>

theorem bootloaderHandleRequire_selects:
  assumes "bootloaderHandle s = None"
    and "bootloaderListRequire env s = (0, s1)"
  shows
    "(ploaderListSize (bootloaderList s1) = 0 \<longrightarrow>
        fst (bootloaderHandleRequire env s) = ERROR_BOOTLOADER_NOT_FOUND env \<and>
        bootloaderHandle (snd (bootloaderHandleRequire env s)) = None) \<and>
     (\<forall>d. bootloaderList s1 = Some [d] \<and> ploaderOpenFromList env (trace s1) d = 0 \<longrightarrow>
        fst (bootloaderHandleRequire env s) = 0 \<and>
        bootloaderHandle (snd (bootloaderHandleRequire env s)) = Some d \<and>
        (\<forall>pinfo. ploaderCreateInfo env (trace s1 @ [Dev (OpenFromList d)]) (Some d) = (0, pinfo) \<longrightarrow>
           trace (snd (bootloaderHandleRequire env s)) =
             trace s1 @ [Dev (OpenFromList d), Dev (CreateInfo (Some d)),
                         Msg InfoMsg ''Bootloader:    %s'' [name pinfo],
                         Msg InfoMsg ''Serial number: %s'' [serialNumber pinfo]])) \<and>
     (ploaderListSize (bootloaderList s1) > 1 \<longrightarrow>
        fst (bootloaderHandleRequire env s) = ERROR_OPERATION_FAILED env \<and>
        bootloaderHandle (snd (bootloaderHandleRequire env s)) = None \<and>
        trace (snd (bootloaderHandleRequire env s)) =
          trace s1 @ [Msg ErrorMsg multipleBootloadersMessage []])"
proof -
  have h1: "bootloaderHandle s1 = None"
    using assms
    by (auto simp: bootloaderListRequire_def Let_def split: if_splits prod.splits option.splits)
  show ?thesis
    using assms h1
    by (auto simp: bootloaderHandleRequire_def bootloaderNotFoundError_def printBootloaderInfo_def
          ploaderListSize_def listEntries_def Let_def split: option.splits prod.splits)
qed

theorem bootloaderHandleRequire_selects_witness:
  "fst (bootloaderHandleRequire (connected [] quietEnv) initialState) = 3 \<and>
   fst (bootloaderHandleRequire (connected [7] quietEnv) initialState) = 0 \<and>
   bootloaderHandle (snd (bootloaderHandleRequire (connected [7] quietEnv) initialState)) = Some 7 \<and>
   trace (snd (bootloaderHandleRequire (connected [7] quietEnv) initialState)) =
     [Dev ListCreate, Dev (OpenFromList 7), Dev (CreateInfo (Some 7)),
      Msg InfoMsg ''Bootloader:    %s'' [''P-Star 25K50''],
      Msg InfoMsg ''Serial number: %s'' [''00123456'']] \<and>
   fst (bootloaderHandleRequire (connected [7, 8] quietEnv) initialState) = 2 \<and>
   bootloaderHandle (snd (bootloaderHandleRequire (connected [7, 8] quietEnv) initialState)) = None"
proof -
  have h: "bootloaderHandle initialState = None"
    by simp
  have zero: "ploaderListSize (bootloaderList (discovered [])) = 0"
    and two: "ploaderListSize (bootloaderList (discovered [7, 8])) > 1"
    by (simp_all add: ploaderListSize_def listEntries_def)
  have one: "bootloaderList (discovered [7]) = Some [7] \<and>
             ploaderOpenFromList (connected [7] quietEnv) (trace (discovered [7])) 7 = 0"
    and pinfo: "ploaderCreateInfo (connected [7] quietEnv)
                  (trace (discovered [7]) @ [Dev (OpenFromList 7)]) (Some 7) = (0, info0)"
    by (simp_all add: connected_def)
  note t0 = bootloaderHandleRequire_selects [OF h bootloaderListRequire_connected [of "[]"]]
  note t1 = bootloaderHandleRequire_selects [OF h bootloaderListRequire_connected [of "[7]"]]
  note t2 = bootloaderHandleRequire_selects [OF h bootloaderListRequire_connected [of "[7, 8]"]]
  from t0 zero have r0: "fst (bootloaderHandleRequire (connected [] quietEnv) initialState) = 3"
    by (simp add: connected_def)
  from t1 one pinfo have r1:
    "fst (bootloaderHandleRequire (connected [7] quietEnv) initialState) = 0 \<and>
     bootloaderHandle (snd (bootloaderHandleRequire (connected [7] quietEnv) initialState)) = Some 7 \<and>
     trace (snd (bootloaderHandleRequire (connected [7] quietEnv) initialState)) =
       [Dev ListCreate, Dev (OpenFromList 7), Dev (CreateInfo (Some 7)),
        Msg InfoMsg ''Bootloader:    %s'' [''P-Star 25K50''],
        Msg InfoMsg ''Serial number: %s'' [''00123456'']]"
    by (simp add: info0_def)
  from t2 two have r2:
    "fst (bootloaderHandleRequire (connected [7, 8] quietEnv) initialState) = 2 \<and>
     bootloaderHandle (snd (bootloaderHandleRequire (connected [7, 8] quietEnv) initialState)) = None"
    by (simp add: connected_def)
  from r0 r1 r2 show ?thesis by simp
qed

section \<open>Listing the connected bootloaders\<close>

text \<open>
  C5, as the code has it. The first call of \<open>listConnectedBootloaders\<close> closes the cached
  handle, and the handle is null when the action returns. The action discovers the
  devices only when no list is cached: then the discovery is its next call. A list that
  an earlier step has cached (the wait loop, or an action that required a handle) is
  used as it is, with no discovery.
\<close>

theorem listConnectedBootloaders_discovery:
  "\<exists>evs. trace (snd (listConnectedBootloaders env s)) =
            trace s @ Dev (Close (bootloaderHandle s)) # evs \<and>
         bootloaderHandle (snd (listConnectedBootloaders env s)) = None \<and>
         (bootloaderList s = None \<longrightarrow> take 1 evs = [Dev ListCreate]) \<and>
         (bootloaderList s \<noteq> None \<longrightarrow>
            Dev ListCreate \<notin> set evs \<and>
            bootloaderList (snd (listConnectedBootloaders env s)) = bootloaderList s)"
proof -
  define s1 where "s1 = (emit (Dev (Close (bootloaderHandle s))) s)\<lparr>bootloaderHandle := None\<rparr>"
  define s2 where "s2 = snd (bootloaderListRequire env s1)"
  define s3 where "s3 = snd (listLoop env 0 (ploaderListSize (bootloaderList s2)) s2)"
  define s' where "s' = snd (listConnectedBootloaders env s)"
  have t1: "trace s1 = trace s @ [Dev (Close (bootloaderHandle s))]"
    and l1: "bootloaderList s1 = bootloaderList s"
    by (simp_all add: s1_def)
  have p12: "prefix (trace s1) (trace s2)"
    unfolding s2_def by (rule bootloaderListRequire_prefix)
  have p23: "prefix (trace s2) (trace s3)"
    unfolding s3_def by (rule listLoop_prefix)
  have cases: "s' = s2 \<or> s' = s3 \<or> s' = snd (bootloaderNotFoundInfo env s3)"
    by (simp add: s'_def listConnectedBootloaders_def Let_def split_beta s1_def s2_def s3_def
          split: option.splits)
  have p3: "prefix (trace s3) (trace (snd (bootloaderNotFoundInfo env s3)))"
    by (simp add: bootloaderNotFoundInfo_def prefix_def split: option.splits)
  have p2': "prefix (trace s2) (trace s')"
    using cases p23 p3 by (auto intro: prefix_order.trans)
  then have p1': "prefix (trace s1) (trace s')"
    using p12 by (rule prefix_order.trans [rotated])
  then obtain evs where evs: "trace s' = trace s @ Dev (Close (bootloaderHandle s)) # evs"
    by (auto simp: prefix_def t1)
  have h: "bootloaderHandle s' = None"
    using cases
    by (auto simp: s3_def s2_def s1_def bootloaderNotFoundInfo_def split: option.splits)
  have fresh: "take 1 evs = [Dev ListCreate]" if "bootloaderList s = None"
  proof -
    from that have "prefix (trace s1 @ [Dev ListCreate]) (trace s2)"
      unfolding s2_def using l1 by (intro bootloaderListRequire_fresh) simp
    with p2' have "prefix (trace s1 @ [Dev ListCreate]) (trace s')"
      by (auto intro: prefix_order.trans)
    with evs show ?thesis
      by (auto simp: prefix_def t1)
  qed
  have cached: "Dev ListCreate \<notin> set evs \<and> bootloaderList s' = bootloaderList s"
    if "bootloaderList s \<noteq> None"
  proof -
    from that have e2: "s2 = s1"
      by (simp add: s2_def bootloaderListRequire_cached l1)
    let ?P = "\<lambda>e. e = Dev ListCreate"
    have "filter ?P (trace s3) = filter ?P (trace s1)"
      unfolding s3_def e2 by (rule listLoop_frame) simp_all
    moreover have "filter ?P (trace (snd (bootloaderNotFoundInfo env s3))) = filter ?P (trace s3)"
      by (simp add: bootloaderNotFoundInfo_def split: option.splits)
    ultimately have "filter ?P (trace s') = filter ?P (trace s1)"
      using cases e2 by auto
    then have "filter ?P evs = []"
      by (simp add: evs t1)
    then have "Dev ListCreate \<notin> set evs"
      by (auto simp: filter_empty_conv)
    moreover have "bootloaderList s' = bootloaderList s"
      using cases e2 l1
      by (auto simp: s3_def bootloaderNotFoundInfo_def split: option.splits)
    ultimately show ?thesis by simp
  qed
  have "trace s' = trace s @ Dev (Close (bootloaderHandle s)) # evs \<and>
        bootloaderHandle s' = None \<and>
        (bootloaderList s = None \<longrightarrow> take 1 evs = [Dev ListCreate]) \<and>
        (bootloaderList s \<noteq> None \<longrightarrow>
           Dev ListCreate \<notin> set evs \<and> bootloaderList s' = bootloaderList s)"
    using evs h fresh cached by simp
  then show ?thesis
    unfolding s'_def by (rule exI)
qed

theorem listConnectedBootloaders_discovery_witness:
  "(\<exists>evs. trace (snd (listConnectedBootloaders (connected [7] quietEnv) initialState)) =
            Dev (Close None) # evs \<and> take 1 evs = [Dev ListCreate]) \<and>
   (\<exists>evs. trace (snd (listConnectedBootloaders (connected [7] quietEnv) (discovered [7]))) =
            [Dev ListCreate, Dev (Close None)] @ evs \<and> Dev ListCreate \<notin> set evs)"
  using listConnectedBootloaders_discovery [of "connected [7] quietEnv" initialState]
    listConnectedBootloaders_discovery [of "connected [7] quietEnv" "discovered [7]"]
  by auto

text \<open>
  C5, as the spec has it, fails: on \<open>p-load --wait --list\<close> with one bootloader connected
  the wait loop discovers the device and leaves the list cached, and the list action
  (between \<open>Invoke Execute 0\<close> and \<open>Return Execute 0 0\<close>) enumerates that list with no
  discovery of its own.
\<close>

theorem list_reuses_cached_list_counterexample:
  "map_option (\<lambda>(c, s). (c, trace s))
     (main (connected [7] quietEnv) [''p-load'', ''--wait'', ''--list'']) =
   Some (0, [Dev ListCreate, Invoke Execute 0, Dev (Close None), Dev (ListCreateInfo 7),
             Dev (OpenFromList 7), Dev (CheckApplication 7), Dev (Close (Some 7)),
             Msg Stdout ''%-11s  %-40s %-15s\<newline>''
               [''00123456'', ''P-Star 25K50'', ''App present''],
             Return Execute 0 0, Dev (Close None), Dev ListFree])"
  by code_simp

section \<open>The two passes\<close>

lemma argReaderInit_trace [simp]:
  "trace (argReaderInit argv s) = trace s"
  by (simp add: argReaderInit_def)

text \<open>
  C1. Take a run of the program on a command line (\<open>run\<close> on the arguments of \<open>main\<close>) in
  which the prepare phase of the action at index \<open>k\<close> has returned a code \<open>r\<close> other than
  0. Then \<open>main\<close> returns \<open>r\<close>, the execute phase of no action has been invoked, and the
  release function of every queued action that has one (every action that allocated
  private state has one) has been invoked by the time \<open>main\<close> returns. The queue may
  hold any number of actions.
\<close>

theorem prepare_failure_stops_pipeline:
  assumes run: "run env (argReaderInit argv initialState) = Some (c, s1)"
    and failed: "Return Prepare k r \<in> set (trace s1)" "r \<noteq> 0"
    and argc: "1 < length argv"
  shows "\<exists>s'. main env argv = Some (r, s') \<and>
              (\<forall>i. Invoke Execute i \<notin> set (trace s')) \<and>
              (\<forall>i < length (actions s1). freeFunc (fst (actions s1 ! i)) \<noteq> None \<longrightarrow>
                 Invoke Free i \<in> set (trace s'))"
proof -
  let ?s0 = "argReaderInit argv initialState"
  let ?R = "\<lambda>e. e = Return Prepare k r"
  let ?X = "\<lambda>e. \<exists>i. e = Invoke Execute i"
  have cfR: "callFree ?R" and cfX: "callFree ?X"
    by (simp_all add: callFree_def)
  have t0: "trace ?s0 = []" by simp
  have inR: "filter ?R (trace s1) \<noteq> []"
    using failed(1) by (auto simp: filter_empty_conv)
  have stop: "c = r \<and> filter ?X (trace s1) = []"
    using run
  proof (cases rule: run_cases)
    case parse
    from parseArgs_filter [OF cfR _ _ _ _ parse(1)] t0 inR show ?thesis by simp
  next
    case (wait sa)
    from parseArgs_filter [OF cfR _ _ _ _ wait(1)] waitForBootloaderIfNeeded_callFree [OF wait(2) cfR]
      t0 inR show ?thesis by simp
  next
    case (prepare sa sb)
    have "filter ?X (trace sa) = []"
      using parseArgs_filter [OF cfX _ _ _ _ prepare(1)] t0 by simp
    then have "filter ?X (trace sb) = []"
      using waitForBootloaderIfNeeded_callFree [OF prepare(2) cfX] by simp
    then have x: "filter ?X (trace s1) = []"
      using phasePass_filter [OF cfX _ _ _ prepare(3) [unfolded actionsPrepare_def]]
        prepare_callFree [OF cfX] by simp
    have "filter ?R (trace sb) = []"
      using parseArgs_filter [OF cfR _ _ _ _ prepare(1)]
        waitForBootloaderIfNeeded_callFree [OF prepare(2) cfR] t0 by simp
    then have "Return Prepare k r \<notin> set (trace sb)"
      by (auto simp: filter_empty_conv)
    with phasePass_failure [OF _ failed(2) prepare(3) [unfolded actionsPrepare_def] failed(1)]
      prepare_callFree
    have "r = c" by blast
    with x show ?thesis by simp
  next
    case (execute sa sb sc)
    have "filter ?R (trace sb) = []"
      using parseArgs_filter [OF cfR _ _ _ _ execute(1)]
        waitForBootloaderIfNeeded_callFree [OF execute(2) cfR] t0 by simp
    then have nb: "Return Prepare k r \<notin> set (trace sb)"
      by (auto simp: filter_empty_conv)
    have "filter ?R (trace s1) = filter ?R (trace sc)"
      using phasePass_filter [OF cfR _ _ _ execute(4) [unfolded actionsExecute_def]]
        execute_callFree [OF cfR] by simp
    with inR have "Return Prepare k r \<in> set (trace sc)"
      by (auto simp: filter_empty_conv dest!: arg_cong [where f = set])
    with phasePass_failure [OF _ failed(2) execute(3) [unfolded actionsPrepare_def]]
      prepare_callFree nb failed(2)
    show ?thesis by blast
  next
    case (restart sa sb sc sd)
    have "filter ?R (trace sb) = []"
      using parseArgs_filter [OF cfR _ _ _ _ restart(1)]
        waitForBootloaderIfNeeded_callFree [OF restart(2) cfR] t0 by simp
    then have nb: "Return Prepare k r \<notin> set (trace sb)"
      by (auto simp: filter_empty_conv)
    have "filter ?R (trace sd) = filter ?R (trace sc)"
      using phasePass_filter [OF cfR _ _ _ restart(4) [unfolded actionsExecute_def]]
        execute_callFree [OF cfR] by simp
    moreover have "filter ?R (trace s1) = filter ?R (trace sd)"
      using restartBootloaderIfNeeded_callFree [OF cfR, of env sd] restart(5) by simp
    ultimately have "Return Prepare k r \<in> set (trace sc)"
      using inR by (auto simp: filter_empty_conv dest!: arg_cong [where f = set])
    with phasePass_failure [OF _ failed(2) restart(3) [unfolded actionsPrepare_def]]
      prepare_callFree nb failed(2)
    show ?thesis by blast
  qed
  define s' where "s' = emit (Dev ListFree)
      (emit (Dev (Close (bootloaderHandle (actionsFree s1)))) (actionsFree s1))"
  have m: "main env argv = Some (r, s')"
    using run argc stop by (simp add: main_def s'_def Let_def)
  have "filter ?X (trace s') = []"
    using stop actionsFree_filter [OF cfX, of s1] by (simp add: s'_def)
  then have x: "\<forall>i. Invoke Execute i \<notin> set (trace s')"
    by (auto simp: filter_empty_conv)
  have f: "Invoke Free i \<in> set (trace s')"
    if "i < length (actions s1)" "freeFunc (fst (actions s1 ! i)) \<noteq> None" for i
    using actionsFree_invokes [OF that] by (simp add: s'_def)
  from m x f show ?thesis by blast
qed


theorem prepare_failure_stops_pipeline_witness:
  "(case main quietEnv [''p-load'', ''--list-supported'', ''--erase''] of
      None \<Rightarrow> False
    | Some (c, s') \<Rightarrow>
        c = 3 \<and> Invoke Execute 0 \<notin> set (trace s') \<and> Invoke Execute 1 \<notin> set (trace s') \<and>
        Invoke Free 1 \<in> set (trace s'))"
proof -
  let ?argv = "[''p-load'', ''--list-supported'', ''--erase'']"
  have "case run quietEnv (argReaderInit ?argv initialState) of
          None \<Rightarrow> False
        | Some (c, s1) \<Rightarrow>
            c = 3 \<and> Return Prepare 1 3 \<in> set (trace s1) \<and> length (actions s1) = 2 \<and>
            fst (actions s1 ! 1) = actEraseFlashAndEeprom"
    by code_simp
  then obtain s1 where run: "run quietEnv (argReaderInit ?argv initialState) = Some (3, s1)"
    and failed: "Return Prepare 1 3 \<in> set (trace s1)"
    and queue: "length (actions s1) = 2" "fst (actions s1 ! 1) = actEraseFlashAndEeprom"
    by (auto split: option.splits)
  have "(1 :: nat) < length ?argv" by simp
  from prepare_failure_stops_pipeline [OF run failed _ this]
  obtain s' where "main quietEnv ?argv = Some (3, s')"
    and "\<forall>i. Invoke Execute i \<notin> set (trace s')"
    and "\<forall>i < length (actions s1). freeFunc (fst (actions s1 ! i)) \<noteq> None \<longrightarrow>
           Invoke Free i \<in> set (trace s')"
    by auto
  with queue show ?thesis by auto
qed

section \<open>Listing when nothing is connected\<close>

lemma bootloaderListRequire_serial [simp]:
  "desiredSerialNumber (snd (bootloaderListRequire env s)) = desiredSerialNumber s"
  by (simp add: bootloaderListRequire_def Let_def split_beta split: option.splits)

lemma listLoop_nothing [simp]:
  "listLoop env i 0 s = (None, s)"
  by (subst listLoop.simps) simp

lemma run_failed_execute:
  assumes run: "run env s0 = Some (c, s1)"
    and t0: "trace s0 = []"
    and failed: "Return Execute i r \<in> set (trace s1)" "r \<noteq> 0"
  shows "c = r"
proof -
  let ?R = "\<lambda>e. e = Return Execute i r"
  have cfR: "callFree ?R"
    by (simp add: callFree_def)
  have inR: "filter ?R (trace s1) \<noteq> []"
    using failed(1) by (auto simp: filter_empty_conv)
  from run show ?thesis
  proof (cases rule: run_cases)
    case parse
    from parseArgs_filter [OF cfR _ _ _ _ parse(1)] t0 inR show ?thesis by simp
  next
    case (wait sa)
    from parseArgs_filter [OF cfR _ _ _ _ wait(1)] waitForBootloaderIfNeeded_callFree [OF wait(2) cfR]
      t0 inR show ?thesis by simp
  next
    case (prepare sa sb)
    have "filter ?R (trace sb) = []"
      using parseArgs_filter [OF cfR _ _ _ _ prepare(1)]
        waitForBootloaderIfNeeded_callFree [OF prepare(2) cfR] t0 by simp
    then have "filter ?R (trace s1) = []"
      using phasePass_filter [OF cfR _ _ _ prepare(3) [unfolded actionsPrepare_def]]
        prepare_callFree [OF cfR] by simp
    with inR show ?thesis by simp
  next
    case (execute sa sb sc)
    have "filter ?R (trace sb) = []"
      using parseArgs_filter [OF cfR _ _ _ _ execute(1)]
        waitForBootloaderIfNeeded_callFree [OF execute(2) cfR] t0 by simp
    then have "filter ?R (trace sc) = []"
      using phasePass_filter [OF cfR _ _ _ execute(3) [unfolded actionsPrepare_def]]
        prepare_callFree [OF cfR] by simp
    then have "Return Execute i r \<notin> set (trace sc)"
      by (auto simp: filter_empty_conv)
    with phasePass_failure [OF _ failed(2) execute(4) [unfolded actionsExecute_def] failed(1)]
      execute_callFree
    show ?thesis by blast
  next
    case (restart sa sb sc sd)
    have "filter ?R (trace sb) = []"
      using parseArgs_filter [OF cfR _ _ _ _ restart(1)]
        waitForBootloaderIfNeeded_callFree [OF restart(2) cfR] t0 by simp
    then have "filter ?R (trace sc) = []"
      using phasePass_filter [OF cfR _ _ _ restart(3) [unfolded actionsPrepare_def]]
        prepare_callFree [OF cfR] by simp
    then have nc: "Return Execute i r \<notin> set (trace sc)"
      by (auto simp: filter_empty_conv)
    have "filter ?R (trace s1) = filter ?R (trace sd)"
      using restartBootloaderIfNeeded_callFree [OF cfR, of env sd] restart(5) by simp
    with inR have "Return Execute i r \<in> set (trace sd)"
      by (auto simp: filter_empty_conv dest!: arg_cong [where f = set])
    with phasePass_failure [OF _ failed(2) restart(4) [unfolded actionsExecute_def]]
      execute_callFree nc failed(2)
    show ?thesis by blast
  qed
qed

lemma main_failed_execute:
  assumes "main env argv = Some (c, s')" "Return Execute i r \<in> set (trace s')" "r \<noteq> 0"
  shows "c = r"
proof (cases "length argv \<le> 1")
  case True
  with assms(1,2) show ?thesis
    by (auto simp: main_def)
next
  case False
  with assms(1) obtain s1 where run: "run env (argReaderInit argv initialState) = Some (c, s1)"
    and s': "s' = emit (Dev ListFree)
               (emit (Dev (Close (bootloaderHandle (actionsFree s1)))) (actionsFree s1))"
    by (auto simp: main_def Let_def split: option.splits)
  let ?R = "\<lambda>e. e = Return Execute i r"
  have cfR: "callFree ?R"
    by (simp add: callFree_def)
  have "filter ?R (trace s') = filter ?R (trace s1)"
    using actionsFree_filter [OF cfR, of s1] by (simp add: s')
  moreover have "filter ?R (trace s') \<noteq> []"
    using assms(2) by (auto simp: filter_empty_conv)
  ultimately have "Return Execute i r \<in> set (trace s1)"
    by (auto simp: filter_empty_conv dest!: arg_cong [where f = set])
  from run_failed_execute [OF run _ this assms(3)] show ?thesis by simp
qed

text \<open>
  C7. When \<open>listConnectedBootloaders\<close> finds the (possibly filtered) list empty, it
  returns \<open>ERROR_BOOTLOADER_NOT_FOUND\<close>; the one line it writes goes through \<open>info()\<close>, and
  it adds no line written through \<open>error()\<close>. And whenever the execute phase of an action
  returns a code other than 0, that code is what \<open>main\<close> returns: so the exit code of the
  process is \<open>ERROR_BOOTLOADER_NOT_FOUND\<close> (which is not 0 in the program's header).
\<close>

theorem list_nothing_found:
  "(\<forall>s s2.
      bootloaderListRequire env ((emit (Dev (Close (bootloaderHandle s))) s)\<lparr>bootloaderHandle := None\<rparr>)
        = (0, s2) \<and>
      ploaderListSize (bootloaderList s2) = 0 \<longrightarrow>
      fst (listConnectedBootloaders env s) = ERROR_BOOTLOADER_NOT_FOUND env \<and>
      trace (snd (listConnectedBootloaders env s)) =
        trace s2 @ [notFoundMessage (desiredSerialNumber s)] \<and>
      filter (\<lambda>e. \<exists>f a. e = Msg ErrorMsg f a) (trace (snd (listConnectedBootloaders env s))) =
        filter (\<lambda>e. \<exists>f a. e = Msg ErrorMsg f a) (trace s)) \<and>
   (\<forall>argv c s' i r.
      main env argv = Some (c, s') \<and> Return Execute i r \<in> set (trace s') \<and> r \<noteq> 0 \<longrightarrow> c = r)"
proof (intro conjI allI impI)
  fix s s2
  let ?s1 = "(emit (Dev (Close (bootloaderHandle s))) s)\<lparr>bootloaderHandle := None\<rparr>"
  let ?E = "\<lambda>e. \<exists>f a. e = Msg ErrorMsg f a"
  assume a: "bootloaderListRequire env ?s1 = (0, s2) \<and> ploaderListSize (bootloaderList s2) = 0"
  then have s2: "s2 = snd (bootloaderListRequire env ?s1)" by simp
  have sn: "desiredSerialNumber s2 = desiredSerialNumber s"
    unfolding s2 by simp
  have e: "filter ?E (trace s2) = filter ?E (trace s)"
    unfolding s2 by (subst bootloaderListRequire_frame) simp_all
  from a sn show "fst (listConnectedBootloaders env s) = ERROR_BOOTLOADER_NOT_FOUND env"
    by (simp add: listConnectedBootloaders_def Let_def bootloaderNotFoundInfo_def split: option.splits)
  from a sn show "trace (snd (listConnectedBootloaders env s)) =
      trace s2 @ [notFoundMessage (desiredSerialNumber s)]"
    by (simp add: listConnectedBootloaders_def Let_def bootloaderNotFoundInfo_def
          notFoundMessage_def split: option.splits)
  from a sn e show "filter ?E (trace (snd (listConnectedBootloaders env s))) = filter ?E (trace s)"
    by (simp add: listConnectedBootloaders_def Let_def bootloaderNotFoundInfo_def split: option.splits)
next
  fix argv c s' i r
  assume "main env argv = Some (c, s') \<and> Return Execute i r \<in> set (trace s') \<and> r \<noteq> 0"
  then show "c = r"
    using main_failed_execute by blast
qed

theorem list_nothing_found_witness:
  "fst (listConnectedBootloaders quietEnv initialState) = 3 \<and>
   trace (snd (listConnectedBootloaders quietEnv initialState)) =
     [Dev (Close None), Dev ListCreate, Msg InfoMsg ''No bootloader found.'' []] \<and>
   map_option fst (main quietEnv [''p-load'', ''--list'']) = Some 3"
proof -
  let ?s1 = "(emit (Dev (Close (bootloaderHandle initialState))) initialState)\<lparr>bootloaderHandle := None\<rparr>"
  let ?s2 = "(emit (Dev ListCreate) ?s1)\<lparr>bootloaderList := Some []\<rparr>"
  have a: "bootloaderListRequire quietEnv ?s1 = (0, ?s2) \<and> ploaderListSize (bootloaderList ?s2) = 0"
    by (simp add: bootloaderListRequire_def ploaderListSize_def listEntries_def)
  have "case main quietEnv [''p-load'', ''--list''] of
          None \<Rightarrow> False
        | Some (c, s') \<Rightarrow> Return Execute 0 3 \<in> set (trace s')"
    by code_simp
  then obtain c s' where m: "main quietEnv [''p-load'', ''--list''] = Some (c, s')"
    and r: "Return Execute 0 3 \<in> set (trace s')"
    by (auto split: option.splits)
  note t = list_nothing_found [of quietEnv]
  from t a have
    "fst (listConnectedBootloaders quietEnv initialState) = ERROR_BOOTLOADER_NOT_FOUND quietEnv \<and>
     trace (snd (listConnectedBootloaders quietEnv initialState)) =
       trace ?s2 @ [notFoundMessage (desiredSerialNumber initialState)]"
    by blast
  moreover from t m r have "c = 3"
    by (metis zero_neq_numeral)
  ultimately show ?thesis
    using m by (simp add: notFoundMessage_def)
qed

section \<open>Listing bootloaders that do not answer\<close>

lemma prefix_set: "prefix xs ys \<Longrightarrow> set xs \<subseteq> set ys"
  by (auto simp: prefix_def)

lemma listLoop_completes:
  assumes "\<forall>h d. fst (ploaderListCreateInfo env h d) = 0"
  shows "fst (listLoop env i n s) = None"
proof (induction "n - i" arbitrary: i s)
  case 0
  then show ?case by (subst listLoop.simps) simp
next
  case (Suc k)
  then have k: "k = n - Suc i" by simp
  show ?case
    by (subst listLoop.simps) (simp add: Let_def split_beta Suc(1) [OF k] assms)
qed

lemma listLoop_lines:
  assumes ok: "\<forall>h d. fst (ploaderListCreateInfo env h d) = 0"
  shows "i \<le> j \<Longrightarrow> j < n \<Longrightarrow>
         \<exists>sj. listedLine env (bootloaderList s) j sj \<in> set (trace (snd (listLoop env i n s)))"
proof (induction "n - i" arbitrary: i s)
  case 0
  then show ?case by simp
next
  case (Suc k)
  then have k: "k = n - Suc i" and lt: "i < n" by simp_all
  define d where "d = listEntries (bootloaderList s) ! i"
  define usbInfo where "usbInfo = snd (ploaderListCreateInfo env (trace s) d)"
  define g where "g = getStatus env (bootloaderList s) i (emit (Dev (ListCreateInfo d)) s)"
  define s3 where
    "s3 = printf ''%-11s  %-40s %-15s\<newline>'' [serialNumber usbInfo, name usbInfo, fst g] (snd g)"
  have step: "listLoop env i n s = listLoop env (Suc i) n s3"
    using lt ok
    by (subst listLoop.simps) (simp add: Let_def split_beta s3_def g_def usbInfo_def d_def)
  have l3: "bootloaderList s3 = bootloaderList s"
    by (simp add: s3_def g_def)
  have line: "listedLine env (bootloaderList s) i s \<in> set (trace s3)"
    by (simp add: listedLine_def Let_def s3_def g_def usbInfo_def d_def)
  have keep: "set (trace s3) \<subseteq> set (trace (snd (listLoop env (Suc i) n s3)))"
    by (rule prefix_set [OF listLoop_prefix])
  show ?case
  proof (cases "j = i")
    case True
    from line keep have "listedLine env (bootloaderList s) j s \<in> set (trace (snd (listLoop env i n s)))"
      unfolding step True by blast
    then show ?thesis by (rule exI)
  next
    case False
    with Suc(3) have "Suc i \<le> j" by simp
    from Suc(1) [OF k this Suc(4), of s3] show ?thesis
      unfolding step l3 .
  qed
qed

text \<open>
  C9. Let the info of every entry of the list be there for the asking
  (\<open>ploaderListCreateInfo\<close> succeeds), and let the list hold at least one entry. Then
  \<open>listConnectedBootloaders\<close> returns 0 and prints a line for every entry of the list,
  with the status \<open>getStatus\<close> returns for it, whether or not the device can be opened or
  asked for its application. And \<open>getStatus\<close> returns \<open>?\<close> when the open fails, after a
  warning on \<open>stderr\<close>, and when the open succeeds and the query fails, after a warning
  on \<open>stderr\<close> and having closed the device: it has no way to fail.
\<close>

theorem list_tolerates_failed_status:
  assumes info_ok: "\<forall>h d. fst (ploaderListCreateInfo env h d) = 0"
    and listed: "bootloaderListRequire env
                   ((emit (Dev (Close (bootloaderHandle s))) s)\<lparr>bootloaderHandle := None\<rparr>) = (0, s2)"
    and some: "0 < ploaderListSize (bootloaderList s2)"
  shows
    "fst (listConnectedBootloaders env s) = 0 \<and>
     (\<forall>j < ploaderListSize (bootloaderList s2).
        \<exists>sj. listedLine env (bootloaderList s2) j sj \<in> set (trace (snd (listConnectedBootloaders env s)))) \<and>
     (\<forall>l i t. ploaderOpenFromList env (trace t) (listEntries l ! i) \<noteq> 0 \<longrightarrow>
        fst (getStatus env l i t) = ''?'' \<and>
        trace (snd (getStatus env l i t)) =
          trace t @ [Dev (OpenFromList (listEntries l ! i)),
                     Msg Stderr ''Warning: Unable to connect to bootloader.\<newline>'' []]) \<and>
     (\<forall>l i t. ploaderOpenFromList env (trace t) (listEntries l ! i) = 0 \<and>
        fst (ploaderCheckApplication env (trace t @ [Dev (OpenFromList (listEntries l ! i))])
               (listEntries l ! i)) \<noteq> 0 \<longrightarrow>
        fst (getStatus env l i t) = ''?'' \<and>
        trace (snd (getStatus env l i t)) =
          trace t @ [Dev (OpenFromList (listEntries l ! i)),
                     Dev (CheckApplication (listEntries l ! i)),
                     Msg Stderr ''Warning: Unable to check application.\<newline>'' [],
                     Dev (Close (Some (listEntries l ! i)))])"
proof -
  let ?n = "ploaderListSize (bootloaderList s2)"
  have run: "listConnectedBootloaders env s = (0, snd (listLoop env 0 ?n s2))"
    using listed some listLoop_completes [OF info_ok, of 0 ?n s2]
    by (simp add: listConnectedBootloaders_def Let_def split_beta split: option.splits)
  have lines: "\<exists>sj. listedLine env (bootloaderList s2) j sj \<in> set (trace (snd (listLoop env 0 ?n s2)))"
    if "j < ?n" for j
    using listLoop_lines [OF info_ok _ that, of 0 s2] by simp
  have g1: "fst (getStatus env l i t) = ''?'' \<and>
        trace (snd (getStatus env l i t)) =
          trace t @ [Dev (OpenFromList (listEntries l ! i)),
                     Msg Stderr ''Warning: Unable to connect to bootloader.\<newline>'' []]"
    if "ploaderOpenFromList env (trace t) (listEntries l ! i) \<noteq> 0" for l i t
    using that by (simp add: getStatus_def Let_def)
  have g2: "fst (getStatus env l i t) = ''?'' \<and>
        trace (snd (getStatus env l i t)) =
          trace t @ [Dev (OpenFromList (listEntries l ! i)),
                     Dev (CheckApplication (listEntries l ! i)),
                     Msg Stderr ''Warning: Unable to check application.\<newline>'' [],
                     Dev (Close (Some (listEntries l ! i)))]"
    if "ploaderOpenFromList env (trace t) (listEntries l ! i) = 0 \<and>
        fst (ploaderCheckApplication env (trace t @ [Dev (OpenFromList (listEntries l ! i))])
               (listEntries l ! i)) \<noteq> 0" for l i t
    using that by (simp add: getStatus_def Let_def split_beta)
  from run lines g1 g2 show ?thesis
    by simp
qed

theorem list_tolerates_failed_status_witness:
  "fst (listConnectedBootloaders flakyEnv initialState) = 0 \<and>
   trace (snd (listConnectedBootloaders flakyEnv initialState)) =
     [Dev (Close None), Dev ListCreate,
      Dev (ListCreateInfo 7), Dev (OpenFromList 7),
      Msg Stderr ''Warning: Unable to connect to bootloader.\<newline>'' [],
      Msg Stdout ''%-11s  %-40s %-15s\<newline>'' [''00123456'', ''P-Star 25K50'', ''?''],
      Dev (ListCreateInfo 8), Dev (OpenFromList 8), Dev (CheckApplication 8), Dev (Close (Some 8)),
      Msg Stdout ''%-11s  %-40s %-15s\<newline>'' [''00123456'', ''P-Star 25K50'', ''App present''],
      Dev (ListCreateInfo 9), Dev (OpenFromList 9), Dev (CheckApplication 9),
      Msg Stderr ''Warning: Unable to check application.\<newline>'' [],
      Dev (Close (Some 9)),
      Msg Stdout ''%-11s  %-40s %-15s\<newline>'' [''00123456'', ''P-Star 25K50'', ''?'']]"
proof -
  let ?s1 = "(emit (Dev (Close (bootloaderHandle initialState))) initialState)\<lparr>bootloaderHandle := None\<rparr>"
  let ?s2 = "(emit (Dev ListCreate) ?s1)\<lparr>bootloaderList := Some [7, 8, 9]\<rparr>"
  have info_ok: "\<forall>h d. fst (ploaderListCreateInfo flakyEnv h d) = 0"
    by (simp add: flakyEnv_def)
  have listed: "bootloaderListRequire flakyEnv ?s1 = (0, ?s2)"
    by (simp add: bootloaderListRequire_def flakyEnv_def)
  have some: "0 < ploaderListSize (bootloaderList ?s2)"
    by (simp add: ploaderListSize_def listEntries_def)
  from list_tolerates_failed_status [OF info_ok listed some]
  have "fst (listConnectedBootloaders flakyEnv initialState) = 0"
    by simp
  moreover have "trace (snd (listConnectedBootloaders flakyEnv initialState)) =
     [Dev (Close None), Dev ListCreate,
      Dev (ListCreateInfo 7), Dev (OpenFromList 7),
      Msg Stderr ''Warning: Unable to connect to bootloader.\<newline>'' [],
      Msg Stdout ''%-11s  %-40s %-15s\<newline>'' [''00123456'', ''P-Star 25K50'', ''?''],
      Dev (ListCreateInfo 8), Dev (OpenFromList 8), Dev (CheckApplication 8), Dev (Close (Some 8)),
      Msg Stdout ''%-11s  %-40s %-15s\<newline>'' [''00123456'', ''P-Star 25K50'', ''App present''],
      Dev (ListCreateInfo 9), Dev (OpenFromList 9), Dev (CheckApplication 9),
      Msg Stderr ''Warning: Unable to check application.\<newline>'' [],
      Dev (Close (Some 9)),
      Msg Stdout ''%-11s  %-40s %-15s\<newline>'' [''00123456'', ''P-Star 25K50'', ''?'']]"
    by code_simp
  ultimately show ?thesis by simp
qed

section \<open>Erasing\<close>

lemma bootloaderHandleRequire_frame:
  assumes "\<And>c f a. \<not> P (Msg c f a)" "\<not> P (Dev ListCreate)"
    "\<And>sn. \<not> P (Dev (ListFilterBySerialNumber sn))" "\<not> P (Dev ListFree)"
    "\<And>d. \<not> P (Dev (OpenFromList d))" "\<And>h. \<not> P (Dev (CreateInfo h))"
  shows "filter P (trace (snd (bootloaderHandleRequire env s))) = filter P (trace s)"
  using assms
  by (simp add: bootloaderHandleRequire_def Let_def split_beta bootloaderNotFoundError_def
        printBootloaderInfo_def bootloaderListRequire_frame split: option.splits)

lemma bootloaderHandleRequire_isTransfer [simp]:
  "filter isTransfer (trace (snd (bootloaderHandleRequire env s))) = filter isTransfer (trace s)"
  by (rule bootloaderHandleRequire_frame) simp_all

lemma bootloaderHandleRequire_isFileCall [simp]:
  "filter isFileCall (trace (snd (bootloaderHandleRequire env s))) = filter isFileCall (trace s)"
  by (rule bootloaderHandleRequire_frame) simp_all

lemma clearHexFileInput_blank:
  assumes "clearHexFileInput env d s = Some (0, d', s')"
    and nz: "ERROR_OPERATION_FAILED env \<noteq> 0"
  shows "(\<exists>pInfo.
            ploaderCreateInfo env (trace (snd (bootloaderHandleRequire env s)))
              (bootloaderHandle (snd (bootloaderHandleRequire env s))) = (0, pInfo) \<and>
            d' = Input \<lparr>fileName = None,
                        flash = Some (replicate (unat (appSize pInfo)) 0xFF),
                        eeprom = Some (replicate (unat (eepromSize pInfo)) 0xFF)\<rparr>) \<and>
         filter isFileCall (trace s') = filter isFileCall (trace s)"
proof -
  from assms(1) obtain data where d: "d = Input data"
    by (cases d) (auto simp: clearHexFileInput_def)
  from assms(1) d have clean: "fileName data = None" "flash data = None" "eeprom data = None"
    by (auto simp: clearHexFileInput_def split: if_splits)
  then have data: "data = \<lparr>fileName = None, flash = None, eeprom = None\<rparr>"
    by (cases data) simp
  obtain r pInfo where info: "ploaderCreateInfo env (trace (snd (bootloaderHandleRequire env s)))
              (bootloaderHandle (snd (bootloaderHandleRequire env s))) = (r, pInfo)"
    by fastforce
  from assms d clean info show ?thesis
    by (auto simp: clearHexFileInput_def Let_def split_beta data split: if_splits)
qed

lemma erase_execute_transfers:
  assumes t: "t \<in> {actEraseFlashAndEeprom, actEraseFlash, actEraseEeprom}"
    and g: "execute t = Some g" and run: "g env (Input x) s = Some (c, d'', s3)"
    and nz: "ERROR_OPERATION_FAILED env \<noteq> 0"
  shows "d'' = Input x \<and>
         filter isFileCall (trace s3) = filter isFileCall (trace s) \<and>
         (\<exists>n. filter isTransfer (trace s3) =
                filter isTransfer (trace s) @ take n (targetedTransfers t (bootloaderHandle s3) x)) \<and>
         (c = 0 \<longrightarrow> filter isTransfer (trace s3) =
                filter isTransfer (trace s) @ targetedTransfers t (bootloaderHandle s3) x)"
proof -
  let ?s1 = "snd (bootloaderHandleRequire env s)"
  from t consider "t = actEraseFlashAndEeprom" | "t = actEraseFlash" | "t = actEraseEeprom"
    by auto
  then show ?thesis
  proof cases
    case 1
    with g have g: "g = writeFlashAndEeprom" by simp
    from run nz have cases:
      "s3 = ?s1 \<or>
       s3 = emit (Dev (WriteFlash (bootloaderHandle ?s1) (flash x))) ?s1 \<and> c \<noteq> 0 \<or>
       s3 = emit (Dev (WriteEeprom (bootloaderHandle ?s1) (eeprom x)))
              (emit (Dev (WriteFlash (bootloaderHandle ?s1) (flash x))) ?s1)"
      and d: "d'' = Input x"
      and c0: "c = 0 \<longrightarrow> s3 = emit (Dev (WriteEeprom (bootloaderHandle ?s1) (eeprom x)))
              (emit (Dev (WriteFlash (bootloaderHandle ?s1) (flash x))) ?s1)"
      unfolding g by (auto simp: writeFlashAndEeprom_def Let_def split_beta split: if_splits)
    have n: "\<exists>n. filter isTransfer (trace s3) =
                filter isTransfer (trace s) @ take n (targetedTransfers t (bootloaderHandle s3) x)"
      using cases
    proof (elim disjE conjE)
      assume "s3 = ?s1"
      then have "filter isTransfer (trace s3) =
                filter isTransfer (trace s) @ take 0 (targetedTransfers t (bootloaderHandle s3) x)"
        by simp
      then show ?thesis ..
    next
      assume "s3 = emit (Dev (WriteFlash (bootloaderHandle ?s1) (flash x))) ?s1"
      then have "filter isTransfer (trace s3) =
                filter isTransfer (trace s) @ take 1 (targetedTransfers t (bootloaderHandle s3) x)"
        by (simp add: targetedTransfers_def 1)
      then show ?thesis ..
    next
      assume "s3 = emit (Dev (WriteEeprom (bootloaderHandle ?s1) (eeprom x)))
              (emit (Dev (WriteFlash (bootloaderHandle ?s1) (flash x))) ?s1)"
      then have "filter isTransfer (trace s3) =
                filter isTransfer (trace s) @ take 2 (targetedTransfers t (bootloaderHandle s3) x)"
        by (simp add: targetedTransfers_def 1)
      then show ?thesis ..
    qed
    have f: "filter isFileCall (trace s3) = filter isFileCall (trace s)"
      using cases by auto
    have z: "c = 0 \<longrightarrow> filter isTransfer (trace s3) =
                filter isTransfer (trace s) @ targetedTransfers t (bootloaderHandle s3) x"
      using c0 by (auto simp: targetedTransfers_def 1)
    from d f n z show ?thesis by blast
  next
    case 2
    with g have g: "g = writeFlash" by simp
    from run nz have cases:
      "s3 = ?s1 \<or> s3 = emit (Dev (WriteFlash (bootloaderHandle ?s1) (flash x))) ?s1"
      and d: "d'' = Input x"
      and c0: "c = 0 \<longrightarrow> s3 = emit (Dev (WriteFlash (bootloaderHandle ?s1) (flash x))) ?s1"
      unfolding g by (auto simp: writeFlash_def Let_def split_beta split: if_splits)
    have n: "\<exists>n. filter isTransfer (trace s3) =
                filter isTransfer (trace s) @ take n (targetedTransfers t (bootloaderHandle s3) x)"
      using cases
    proof
      assume "s3 = ?s1"
      then have "filter isTransfer (trace s3) =
                filter isTransfer (trace s) @ take 0 (targetedTransfers t (bootloaderHandle s3) x)"
        by simp
      then show ?thesis ..
    next
      assume "s3 = emit (Dev (WriteFlash (bootloaderHandle ?s1) (flash x))) ?s1"
      then have "filter isTransfer (trace s3) =
                filter isTransfer (trace s) @ take 1 (targetedTransfers t (bootloaderHandle s3) x)"
        by (simp add: targetedTransfers_def 2)
      then show ?thesis ..
    qed
    have f: "filter isFileCall (trace s3) = filter isFileCall (trace s)"
      using cases by auto
    have z: "c = 0 \<longrightarrow> filter isTransfer (trace s3) =
                filter isTransfer (trace s) @ targetedTransfers t (bootloaderHandle s3) x"
      using c0 by (auto simp: targetedTransfers_def 2)
    from d f n z show ?thesis by blast
  next
    case 3
    with g have g: "g = writeEeprom" by simp
    from run nz have cases:
      "s3 = ?s1 \<or> s3 = emit (Dev (WriteEeprom (bootloaderHandle ?s1) (eeprom x))) ?s1"
      and d: "d'' = Input x"
      and c0: "c = 0 \<longrightarrow> s3 = emit (Dev (WriteEeprom (bootloaderHandle ?s1) (eeprom x))) ?s1"
      unfolding g by (auto simp: writeEeprom_def Let_def split_beta split: if_splits)
    have n: "\<exists>n. filter isTransfer (trace s3) =
                filter isTransfer (trace s) @ take n (targetedTransfers t (bootloaderHandle s3) x)"
      using cases
    proof
      assume "s3 = ?s1"
      then have "filter isTransfer (trace s3) =
                filter isTransfer (trace s) @ take 0 (targetedTransfers t (bootloaderHandle s3) x)"
        by simp
      then show ?thesis ..
    next
      assume "s3 = emit (Dev (WriteEeprom (bootloaderHandle ?s1) (eeprom x))) ?s1"
      then have "filter isTransfer (trace s3) =
                filter isTransfer (trace s) @ take 1 (targetedTransfers t (bootloaderHandle s3) x)"
        by (simp add: targetedTransfers_def 3)
      then show ?thesis ..
    qed
    have f: "filter isFileCall (trace s3) = filter isFileCall (trace s)"
      using cases by auto
    have z: "c = 0 \<longrightarrow> filter isTransfer (trace s3) =
                filter isTransfer (trace s) @ targetedTransfers t (bootloaderHandle s3) x"
      using c0 by (auto simp: targetedTransfers_def 3)
    from d f n z show ?thesis by blast
  qed
qed

lemma replicate_numerals:
  "replicate 4 x = [x, x, x, x]" "replicate 2 x = [x, x]"
  by (simp_all add: numeral_eq_Suc)

lemma bootloaderHandleRequire_pair:
  obtains e s1 where "bootloaderHandleRequire env s = (e, s1)"
    "filter isTransfer (trace s1) = filter isTransfer (trace s)"
proof -
  obtain e s1 where h: "bootloaderHandleRequire env s = (e, s1)"
    by fastforce
  have "filter isTransfer (trace s1) = filter isTransfer (trace s)"
    using bootloaderHandleRequire_isTransfer [of env s] h by simp
  with h that show ?thesis by blast
qed

lemma erase_execute_sends:
  assumes t: "t \<in> {actEraseFlashAndEeprom, actEraseFlash, actEraseEeprom}"
    and bufs: "flash x \<noteq> None" "eeprom x \<noteq> None"
  shows "\<exists>g c s3. execute t = Some g \<and> g env (Input x) s = Some (c, Input x, s3) \<and>
           bootloaderHandle s3 = bootloaderHandle (snd (bootloaderHandleRequire env s)) \<and>
           (fst (bootloaderHandleRequire env s) = 0 \<longrightarrow>
              (\<exists>n. 0 < n \<and> filter isTransfer (trace s3) =
                     filter isTransfer (trace s) @ take n (targetedTransfers t (bootloaderHandle s3) x)) \<and>
              ((\<forall>h d b. ploaderWriteFlash env h d b = 0) \<and> (\<forall>h d b. ploaderWriteEeprom env h d b = 0) \<longrightarrow>
               c = 0))"
proof -
  obtain e s1 where h: "bootloaderHandleRequire env s = (e, s1)"
    and f: "filter isTransfer (trace s1) = filter isTransfer (trace s)"
    by (rule bootloaderHandleRequire_pair)
  from t consider "t = actEraseFlashAndEeprom" | "t = actEraseFlash" | "t = actEraseEeprom"
    by auto
  then show ?thesis
  proof cases
    case 1
    show ?thesis
    proof (cases "e = 0")
      case False
      with 1 bufs h show ?thesis
        by (simp add: writeFlashAndEeprom_def)
    next
      case True
      let ?s2 = "emit (Dev (WriteFlash (bootloaderHandle s1) (flash x))) s1"
      let ?s3 = "emit (Dev (WriteEeprom (bootloaderHandle s1) (eeprom x))) ?s2"
      show ?thesis
      proof (cases "ploaderWriteFlash env (trace s1) (bootloaderHandle s1) (flash x) = 0")
        case False
        have "filter isTransfer (trace ?s2) =
              filter isTransfer (trace s) @ take 1 (targetedTransfers t (bootloaderHandle ?s2) x)"
          by (simp add: f targetedTransfers_def 1)
        then have "\<exists>n. 0 < n \<and> filter isTransfer (trace ?s2) =
              filter isTransfer (trace s) @ take n (targetedTransfers t (bootloaderHandle ?s2) x)"
          by (intro exI [of _ 1]) simp
        with 1 bufs h True False show ?thesis
          by (auto simp: writeFlashAndEeprom_def Let_def)
      next
        case wf: True
        have "filter isTransfer (trace ?s3) =
              filter isTransfer (trace s) @ take 2 (targetedTransfers t (bootloaderHandle ?s3) x)"
          by (simp add: f targetedTransfers_def 1)
        then have "\<exists>n. 0 < n \<and> filter isTransfer (trace ?s3) =
              filter isTransfer (trace s) @ take n (targetedTransfers t (bootloaderHandle ?s3) x)"
          by (intro exI [of _ 2]) simp
        with 1 bufs h True wf show ?thesis
          by (auto simp: writeFlashAndEeprom_def Let_def)
      qed
    qed
  next
    case 2
    show ?thesis
    proof (cases "e = 0")
      case False
      with 2 bufs h show ?thesis
        by (simp add: writeFlash_def)
    next
      case True
      let ?s2 = "emit (Dev (WriteFlash (bootloaderHandle s1) (flash x))) s1"
      have "filter isTransfer (trace ?s2) =
            filter isTransfer (trace s) @ take 1 (targetedTransfers t (bootloaderHandle ?s2) x)"
        by (simp add: f targetedTransfers_def 2)
      then have "\<exists>n. 0 < n \<and> filter isTransfer (trace ?s2) =
            filter isTransfer (trace s) @ take n (targetedTransfers t (bootloaderHandle ?s2) x)"
        by (intro exI [of _ 1]) simp
      with 2 bufs h True show ?thesis
        by (auto simp: writeFlash_def Let_def)
    qed
  next
    case 3
    show ?thesis
    proof (cases "e = 0")
      case False
      with 3 bufs h show ?thesis
        by (simp add: writeEeprom_def)
    next
      case True
      let ?s2 = "emit (Dev (WriteEeprom (bootloaderHandle s1) (eeprom x))) s1"
      have "filter isTransfer (trace ?s2) =
            filter isTransfer (trace s) @ take 1 (targetedTransfers t (bootloaderHandle ?s2) x)"
        by (simp add: f targetedTransfers_def 3)
      then have "\<exists>n. 0 < n \<and> filter isTransfer (trace ?s2) =
            filter isTransfer (trace s) @ take n (targetedTransfers t (bootloaderHandle ?s2) x)"
        by (intro exI [of _ 1]) simp
      with 3 bufs h True show ?thesis
        by (auto simp: writeEeprom_def Let_def)
    qed
  qed
qed


text \<open>
  C3. An erase action has no parse phase, and its prepare phase is \<open>clearHexFileInput\<close>.
  When that returns 0, the action's private state holds no file name and two buffers:
  as many bytes 0xFF as the \<open>appSize\<close> the device has just reported, and as many as its
  \<open>eepromSize\<close>. The execute phase leaves that state as it is, and the images it sends
  are those of \<open>targetedTransfers\<close>, in that order: the flash buffer, the EEPROM buffer or
  both, all of them when it returns 0 and the first ones when it fails on the way.
  Neither phase calls \<open>fopen\<close>, \<open>fclose\<close> or the HEX codec. And the execute phase does
  send: handed a state with both buffers, it returns, and once it has a handle (the
  lookup returns 0) it has sent the first image it targets at least; when the device
  accepts every image it returns 0, so that it has sent them all. (The header's
  \<open>ERROR_OPERATION_FAILED\<close> is taken to be other than 0.)
\<close>

theorem erase_sends_blank_images:
  assumes t: "t \<in> {actEraseFlashAndEeprom, actEraseFlash, actEraseEeprom}"
    and nz: "ERROR_OPERATION_FAILED env \<noteq> 0"
  shows
    "parse t = None \<and> prepare t = Some clearHexFileInput \<and>
     (\<forall>d s d' s'. clearHexFileInput env d s = Some (0, d', s') \<longrightarrow>
        (\<exists>pInfo.
            ploaderCreateInfo env (trace (snd (bootloaderHandleRequire env s)))
              (bootloaderHandle (snd (bootloaderHandleRequire env s))) = (0, pInfo) \<and>
            d' = Input \<lparr>fileName = None,
                        flash = Some (replicate (unat (appSize pInfo)) 0xFF),
                        eeprom = Some (replicate (unat (eepromSize pInfo)) 0xFF)\<rparr>) \<and>
        filter isFileCall (trace s') = filter isFileCall (trace s)) \<and>
     (\<forall>g x s c d'' s3. execute t = Some g \<and> g env (Input x) s = Some (c, d'', s3) \<longrightarrow>
        d'' = Input x \<and>
        filter isFileCall (trace s3) = filter isFileCall (trace s) \<and>
        (\<exists>n. filter isTransfer (trace s3) =
               filter isTransfer (trace s) @ take n (targetedTransfers t (bootloaderHandle s3) x)) \<and>
        (c = 0 \<longrightarrow> filter isTransfer (trace s3) =
               filter isTransfer (trace s) @ targetedTransfers t (bootloaderHandle s3) x)) \<and>
     (\<forall>x s. flash x \<noteq> None \<and> eeprom x \<noteq> None \<longrightarrow>
        (\<exists>g c s3. execute t = Some g \<and> g env (Input x) s = Some (c, Input x, s3) \<and>
           bootloaderHandle s3 = bootloaderHandle (snd (bootloaderHandleRequire env s)) \<and>
           (fst (bootloaderHandleRequire env s) = 0 \<longrightarrow>
              (\<exists>n. 0 < n \<and> filter isTransfer (trace s3) =
                     filter isTransfer (trace s) @ take n (targetedTransfers t (bootloaderHandle s3) x)) \<and>
              ((\<forall>h d b. ploaderWriteFlash env h d b = 0) \<and> (\<forall>h d b. ploaderWriteEeprom env h d b = 0) \<longrightarrow>
               c = 0))))"
proof -
  have tab: "parse t = None \<and> prepare t = Some clearHexFileInput"
    using t by auto
  have prep: "(\<exists>pInfo.
            ploaderCreateInfo env (trace (snd (bootloaderHandleRequire env s)))
              (bootloaderHandle (snd (bootloaderHandleRequire env s))) = (0, pInfo) \<and>
            d' = Input \<lparr>fileName = None,
                        flash = Some (replicate (unat (appSize pInfo)) 0xFF),
                        eeprom = Some (replicate (unat (eepromSize pInfo)) 0xFF)\<rparr>) \<and>
        filter isFileCall (trace s') = filter isFileCall (trace s)"
    if "clearHexFileInput env d s = Some (0, d', s')" for d s d' s'
    using clearHexFileInput_blank [OF that nz] .
  have exec: "d'' = Input x \<and>
        filter isFileCall (trace s3) = filter isFileCall (trace s) \<and>
        (\<exists>n. filter isTransfer (trace s3) =
               filter isTransfer (trace s) @ take n (targetedTransfers t (bootloaderHandle s3) x)) \<and>
        (c = 0 \<longrightarrow> filter isTransfer (trace s3) =
               filter isTransfer (trace s) @ targetedTransfers t (bootloaderHandle s3) x)"
    if "execute t = Some g \<and> g env (Input x) s = Some (c, d'', s3)" for g x s c d'' s3
    using erase_execute_transfers [OF t _ _ nz] that by blast
  have sends: "\<exists>g c s3. execute t = Some g \<and> g env (Input x) s = Some (c, Input x, s3) \<and>
           bootloaderHandle s3 = bootloaderHandle (snd (bootloaderHandleRequire env s)) \<and>
           (fst (bootloaderHandleRequire env s) = 0 \<longrightarrow>
              (\<exists>n. 0 < n \<and> filter isTransfer (trace s3) =
                     filter isTransfer (trace s) @ take n (targetedTransfers t (bootloaderHandle s3) x)) \<and>
              ((\<forall>h d b. ploaderWriteFlash env h d b = 0) \<and> (\<forall>h d b. ploaderWriteEeprom env h d b = 0) \<longrightarrow>
               c = 0))"
    if "flash x \<noteq> None \<and> eeprom x \<noteq> None" for x s
    using erase_execute_sends [OF t, of x env s] that by blast
  from tab prep exec sends show ?thesis
    by blast
qed

theorem erase_sends_blank_images_witness:
  "(case clearHexFileInput (connected [7] quietEnv)
           (Input \<lparr>fileName = None, flash = None, eeprom = None\<rparr>) initialState of
      None \<Rightarrow> False
    | Some (c, d', s') \<Rightarrow>
        c = 0 \<and>
        d' = Input \<lparr>fileName = None, flash = Some [255, 255, 255, 255], eeprom = Some [255, 255]\<rparr> \<and>
        (case writeFlashAndEeprom (connected [7] quietEnv) d' s' of
           None \<Rightarrow> False
         | Some (c2, d'', s3) \<Rightarrow>
             c2 = 0 \<and>
             filter isTransfer (trace s3) =
               [Dev (WriteFlash (Some 7) (Some [255, 255, 255, 255])),
                Dev (WriteEeprom (Some 7) (Some [255, 255]))]) \<and>
        (case writeFlash (connected [7] quietEnv) d' s' of
           None \<Rightarrow> False
         | Some (c2, d'', s3) \<Rightarrow>
             c2 = 0 \<and>
             filter isTransfer (trace s3) = [Dev (WriteFlash (Some 7) (Some [255, 255, 255, 255]))]) \<and>
        (case writeEeprom (connected [7] quietEnv) d' s' of
           None \<Rightarrow> False
         | Some (c2, d'', s3) \<Rightarrow>
             c2 = 0 \<and>
             filter isTransfer (trace s3) = [Dev (WriteEeprom (Some 7) (Some [255, 255]))])) \<and>
   map_option (\<lambda>(c, s). (c, filter isTransfer (trace s), filter isFileCall (trace s)))
     (main (connected [7] quietEnv) [''p-load'', ''--erase'']) =
     Some (0, [Dev (WriteFlash (Some 7) (Some [255, 255, 255, 255])),
               Dev (WriteEeprom (Some 7) (Some [255, 255]))], []) \<and>
   map_option (\<lambda>(c, s). (c, filter isTransfer (trace s), filter isFileCall (trace s)))
     (main (connected [7] quietEnv) [''p-load'', ''--erase-flash'']) =
     Some (0, [Dev (WriteFlash (Some 7) (Some [255, 255, 255, 255]))], []) \<and>
   map_option (\<lambda>(c, s). (c, filter isTransfer (trace s), filter isFileCall (trace s)))
     (main (connected [7] quietEnv) [''p-load'', ''--erase-eeprom'']) =
     Some (0, [Dev (WriteEeprom (Some 7) (Some [255, 255]))], [])"
proof -
  let ?E = "connected [7] quietEnv"
  let ?d0 = "Input \<lparr>fileName = None, flash = None, eeprom = None\<rparr>"
  define blank where
    "blank = \<lparr>fileName = None, flash = Some [255, 255, 255, 255 :: byte], eeprom = Some [255, 255 :: byte]\<rparr>"
  have nz: "ERROR_OPERATION_FAILED ?E \<noteq> 0"
    by (simp add: connected_def)
  have ok: "(\<forall>h d b. ploaderWriteFlash ?E h d b = 0) \<and> (\<forall>h d b. ploaderWriteEeprom ?E h d b = 0)"
    by (simp add: connected_def)
  have "case clearHexFileInput ?E ?d0 initialState of
          None \<Rightarrow> False
        | Some (c, d', s') \<Rightarrow>
            c = 0 \<and> filter isTransfer (trace s') = [] \<and>
            fst (bootloaderHandleRequire ?E s') = 0 \<and>
            bootloaderHandle (snd (bootloaderHandleRequire ?E s')) = Some 7"
    by code_simp
  then obtain d' s' where prep: "clearHexFileInput ?E ?d0 initialState = Some (0, d', s')"
    and e: "filter isTransfer (trace s') = []"
    and h0: "fst (bootloaderHandleRequire ?E s') = 0"
    and h7: "bootloaderHandle (snd (bootloaderHandleRequire ?E s')) = Some 7"
    by (auto split: option.splits)
  have t1: "actEraseFlashAndEeprom \<in> {actEraseFlashAndEeprom, actEraseFlash, actEraseEeprom}"
    by simp
  from erase_sends_blank_images [OF t1 nz] prep have
    "\<exists>pInfo. ploaderCreateInfo ?E (trace (snd (bootloaderHandleRequire ?E initialState)))
              (bootloaderHandle (snd (bootloaderHandleRequire ?E initialState))) = (0, pInfo) \<and>
            d' = Input \<lparr>fileName = None,
                        flash = Some (replicate (unat (appSize pInfo)) 0xFF),
                        eeprom = Some (replicate (unat (eepromSize pInfo)) 0xFF)\<rparr>"
    by blast
  then have d': "d' = Input blank"
    by (auto simp: connected_def info0_def replicate_numerals blank_def)
  have bufs: "flash blank \<noteq> None \<and> eeprom blank \<noteq> None"
    by (simp add: blank_def)
  have step: "\<exists>s3. g ?E (Input blank) s' = Some (0, Input blank, s3) \<and>
                 filter isTransfer (trace s3) = targetedTransfers t (Some 7) blank"
    if t: "t \<in> {actEraseFlashAndEeprom, actEraseFlash, actEraseEeprom}" and g: "execute t = Some g"
    for t g
  proof -
    note erase = erase_sends_blank_images [OF t nz]
    note sends = erase [THEN conjunct2, THEN conjunct2, THEN conjunct2, THEN conjunct2, rule_format]
    note exec = erase [THEN conjunct2, THEN conjunct2, THEN conjunct2, THEN conjunct1, rule_format]
    from sends [OF bufs, of s'] g h0 h7 ok
    obtain c s3 where run: "g ?E (Input blank) s' = Some (c, Input blank, s3)"
      and h: "bootloaderHandle s3 = Some 7" and c: "c = 0"
      by auto
    from exec [of g blank s' c "Input blank" s3] g run c
    have "filter isTransfer (trace s3) =
            filter isTransfer (trace s') @ targetedTransfers t (bootloaderHandle s3) blank"
      by blast
    with e h run c show ?thesis
      by simp
  qed
  from step [of actEraseFlashAndEeprom writeFlashAndEeprom]
  obtain sa where a: "writeFlashAndEeprom ?E (Input blank) s' = Some (0, Input blank, sa)"
    "filter isTransfer (trace sa) = targetedTransfers actEraseFlashAndEeprom (Some 7) blank"
    by auto
  from step [of actEraseFlash writeFlash]
  obtain sb where b: "writeFlash ?E (Input blank) s' = Some (0, Input blank, sb)"
    "filter isTransfer (trace sb) = targetedTransfers actEraseFlash (Some 7) blank"
    by auto
  from step [of actEraseEeprom writeEeprom]
  obtain sc where c: "writeEeprom ?E (Input blank) s' = Some (0, Input blank, sc)"
    "filter isTransfer (trace sc) = targetedTransfers actEraseEeprom (Some 7) blank"
    by auto
  have m1: "map_option (\<lambda>(c, s). (c, filter isTransfer (trace s), filter isFileCall (trace s)))
     (main ?E [''p-load'', ''--erase'']) =
     Some (0, [Dev (WriteFlash (Some 7) (Some [255, 255, 255, 255])),
               Dev (WriteEeprom (Some 7) (Some [255, 255]))], [])"
    by code_simp
  have m2: "map_option (\<lambda>(c, s). (c, filter isTransfer (trace s), filter isFileCall (trace s)))
     (main ?E [''p-load'', ''--erase-flash'']) =
     Some (0, [Dev (WriteFlash (Some 7) (Some [255, 255, 255, 255]))], [])"
    by code_simp
  have m3: "map_option (\<lambda>(c, s). (c, filter isTransfer (trace s), filter isFileCall (trace s)))
     (main ?E [''p-load'', ''--erase-eeprom'']) =
     Some (0, [Dev (WriteEeprom (Some 7) (Some [255, 255]))], [])"
    by code_simp
  have phases: "case clearHexFileInput ?E ?d0 initialState of
      None \<Rightarrow> False
    | Some (c, d', s') \<Rightarrow>
        c = 0 \<and>
        d' = Input \<lparr>fileName = None, flash = Some [255, 255, 255, 255], eeprom = Some [255, 255]\<rparr> \<and>
        (case writeFlashAndEeprom ?E d' s' of
           None \<Rightarrow> False
         | Some (c2, d'', s3) \<Rightarrow>
             c2 = 0 \<and>
             filter isTransfer (trace s3) =
               [Dev (WriteFlash (Some 7) (Some [255, 255, 255, 255])),
                Dev (WriteEeprom (Some 7) (Some [255, 255]))]) \<and>
        (case writeFlash ?E d' s' of
           None \<Rightarrow> False
         | Some (c2, d'', s3) \<Rightarrow>
             c2 = 0 \<and>
             filter isTransfer (trace s3) = [Dev (WriteFlash (Some 7) (Some [255, 255, 255, 255]))]) \<and>
        (case writeEeprom ?E d' s' of
           None \<Rightarrow> False
         | Some (c2, d'', s3) \<Rightarrow>
             c2 = 0 \<and>
             filter isTransfer (trace s3) = [Dev (WriteEeprom (Some 7) (Some [255, 255]))])"
    using prep a b c unfolding d' by (simp add: targetedTransfers_def blank_def)
  from phases m1 m2 m3 show ?thesis
    by (intro conjI)
qed

section \<open>Parsing the serial number\<close>

lemma parseArgs_round:
  "parseArgsBody env s = Some (None, s1) \<Longrightarrow> parseArgs env s = parseArgs env s1"
  by (subst parseArgs.simps) simp

lemma parseArgs_return:
  "parseArgsBody env s = Some (Some c, s1) \<Longrightarrow> parseArgs env s = Some (c, s1)"
  by (subst parseArgs.simps) simp

lemma parseRounds_parseArgs:
  "parseRounds env s s' \<Longrightarrow> parseArgs env s = parseArgs env s'"
  by (induction rule: parseRounds.induct) (simp_all add: parseArgs_round)

lemma parseRounds_trans:
  "parseRounds env a b \<Longrightarrow> parseRounds env b c \<Longrightarrow> parseRounds env a c"
  by (induction rule: parseRounds.induct) (auto intro: parseRounds.round)

lemma allocate_local:
  "allocate t = Some g \<Longrightarrow> g env d s = Some (c, d', s') \<Longrightarrow>
   desiredSerialNumber s' = desiredSerialNumber s \<and>
   filter isDeviceCall (trace s') = filter isDeviceCall (trace s)"
  by (cases t) (auto simp: allocateHexFileInput_def allocateHexFileOutput_def Let_def split: if_splits)

lemma parse_local:
  "parse t = Some g \<Longrightarrow> g env d s = Some (c, d', s') \<Longrightarrow>
   desiredSerialNumber s' = desiredSerialNumber s \<and>
   filter isDeviceCall (trace s') = filter isDeviceCall (trace s)"
  by (cases t)
     (auto simp: parseHexFileInputArg_def parseHexFileOutputArg_def argReaderNext_def Let_def
           split: actionData.splits option.splits list.splits)

lemma runPhase_local:
  assumes "\<And>g d s0 c d' s1. f = Some g \<Longrightarrow> g env d s0 = Some (c, d', s1) \<Longrightarrow>
             desiredSerialNumber s1 = desiredSerialNumber s0 \<and>
             filter isDeviceCall (trace s1) = filter isDeviceCall (trace s0)"
    and "runPhase ph f env i s = Some (c, s')"
  shows "desiredSerialNumber s' = desiredSerialNumber s \<and>
         filter isDeviceCall (trace s') = filter isDeviceCall (trace s)"
proof (cases f)
  case None
  with assms(2) show ?thesis by (simp add: runPhase_def)
next
  case (Some g)
  with assms(2) obtain d s1 where g: "g env (snd (actions s ! i)) (emit (Invoke ph i) s) = Some (c, d, s1)"
    and s': "s' = emit (Return ph i c) (s1\<lparr>actions := (actions s1)[i := (fst (actions s1 ! i), d)]\<rparr>)"
    by (auto simp: runPhase_def split: option.splits)
  from assms(1) [OF Some g] s' show ?thesis by simp
qed

lemma actionsAdd_local:
  assumes "actionsAdd env t s = Some (c, s')"
  shows "desiredSerialNumber s' = desiredSerialNumber s \<and>
         filter isDeviceCall (trace s') = filter isDeviceCall (trace s)"
proof -
  let ?s1 = "s\<lparr>actions := actions s @ [(t, NoData)]\<rparr>"
  from assms obtain c1 s2 where a: "runPhase Allocate (allocate t) env (length (actions s)) ?s1 = Some (c1, s2)"
    and rest: "c1 \<noteq> 0 \<and> s' = s2 \<or> runPhase Parse (parse t) env (length (actions s)) s2 = Some (c, s')"
    by (auto simp: actionsAdd_def Let_def split: option.splits if_splits)
  have 1: "desiredSerialNumber s2 = desiredSerialNumber s \<and>
         filter isDeviceCall (trace s2) = filter isDeviceCall (trace s)"
    using runPhase_local [OF _ a] allocate_local by fastforce
  have 2: "desiredSerialNumber s' = desiredSerialNumber s2 \<and>
         filter isDeviceCall (trace s') = filter isDeviceCall (trace s2)"
    if "runPhase Parse (parse t) env (length (actions s)) s2 = Some (c, s')"
    using runPhase_local [OF _ that] parse_local by fastforce
  from rest 1 2 show ?thesis by auto
qed

lemma argReaderNext_fields [simp]:
  "trace (snd (argReaderNext s)) = trace s"
  "desiredSerialNumber (snd (argReaderNext s)) = desiredSerialNumber s"
  by (auto simp: argReaderNext_def split: list.splits)

lemma parseArgsBody_local:
  assumes "parseArgsBody env s = Some (r, s')"
  shows "filter isDeviceCall (trace s') = filter isDeviceCall (trace s) \<and>
         (desiredSerialNumber s \<noteq> None \<longrightarrow> desiredSerialNumber s' \<noteq> None)"
proof -
  obtain arg s1 where n: "argReaderNext s = (arg, s1)"
    by fastforce
  then have t1: "trace s1 = trace s" "desiredSerialNumber s1 = desiredSerialNumber s"
    using argReaderNext_fields [of s] by simp_all
  show ?thesis
    using assms n t1
    by (auto simp: parseArgsBody_def Let_def split_beta checkExitCode_def
          split: option.splits if_splits dest!: actionsAdd_local)
qed

lemma parseRounds_local:
  "parseRounds env s s' \<Longrightarrow>
   filter isDeviceCall (trace s') = filter isDeviceCall (trace s) \<and>
   (desiredSerialNumber s \<noteq> None \<longrightarrow> desiredSerialNumber s' \<noteq> None)"
  by (induction rule: parseRounds.induct) (auto dest: parseArgsBody_local)

lemma parseArgsBody_serial_option:
  assumes "argReaderArgs s = ''-d'' # r"
  shows "parseArgsBody env s = Some (None, s1) \<Longrightarrow> desiredSerialNumber s1 \<noteq> None"
    and "parseArgsBody env s = Some (Some c, s1) \<Longrightarrow> c = ERROR_BAD_ARGS env"
    and "desiredSerialNumber s \<noteq> None \<or> r = [] \<Longrightarrow>
         \<exists>s1. parseArgsBody env s = Some (Some (ERROR_BAD_ARGS env), s1)"
  using assms
  by (auto simp: parseArgsBody_def argReaderNext_def Let_def split: if_splits list.splits)

text \<open>
  C8. Let the loop of \<open>parseArgs\<close> read \<open>-d\<close> as an option, go on, and in a later round
  read \<open>-d\<close> as an option again: then \<open>parseArgs\<close> returns \<open>ERROR_BAD_ARGS\<close>, and it has
  made no call into the bootloader library. Likewise when it reads \<open>-d\<close> as an option
  with no token after it. And \<open>run\<close> returns what \<open>parseArgs\<close> did, in the state
  \<open>parseArgs\<close> left, the header's \<open>ERROR_BAD_ARGS\<close> being other than 0: nothing is
  discovered. (A token \<open>-d\<close> that is read as the value of the option before it is not
  the flag: \<open>p-load -d -d\<close> asks for the serial number \<open>-d\<close>.)
\<close>

theorem serial_number_twice:
  "(\<forall>s0 sa ra sb s r.
      parseRounds env s0 sa \<and> argReaderArgs sa = ''-d'' # ra \<and>
      parseArgsBody env sa = Some (None, sb) \<and>
      parseRounds env sb s \<and> argReaderArgs s = ''-d'' # r \<longrightarrow>
      (\<exists>s'. parseArgs env s0 = Some (ERROR_BAD_ARGS env, s') \<and>
            filter isDeviceCall (trace s') = filter isDeviceCall (trace s0))) \<and>
   (\<forall>s0 s. parseRounds env s0 s \<and> argReaderArgs s = [''-d''] \<longrightarrow>
      (\<exists>s'. parseArgs env s0 = Some (ERROR_BAD_ARGS env, s') \<and>
            filter isDeviceCall (trace s') = filter isDeviceCall (trace s0))) \<and>
   (\<forall>s0 s'. ERROR_BAD_ARGS env \<noteq> 0 \<and> parseArgs env s0 = Some (ERROR_BAD_ARGS env, s') \<longrightarrow>
      run env s0 = Some (ERROR_BAD_ARGS env, s'))"
proof (intro conjI allI impI)
  fix s0 sa ra sb s r
  assume a: "parseRounds env s0 sa \<and> argReaderArgs sa = ''-d'' # ra \<and>
      parseArgsBody env sa = Some (None, sb) \<and>
      parseRounds env sb s \<and> argReaderArgs s = ''-d'' # r"
  then have "desiredSerialNumber sb \<noteq> None"
    using parseArgsBody_serial_option(1) by blast
  with a have set: "desiredSerialNumber s \<noteq> None"
    using parseRounds_local by blast
  from a have "parseRounds env sa s"
    by (auto intro: parseRounds.round)
  with a have reach: "parseRounds env s0 s"
    by (auto intro: parseRounds_trans)
  from parseArgsBody_serial_option(3) [of s r env] a set
  obtain s' where b: "parseArgsBody env s = Some (Some (ERROR_BAD_ARGS env), s')"
    by blast
  have "parseArgs env s0 = Some (ERROR_BAD_ARGS env, s')"
    using parseRounds_parseArgs [OF reach] parseArgs_return [OF b] by simp
  moreover have "filter isDeviceCall (trace s') = filter isDeviceCall (trace s0)"
    using parseRounds_local [OF reach] parseArgsBody_local [OF b] by simp
  ultimately show "\<exists>s'. parseArgs env s0 = Some (ERROR_BAD_ARGS env, s') \<and>
            filter isDeviceCall (trace s') = filter isDeviceCall (trace s0)"
    by blast
next
  fix s0 s
  assume a: "parseRounds env s0 s \<and> argReaderArgs s = [''-d'']"
  from parseArgsBody_serial_option(3) [of s "[]" env] a
  obtain s' where b: "parseArgsBody env s = Some (Some (ERROR_BAD_ARGS env), s')"
    by blast
  have "parseArgs env s0 = Some (ERROR_BAD_ARGS env, s')"
    using parseRounds_parseArgs [of env s0 s] a parseArgs_return [OF b] by simp
  moreover have "filter isDeviceCall (trace s') = filter isDeviceCall (trace s0)"
    using parseRounds_local [of env s0 s] a parseArgsBody_local [OF b] by simp
  ultimately show "\<exists>s'. parseArgs env s0 = Some (ERROR_BAD_ARGS env, s') \<and>
            filter isDeviceCall (trace s') = filter isDeviceCall (trace s0)"
    by blast
next
  fix s0 s'
  assume "ERROR_BAD_ARGS env \<noteq> 0 \<and> parseArgs env s0 = Some (ERROR_BAD_ARGS env, s')"
  then show "run env s0 = Some (ERROR_BAD_ARGS env, s')"
    by (simp add: run_def)
qed


theorem serial_number_twice_witness:
  "map_option fst (parseArgs quietEnv
      (argReaderInit [''p-load'', ''-d'', ''A'', ''-d'', ''B''] initialState)) = Some 1 \<and>
   map_option fst (run quietEnv
      (argReaderInit [''p-load'', ''-d'', ''A'', ''-d'', ''B''] initialState)) = Some 1 \<and>
   map_option fst (parseArgs quietEnv (argReaderInit [''p-load'', ''-d''] initialState)) = Some 1"
proof -
  define s0 where "s0 = argReaderInit [''p-load'', ''-d'', ''A'', ''-d'', ''B''] initialState"
  define sb where "sb = initialState\<lparr>desiredSerialNumber := Some ''A'',
               argReaderArgs := [''-d'', ''B''], argReaderLastArg := Some ''A''\<rparr>"
  define t0 where "t0 = argReaderInit [''p-load'', ''-d''] initialState"
  note twice = serial_number_twice [of quietEnv]
  note again = twice [THEN conjunct1, rule_format]
  note alone = twice [THEN conjunct2, THEN conjunct1, rule_format]
  note stops = twice [THEN conjunct2, THEN conjunct2, rule_format]
  have first: "argReaderArgs s0 = ''-d'' # [''A'', ''-d'', ''B'']"
    by (simp add: s0_def argReaderInit_def)
  have round: "parseArgsBody quietEnv s0 = Some (None, sb)"
    by (simp add: parseArgsBody_def argReaderNext_def s0_def sb_def argReaderInit_def initialState_def)
  have second: "argReaderArgs sb = ''-d'' # [''B'']"
    by (simp add: sb_def)
  have "\<exists>s'. parseArgs quietEnv s0 = Some (ERROR_BAD_ARGS quietEnv, s') \<and>
             filter isDeviceCall (trace s') = filter isDeviceCall (trace s0)"
    by (rule again [of s0 s0 "[''A'', ''-d'', ''B'']" sb sb "[''B'']"])
       (intro conjI parseRounds.start first round second)
  then obtain s' where p: "parseArgs quietEnv s0 = Some (ERROR_BAD_ARGS quietEnv, s')"
    by (elim exE conjE)
  have nz: "ERROR_BAD_ARGS quietEnv \<noteq> 0"
    by simp
  have r: "run quietEnv s0 = Some (ERROR_BAD_ARGS quietEnv, s')"
    by (rule stops) (intro conjI nz p)
  have last: "argReaderArgs t0 = [''-d'']"
    by (simp add: t0_def argReaderInit_def)
  have "\<exists>s'. parseArgs quietEnv t0 = Some (ERROR_BAD_ARGS quietEnv, s') \<and>
             filter isDeviceCall (trace s') = filter isDeviceCall (trace t0)"
    by (rule alone [of t0 t0]) (intro conjI parseRounds.start last)
  then obtain t' where q: "parseArgs quietEnv t0 = Some (ERROR_BAD_ARGS quietEnv, t')"
    by (elim exE conjE)
  from p r q show ?thesis
    unfolding s0_def t0_def by simp
qed

section \<open>Writing and restarting\<close>

lemma bootloaderHandleRequire_prefix:
  "prefix (trace s) (trace (snd (bootloaderHandleRequire env s)))"
proof -
  have p: "prefix (trace s) (trace (snd (bootloaderListRequire env s)))"
    by (rule bootloaderListRequire_prefix)
  then obtain evs where evs: "trace (snd (bootloaderListRequire env s)) = trace s @ evs"
    by (auto simp: prefix_def)
  show ?thesis
    by (simp add: bootloaderHandleRequire_def Let_def split_beta evs bootloaderNotFoundError_def
          printBootloaderInfo_def prefix_def split: option.splits)
qed

lemma restartBootloaderIfNeeded_last:
  assumes "\<forall>h'. Restart h' \<notin> set (trace s)"
    and "Restart h \<in> set (trace (snd (restartBootloaderIfNeeded env s)))"
  shows "\<exists>tr. prefix (trace s) tr \<and> trace (snd (restartBootloaderIfNeeded env s)) = tr @ [Restart h] \<and>
              (\<forall>h'. Restart h' \<notin> set tr)"
proof -
  let ?R = "\<lambda>e. \<exists>h. e = Restart h"
  let ?s1 = "snd (bootloaderHandleRequire env s)"
  have cf: "callFree ?R"
    by (simp add: callFree_def)
  have "filter ?R (trace ?s1) = filter ?R (trace s)"
    using cf by simp
  also have "\<dots> = []"
    using assms(1) by (auto simp: filter_empty_conv)
  finally have none: "\<forall>h'. Restart h' \<notin> set (trace ?s1)"
    by (auto simp: filter_empty_conv)
  have p: "prefix (trace s) (trace ?s1)"
    by (rule bootloaderHandleRequire_prefix)
  from assms(2) none assms(1)
  have "trace (snd (restartBootloaderIfNeeded env s)) = trace ?s1 @ [Restart h]"
    by (auto simp: restartBootloaderIfNeeded_def Let_def split_beta split: if_splits)
  with p none show ?thesis by blast
qed

lemma execute_present: "execute t \<noteq> None"
  by (cases t) simp_all

lemma run_no_restart_before:
  assumes "trace s0 = []"
  shows "parseArgs env s0 = Some (c1, s1) \<Longrightarrow> Restart h \<notin> set (trace s1)"
    and "parseArgs env s0 = Some (c1, s1) \<Longrightarrow> waitForBootloaderIfNeeded env s1 = Some (c2, s2) \<Longrightarrow>
         Restart h \<notin> set (trace s2)"
    and "parseArgs env s0 = Some (c1, s1) \<Longrightarrow> waitForBootloaderIfNeeded env s1 = Some (c2, s2) \<Longrightarrow>
         actionsPrepare env s2 = Some (c3, s3) \<Longrightarrow> Restart h \<notin> set (trace s3)"
    and "parseArgs env s0 = Some (c1, s1) \<Longrightarrow> waitForBootloaderIfNeeded env s1 = Some (c2, s2) \<Longrightarrow>
         actionsPrepare env s2 = Some (c3, s3) \<Longrightarrow> actionsExecute env s3 = Some (c4, s4) \<Longrightarrow>
         Restart h \<notin> set (trace s4)"
proof -
  let ?R = "\<lambda>e. e = Restart h"
  have cf: "callFree ?R"
    by (simp add: callFree_def)
  have n: "Restart h \<notin> set (trace s)" if "filter ?R (trace s) = []" for s
    using that by (auto simp: filter_empty_conv)
  have 1: "filter ?R (trace s1) = []" if "parseArgs env s0 = Some (c1, s1)" for c1 s1
    using parseArgs_filter [OF cf _ _ _ _ that] assms by simp
  have 2: "filter ?R (trace s2) = []"
    if "parseArgs env s0 = Some (c1, s1)" "waitForBootloaderIfNeeded env s1 = Some (c2, s2)"
    for c1 s1 c2 s2
    using 1 [OF that(1)] waitForBootloaderIfNeeded_callFree [OF that(2) cf] by simp
  have 3: "filter ?R (trace s3) = []"
    if "parseArgs env s0 = Some (c1, s1)" "waitForBootloaderIfNeeded env s1 = Some (c2, s2)"
      "actionsPrepare env s2 = Some (c3, s3)"
    for c1 s1 c2 s2 c3 s3
    using 2 [OF that(1,2)] phasePass_filter [OF cf _ _ _ that(3) [unfolded actionsPrepare_def]]
      prepare_callFree [OF cf] by simp
  have 4: "filter ?R (trace s4) = []"
    if "parseArgs env s0 = Some (c1, s1)" "waitForBootloaderIfNeeded env s1 = Some (c2, s2)"
      "actionsPrepare env s2 = Some (c3, s3)" "actionsExecute env s3 = Some (c4, s4)"
    for c1 s1 c2 s2 c3 s3 c4 s4
    using 3 [OF that(1,2,3)] phasePass_filter [OF cf _ _ _ that(4) [unfolded actionsExecute_def]]
      execute_callFree [OF cf] by simp
  show "parseArgs env s0 = Some (c1, s1) \<Longrightarrow> Restart h \<notin> set (trace s1)"
    using 1 n by blast
  show "parseArgs env s0 = Some (c1, s1) \<Longrightarrow> waitForBootloaderIfNeeded env s1 = Some (c2, s2) \<Longrightarrow>
         Restart h \<notin> set (trace s2)"
    using 2 n by blast
  show "parseArgs env s0 = Some (c1, s1) \<Longrightarrow> waitForBootloaderIfNeeded env s1 = Some (c2, s2) \<Longrightarrow>
         actionsPrepare env s2 = Some (c3, s3) \<Longrightarrow> Restart h \<notin> set (trace s3)"
    using 3 n by blast
  show "parseArgs env s0 = Some (c1, s1) \<Longrightarrow> waitForBootloaderIfNeeded env s1 = Some (c2, s2) \<Longrightarrow>
         actionsPrepare env s2 = Some (c3, s3) \<Longrightarrow> actionsExecute env s3 = Some (c4, s4) \<Longrightarrow>
         Restart h \<notin> set (trace s4)"
    using 4 n by blast
qed

lemma parseArgsBody_w:
  assumes "argReaderArgs s = ''-w'' # file # rest"
    and "malloc env (trace s @ [Invoke Allocate (length (actions s))]) (sizeof_HexFileInput env) \<noteq> None"
  shows "\<exists>s'. parseArgsBody env s = Some (None, s') \<and>
              actions s' = actions s @
                [(actWriteFlashAndEeprom, Input \<lparr>fileName = Some file, flash = None, eeprom = None\<rparr>)] \<and>
              restartBootloaderFlag s' \<and> argReaderArgs s' = rest"
  using assms
  by (simp add: parseArgsBody_def argReaderNext_def actionsAdd_def runPhase_def checkExitCode_def
        allocateHexFileInput_def parseHexFileInputArg_def Let_def nth_append)

lemma restartBootloaderIfNeeded_flag:
  assumes "Restart h \<in> set (trace (snd (restartBootloaderIfNeeded env s)))"
    and "Restart h \<notin> set (trace s)"
  shows "restartBootloaderFlag s"
  using assms by (cases "restartBootloaderFlag s") (simp_all add: restartBootloaderIfNeeded_def)

lemma restartBootloaderIfNeeded_restarts:
  assumes "restartBootloaderFlag s" and "fst (bootloaderHandleRequire env s) = 0"
  shows "trace (snd (restartBootloaderIfNeeded env s)) =
         trace (snd (bootloaderHandleRequire env s)) @
           [Restart (bootloaderHandle (snd (bootloaderHandleRequire env s)))]"
  using assms by (simp add: restartBootloaderIfNeeded_def Let_def split_beta)

lemma run_restart_after_execute:
  assumes run: "run env s0 = Some (c, s')" and t0: "trace s0 = []"
    and r: "Restart h \<in> set (trace s')"
  shows "\<exists>s1 s2 s3 s4 tr.
           parseArgs env s0 = Some (0, s1) \<and> waitForBootloaderIfNeeded env s1 = Some (0, s2) \<and>
           actionsPrepare env s2 = Some (0, s3) \<and> actionsExecute env s3 = Some (0, s4) \<and>
           restartBootloaderIfNeeded env s4 = (c, s') \<and> restartBootloaderFlag s4 \<and>
           (\<forall>i < length (actions s3). Return Execute i 0 \<in> set tr) \<and>
           (\<forall>i x. Return Execute i x \<in> set (trace s') \<longrightarrow> x = 0) \<and>
           prefix (trace s4) tr \<and> trace s' = tr @ [Restart h] \<and> (\<forall>h'. Restart h' \<notin> set tr)"
  using run
proof (cases rule: run_cases)
  case parse
  with run_no_restart_before(1) [OF t0] r show ?thesis by blast
next
  case (wait s1)
  with run_no_restart_before(2) [OF t0] r show ?thesis by blast
next
  case (prepare s1 s2)
  with run_no_restart_before(3) [OF t0] r show ?thesis by blast
next
  case (execute s1 s2 s3)
  with run_no_restart_before(4) [OF t0] r show ?thesis by blast
next
  case (restart s1 s2 s3 s4)
  have none: "\<forall>h'. Restart h' \<notin> set (trace s4)"
    using run_no_restart_before(4) [OF t0 restart(1-4)] by blast
  from restart(5) r have in': "Restart h \<in> set (trace (snd (restartBootloaderIfNeeded env s4)))"
    by simp
  from none have "Restart h \<notin> set (trace s4)"
    by blast
  from restartBootloaderIfNeeded_flag [OF in' this] have flag: "restartBootloaderFlag s4" .
  from restartBootloaderIfNeeded_last [OF none in'] restart(5)
  obtain tr where tr: "prefix (trace s4) tr" "trace s' = tr @ [Restart h]" "\<forall>h'. Restart h' \<notin> set tr"
    by auto
  have all4: "Return Execute i 0 \<in> set (trace s4)" if "i < length (actions s3)" for i
    by (rule phasePass_success [OF _ _ restart(4) [unfolded actionsExecute_def]])
       (use that execute_callFree execute_present in auto)
  have all: "\<forall>i < length (actions s3). Return Execute i 0 \<in> set tr"
    using all4 prefix_set [OF tr(1)] by blast
  have nofail: "x = 0" if x: "Return Execute i x \<in> set (trace s')" for i x
  proof (rule ccontr)
    assume nz: "x \<noteq> 0"
    let ?R = "\<lambda>e. e = Return Execute i x"
    have cfR: "callFree ?R"
      by (simp add: callFree_def)
    have inR: "filter ?R (trace s') \<noteq> []"
      using x by (auto simp: filter_empty_conv)
    have "filter ?R (trace s2) = []"
      using parseArgs_filter [OF cfR _ _ _ _ restart(1)]
        waitForBootloaderIfNeeded_callFree [OF restart(2) cfR] t0 by simp
    then have "filter ?R (trace s3) = []"
      using phasePass_filter [OF cfR _ _ _ restart(3) [unfolded actionsPrepare_def]]
        prepare_callFree [OF cfR] by simp
    then have nc: "Return Execute i x \<notin> set (trace s3)"
      by (auto simp: filter_empty_conv)
    have "filter ?R (trace s') = filter ?R (trace s4)"
      using restartBootloaderIfNeeded_callFree [OF cfR, of env s4] restart(5) by simp
    with inR have "Return Execute i x \<in> set (trace s4)"
      by (auto simp: filter_empty_conv dest!: arg_cong [where f = set])
    with phasePass_failure [OF _ nz restart(4) [unfolded actionsExecute_def]]
      execute_callFree nc nz
    show False by blast
  qed
  from restart flag all nofail tr show ?thesis by blast
qed

text \<open>
  C6. A round of the parsing loop that reads \<open>-w\<close> and a file name after it (the struct
  of the action being allocated) goes on to the next round, having queued an action of
  the type \<open>actWriteFlashAndEeprom\<close> with that file name and having set
  \<open>restartBootloaderFlag\<close>. The prepare phase of that type is \<open>readHexFile\<close> and its execute
  phase is \<open>writeFlashAndEeprom\<close>. In a run in which the device is restarted, every stage
  of that run before the restart has returned 0: \<open>parseArgs\<close>, the wait, the pass of the
  prepare phases and the pass of the execute phases, each entered in the state the one
  before has left, and \<open>restartBootloaderIfNeeded\<close> was entered in the state the execute
  pass left, with the flag set. By then the execute phase of each action in the queue
  has returned 0, no execute phase has returned anything else, and the restart is the
  last call of the run and the only restart. And with the flag set, once it has a handle
  (the lookup returns 0), \<open>restartBootloaderIfNeeded\<close> does restart that device, as its
  last call.
\<close>

theorem write_shorthand_restarts_last:
  "(\<forall>s file rest.
      argReaderArgs s = ''-w'' # file # rest \<and>
      malloc env (trace s @ [Invoke Allocate (length (actions s))]) (sizeof_HexFileInput env) \<noteq> None \<longrightarrow>
      (\<exists>s'. parseArgsBody env s = Some (None, s') \<and>
            actions s' = actions s @
              [(actWriteFlashAndEeprom, Input \<lparr>fileName = Some file, flash = None, eeprom = None\<rparr>)] \<and>
            restartBootloaderFlag s' \<and> argReaderArgs s' = rest)) \<and>
   prepare actWriteFlashAndEeprom = Some readHexFile \<and>
   execute actWriteFlashAndEeprom = Some writeFlashAndEeprom \<and>
   (\<forall>s0 c s' h.
      run env s0 = Some (c, s') \<and> trace s0 = [] \<and> Restart h \<in> set (trace s') \<longrightarrow>
      (\<exists>s1 s2 s3 s4 tr.
          parseArgs env s0 = Some (0, s1) \<and> waitForBootloaderIfNeeded env s1 = Some (0, s2) \<and>
          actionsPrepare env s2 = Some (0, s3) \<and> actionsExecute env s3 = Some (0, s4) \<and>
          restartBootloaderIfNeeded env s4 = (c, s') \<and> restartBootloaderFlag s4 \<and>
          (\<forall>i < length (actions s3). Return Execute i 0 \<in> set tr) \<and>
          (\<forall>i x. Return Execute i x \<in> set (trace s') \<longrightarrow> x = 0) \<and>
          prefix (trace s4) tr \<and> trace s' = tr @ [Restart h] \<and> (\<forall>h'. Restart h' \<notin> set tr))) \<and>
   (\<forall>s. restartBootloaderFlag s \<and> fst (bootloaderHandleRequire env s) = 0 \<longrightarrow>
      trace (snd (restartBootloaderIfNeeded env s)) =
        trace (snd (bootloaderHandleRequire env s)) @
          [Restart (bootloaderHandle (snd (bootloaderHandleRequire env s)))])"
proof (intro conjI allI impI)
  fix s :: state and f rest
  assume "argReaderArgs s = ''-w'' # f # rest \<and>
      malloc env (trace s @ [Invoke Allocate (length (actions s))]) (sizeof_HexFileInput env) \<noteq> None"
  then show "\<exists>s'. parseArgsBody env s = Some (None, s') \<and>
            actions s' = actions s @
              [(actWriteFlashAndEeprom, Input \<lparr>fileName = Some f, flash = None, eeprom = None\<rparr>)] \<and>
            restartBootloaderFlag s' \<and> argReaderArgs s' = rest"
    using parseArgsBody_w by blast
next
  show "prepare actWriteFlashAndEeprom = Some readHexFile" by simp
next
  show "execute actWriteFlashAndEeprom = Some writeFlashAndEeprom" by simp
next
  fix s0 c s' h
  assume "run env s0 = Some (c, s') \<and> trace s0 = [] \<and> Restart h \<in> set (trace s')"
  then show "\<exists>s1 s2 s3 s4 tr.
          parseArgs env s0 = Some (0, s1) \<and> waitForBootloaderIfNeeded env s1 = Some (0, s2) \<and>
          actionsPrepare env s2 = Some (0, s3) \<and> actionsExecute env s3 = Some (0, s4) \<and>
          restartBootloaderIfNeeded env s4 = (c, s') \<and> restartBootloaderFlag s4 \<and>
          (\<forall>i < length (actions s3). Return Execute i 0 \<in> set tr) \<and>
          (\<forall>i x. Return Execute i x \<in> set (trace s') \<longrightarrow> x = 0) \<and>
          prefix (trace s4) tr \<and> trace s' = tr @ [Restart h] \<and> (\<forall>h'. Restart h' \<notin> set tr)"
    using run_restart_after_execute [of env s0 c s' h] by blast
next
  fix s
  assume "restartBootloaderFlag s \<and> fst (bootloaderHandleRequire env s) = 0"
  then show "trace (snd (restartBootloaderIfNeeded env s)) =
        trace (snd (bootloaderHandleRequire env s)) @
          [Restart (bootloaderHandle (snd (bootloaderHandleRequire env s)))]"
    using restartBootloaderIfNeeded_restarts by blast
qed


theorem write_shorthand_restarts_last_witness:
  "(case run (connected [7] quietEnv) (argReaderInit [''p-load'', ''-w'', ''app.hex''] initialState) of
      None \<Rightarrow> False
    | Some (c, s') \<Rightarrow>
        c = 0 \<and> last (trace s') = Restart (Some 7) \<and>
        Return Execute 0 0 \<in> set (butlast (trace s')) \<and>
        length (filter (\<lambda>e. e = Restart (Some 7)) (trace s')) = 1) \<and>
   (case parseArgsBody (connected [7] quietEnv)
           (argReaderInit [''p-load'', ''-w'', ''app.hex''] initialState) of
      None \<Rightarrow> False
    | Some (r, s') \<Rightarrow>
        r = None \<and> restartBootloaderFlag s' \<and>
        map fst (actions s') = [actWriteFlashAndEeprom])"
proof -
  let ?E = "connected [7] quietEnv"
  define s0 where "s0 = argReaderInit [''p-load'', ''-w'', ''app.hex''] initialState"
  note w = write_shorthand_restarts_last [of ?E]
  note queues = w [THEN conjunct1, rule_format]
  note lastly = w [THEN conjunct2, THEN conjunct2, THEN conjunct2, THEN conjunct1, rule_format]
  have "case run ?E s0 of None \<Rightarrow> False
        | Some (c, s') \<Rightarrow> c = 0 \<and> Restart (Some 7) \<in> set (trace s')"
    unfolding s0_def by code_simp
  then obtain s' where run: "run ?E s0 = Some (0, s')"
    and r: "Restart (Some 7) \<in> set (trace s')"
    by (auto split: option.splits)
  have queue: "case parseArgs ?E s0 of
          None \<Rightarrow> False
        | Some (c1, s1) \<Rightarrow>
            (case waitForBootloaderIfNeeded ?E s1 of
               None \<Rightarrow> False
             | Some (c2, s2) \<Rightarrow>
                 (case actionsPrepare ?E s2 of
                    None \<Rightarrow> False
                  | Some (c3, s3) \<Rightarrow> length (actions s3) = 1))"
    unfolding s0_def by code_simp
  have t0: "trace s0 = []"
    by (simp add: s0_def)
  have "\<exists>s1 s2 s3 s4 tr.
          parseArgs ?E s0 = Some (0, s1) \<and> waitForBootloaderIfNeeded ?E s1 = Some (0, s2) \<and>
          actionsPrepare ?E s2 = Some (0, s3) \<and> actionsExecute ?E s3 = Some (0, s4) \<and>
          restartBootloaderIfNeeded ?E s4 = (0, s') \<and> restartBootloaderFlag s4 \<and>
          (\<forall>i < length (actions s3). Return Execute i 0 \<in> set tr) \<and>
          (\<forall>i x. Return Execute i x \<in> set (trace s') \<longrightarrow> x = 0) \<and>
          prefix (trace s4) tr \<and> trace s' = tr @ [Restart (Some 7)] \<and> (\<forall>h'. Restart h' \<notin> set tr)"
    by (rule lastly [of s0 0 s' "Some 7"]) (intro conjI run t0 r)
  then obtain s1 s2 s3 tr where chain: "parseArgs ?E s0 = Some (0, s1)"
    "waitForBootloaderIfNeeded ?E s1 = Some (0, s2)" "actionsPrepare ?E s2 = Some (0, s3)"
    and marks: "\<forall>i < length (actions s3). Return Execute i 0 \<in> set tr"
    and tr: "trace s' = tr @ [Restart (Some 7)]" "\<forall>h'. Restart h' \<notin> set tr"
    by blast
  from queue chain have "length (actions s3) = 1"
    by simp
  with marks have e: "Return Execute 0 0 \<in> set tr"
    by simp
  from tr have "filter (\<lambda>e. e = Restart (Some 7)) tr = []"
    by (auto simp: filter_empty_conv)
  with tr e have l: "last (trace s') = Restart (Some 7)"
    "Return Execute 0 0 \<in> set (butlast (trace s'))"
    "length (filter (\<lambda>e. e = Restart (Some 7)) (trace s')) = 1"
    by simp_all
  have a: "argReaderArgs s0 = ''-w'' # ''app.hex'' # []"
    by (simp add: s0_def argReaderInit_def)
  have m: "malloc ?E (trace s0 @ [Invoke Allocate (length (actions s0))]) (sizeof_HexFileInput ?E) \<noteq> None"
    by (simp add: connected_def)
  have "\<exists>s'. parseArgsBody ?E s0 = Some (None, s') \<and>
            actions s' = actions s0 @
              [(actWriteFlashAndEeprom, Input \<lparr>fileName = Some ''app.hex'', flash = None, eeprom = None\<rparr>)] \<and>
            restartBootloaderFlag s' \<and> argReaderArgs s' = []"
    by (rule queues [of s0 "''app.hex''" "[]"]) (intro conjI a m)
  then obtain sp where "parseArgsBody ?E s0 = Some (None, sp)" "restartBootloaderFlag sp"
    "actions sp = actions s0 @
       [(actWriteFlashAndEeprom, Input \<lparr>fileName = Some ''app.hex'', flash = None, eeprom = None\<rparr>)]"
    by blast
  moreover have "actions s0 = []"
    by (simp add: s0_def argReaderInit_def)
  ultimately show ?thesis
    using run l unfolding s0_def by simp
qed

section \<open>The exit code of a failed discovery\<close>


















section \<open>Waiting for a bootloader that never comes\<close>

text \<open>
  The clock of the environment is a function of the history, in milliseconds; \<open>time\<close> reads it in
  whole seconds, as \<open>time(NULL)\<close> does. A clock that never runs backwards is monotone along every
  extension of the history, and a clock that only \<open>Sleep 100\<close> advances stands still over every
  other call.
\<close>

lemma clock_mono:
  assumes "\<forall>h e. clock_ms env h \<le> clock_ms env (h @ [e])"
  shows "clock_ms env h \<le> clock_ms env (h @ evs)"
proof (induction evs rule: rev_induct)
  case Nil
  show ?case by simp
next
  case (snoc e evs)
  have "clock_ms env (h @ evs) \<le> clock_ms env ((h @ evs) @ [e])"
    using assms by blast
  with snoc show ?case by simp
qed

lemma clock_exact:
  assumes "\<forall>h e. clock_ms env (h @ [e]) = clock_ms env h + (if e = Sleep 100 then 100 else 0)"
    and "Sleep 100 \<notin> set evs"
  shows "clock_ms env (h @ evs) = clock_ms env h"
  using assms(2)
proof (induction evs rule: rev_induct)
  case Nil
  show ?case by simp
next
  case (snoc e evs)
  have "clock_ms env ((h @ evs) @ [e]) = clock_ms env (h @ evs) + (if e = Sleep 100 then 100 else 0)"
    using assms(1) by blast
  with snoc show ?case by auto
qed

lemma discovery_finds_nothing:
  assumes "\<forall>h. fst (ploaderListCreate env h) = 0"
    and "case desiredSerialNumber s of
           None \<Rightarrow> \<forall>h. snd (ploaderListCreate env h) = []
         | Some sn \<Rightarrow>
             \<forall>h h'. ploaderListFilterBySerialNumber env h' (snd (ploaderListCreate env h)) sn = (0, [])"
    and "ploaderListSize (bootloaderList s) = 0"
  shows "\<exists>s1 evs. bootloaderListRequire env s = (0, s1) \<and> ploaderListSize (bootloaderList s1) = 0 \<and>
                  trace s1 = trace s @ evs \<and> Sleep 100 \<notin> set evs \<and>
                  desiredSerialNumber s1 = desiredSerialNumber s"
proof (cases "bootloaderList s")
  case (Some cached)
  with assms(3) show ?thesis
    by (simp add: bootloaderListRequire_def)
next
  case nolist: None
  obtain l where c: "ploaderListCreate env (trace s) = (0, l)"
    using assms(1) [rule_format, of "trace s"] by (cases "ploaderListCreate env (trace s)") simp
  show ?thesis
  proof (cases "desiredSerialNumber s")
    case None
    with assms(2) have "snd (ploaderListCreate env (trace s)) = []"
      by simp
    with c have "l = []"
      by simp
    with None c nolist show ?thesis
      by (simp add: bootloaderListRequire_def ploaderListSize_def listEntries_def)
  next
    case (Some sn)
    with assms(2) have
      "ploaderListFilterBySerialNumber env (trace s @ [Dev ListCreate])
         (snd (ploaderListCreate env (trace s))) sn = (0, [])"
      by simp
    with c have "ploaderListFilterBySerialNumber env (trace s @ [Dev ListCreate]) l sn = (0, [])"
      by simp
    with Some c nolist show ?thesis
      by (simp add: bootloaderListRequire_def ploaderListSize_def listEntries_def)
  qed
qed

lemma waitLoop_times_out:
  assumes found: "\<forall>h. fst (ploaderListCreate env h) = 0"
    and nomatch: "case sn of
           None \<Rightarrow> \<forall>h. snd (ploaderListCreate env h) = []
         | Some x \<Rightarrow>
             \<forall>h h'. ploaderListFilterBySerialNumber env h' (snd (ploaderListCreate env h)) x = (0, [])"
    and mono: "\<forall>h e. clock_ms env h \<le> clock_ms env (h @ [e])"
    and tick: "\<forall>h. clock_ms env h + 100 \<le> clock_ms env (h @ [Sleep 100])"
  shows "ploaderListSize (bootloaderList s) = 0 \<Longrightarrow> desiredSerialNumber s = sn \<Longrightarrow>
         \<exists>s'. waitLoop env (int b) s = Some (ERROR_BOOTLOADER_NOT_FOUND env, s') \<and>
              1000 * (b + 11) \<le> clock_ms env (trace s') \<and>
              ((\<forall>h e. clock_ms env (h @ [e]) = clock_ms env h + (if e = Sleep 100 then 100 else 0)) \<longrightarrow>
               clock_ms env (trace s) < 1000 * (b + 11) + 100 \<longrightarrow>
               clock_ms env (trace s') < 1000 * (b + 11) + 100)"
proof (induction "1000 * (b + 11) - clock_ms env (trace s)" arbitrary: s rule: less_induct)
  case less
  let ?exact = "\<forall>h e. clock_ms env (h @ [e]) = clock_ms env h + (if e = Sleep 100 then 100 else 0)"
  from discovery_finds_nothing [OF found nomatch [folded less(3)] less(2)]
  obtain s1 evs where s1: "bootloaderListRequire env s = (0, s1)"
    "ploaderListSize (bootloaderList s1) = 0" "trace s1 = trace s @ evs" "Sleep 100 \<notin> set evs"
    and sn1: "desiredSerialNumber s1 = desiredSerialNumber s"
    by blast
  define s2 where "s2 = (emit (Dev ListFree) s1)\<lparr>bootloaderList := None\<rparr>"
  have t2: "trace s2 = trace s @ (evs @ [Dev ListFree])"
    by (simp add: s2_def s1(3))
  have quiet: "Sleep 100 \<notin> set (evs @ [Dev ListFree])"
    using s1(4) by simp
  have c2: "clock_ms env (trace s) \<le> clock_ms env (trace s2)"
    unfolding t2 by (rule clock_mono [OF mono])
  have e2: "clock_ms env (trace s2) = clock_ms env (trace s)" if "?exact"
    unfolding t2 using that quiet by (rule clock_exact)
  have unfold: "waitLoop env (int b) s =
      (if time env s2 - int b > 10 then Some (bootloaderNotFoundError env s2)
       else waitLoop env (int b) (emit (Sleep 100) s2))"
    by (subst waitLoop.simps) (simp add: s1 s2_def Let_def)
  have cond: "(time env s2 - int b > 10) = (1000 * (b + 11) \<le> clock_ms env (trace s2))"
    by (auto simp: time_def)
  show ?case
  proof (cases "1000 * (b + 11) \<le> clock_ms env (trace s2)")
    case True
    obtain s' where s': "bootloaderNotFoundError env s2 = (ERROR_BOOTLOADER_NOT_FOUND env, s')"
      and t': "\<exists>e. trace s' = trace s2 @ [e] \<and> e \<noteq> Sleep 100"
      by (cases "desiredSerialNumber s2") (auto simp: bootloaderNotFoundError_def)
    from t' obtain e where e: "trace s' = trace s2 @ [e]" "e \<noteq> Sleep 100"
      by blast
    have "clock_ms env (trace s2) \<le> clock_ms env (trace s')"
      unfolding e using mono by blast
    with True have low: "1000 * (b + 11) \<le> clock_ms env (trace s')"
      by simp
    have up: "clock_ms env (trace s') < 1000 * (b + 11) + 100"
      if "?exact" "clock_ms env (trace s) < 1000 * (b + 11) + 100"
    proof -
      from that(1) e have "clock_ms env (trace s') = clock_ms env (trace s2)"
        by simp
      with e2 [OF that(1)] that(2) show ?thesis by simp
    qed
    from unfold cond True s' low up show ?thesis
      by simp
  next
    case False
    define s3 where "s3 = emit (Sleep 100) s2"
    have t3: "trace s3 = trace s2 @ [Sleep 100]" and l3: "ploaderListSize (bootloaderList s3) = 0"
      and sn3: "desiredSerialNumber s3 = sn"
      by (simp_all add: s3_def s2_def sn1 less(3) ploaderListSize_def listEntries_def)
    have c3: "clock_ms env (trace s2) + 100 \<le> clock_ms env (trace s3)"
      unfolding t3 using tick by blast
    with c2 False have smaller:
      "1000 * (b + 11) - clock_ms env (trace s3) < 1000 * (b + 11) - clock_ms env (trace s)"
      by simp
    from less(1) [OF smaller l3 sn3]
    obtain s' where r: "waitLoop env (int b) s3 = Some (ERROR_BOOTLOADER_NOT_FOUND env, s')"
      and low: "1000 * (b + 11) \<le> clock_ms env (trace s')"
      and up3: "?exact \<longrightarrow> clock_ms env (trace s3) < 1000 * (b + 11) + 100 \<longrightarrow>
                clock_ms env (trace s') < 1000 * (b + 11) + 100"
      by blast
    have up: "clock_ms env (trace s') < 1000 * (b + 11) + 100" if "?exact"
    proof -
      from that have "clock_ms env (trace s3) = clock_ms env (trace s2) + 100"
        unfolding t3 by simp
      with False have "clock_ms env (trace s3) < 1000 * (b + 11) + 100"
        by simp
      with up3 that show ?thesis by blast
    qed
    from unfold cond False r low up show ?thesis
      by (simp add: s3_def)
  qed
qed

text \<open>
  C4, as the code has it. With \<open>waitForBootloaderFlag\<close> set, no device in a cached list and no
  matching device ever present (every discovery succeeds, and finds nothing when no serial number
  is asked for, or nothing that is left once the list is filtered by the serial number
  asked for), with a clock that never runs backwards and that every \<open>usleep(100 * 1000)\<close>
  advances by at least 100 ms, \<open>waitForBootloaderIfNeeded\<close> returns, and what it returns is
  \<open>ERROR_BOOTLOADER_NOT_FOUND\<close>; more than 10 000 ms have passed since the call. The loop
  compares whole seconds (\<open>difftime(time(NULL), waitStartTime) > 10\<close>), so it leaves only once
  the seconds reading is 11 above the one at the start: when the discoveries take no time and
  every sleep takes exactly 100 ms, less than 11 100 ms have passed, and this bound, not
  10 100 ms, is the one that holds.
\<close>

theorem wait_times_out:
  assumes found: "\<forall>h. fst (ploaderListCreate env h) = 0"
    and nomatch: "case desiredSerialNumber s of
           None \<Rightarrow> \<forall>h. snd (ploaderListCreate env h) = []
         | Some sn \<Rightarrow>
             \<forall>h h'. ploaderListFilterBySerialNumber env h' (snd (ploaderListCreate env h)) sn = (0, [])"
    and mono: "\<forall>h e. clock_ms env h \<le> clock_ms env (h @ [e])"
    and tick: "\<forall>h. clock_ms env h + 100 \<le> clock_ms env (h @ [Sleep 100])"
    and flag: "waitForBootloaderFlag s" and nolist: "ploaderListSize (bootloaderList s) = 0"
  shows "\<exists>s'. waitForBootloaderIfNeeded env s = Some (ERROR_BOOTLOADER_NOT_FOUND env, s') \<and>
              clock_ms env (trace s) + 10000 < clock_ms env (trace s') \<and>
              ((\<forall>h e. clock_ms env (h @ [e]) = clock_ms env h + (if e = Sleep 100 then 100 else 0)) \<longrightarrow>
               clock_ms env (trace s') < clock_ms env (trace s) + 11100)"
proof -
  let ?exact = "\<forall>h e. clock_ms env (h @ [e]) = clock_ms env h + (if e = Sleep 100 then 100 else 0)"
  define b where "b = clock_ms env (trace s) div 1000"
  have t: "time env s = int b"
    by (simp add: time_def b_def)
  have lo: "clock_ms env (trace s) < 1000 * (b + 1)" and hi: "1000 * b \<le> clock_ms env (trace s)"
    by (simp_all add: b_def)
  from waitLoop_times_out [OF found nomatch mono tick nolist refl, of b]
  obtain s' where r: "waitLoop env (int b) s = Some (ERROR_BOOTLOADER_NOT_FOUND env, s')"
    and low: "1000 * (b + 11) \<le> clock_ms env (trace s')"
    and up: "?exact \<longrightarrow> clock_ms env (trace s) < 1000 * (b + 11) + 100 \<longrightarrow>
             clock_ms env (trace s') < 1000 * (b + 11) + 100"
    by blast
  have w: "waitForBootloaderIfNeeded env s = Some (ERROR_BOOTLOADER_NOT_FOUND env, s')"
    using flag r by (simp add: waitForBootloaderIfNeeded_def t)
  have l: "clock_ms env (trace s) + 10000 < clock_ms env (trace s')"
    using lo low by simp
  have u: "clock_ms env (trace s') < clock_ms env (trace s) + 11100" if "?exact"
  proof -
    from lo have "clock_ms env (trace s) < 1000 * (b + 11) + 100" by simp
    with up that have "clock_ms env (trace s') < 1000 * (b + 11) + 100" by blast
    with hi show ?thesis by simp
  qed
  from w l u show ?thesis by blast
qed

lemma tickingEnv_facts:
  "\<forall>h. fst (ploaderListCreate tickingEnv h) = 0"
  "\<forall>h. snd (ploaderListCreate tickingEnv h) = []"
  "\<forall>h e. clock_ms tickingEnv h \<le> clock_ms tickingEnv (h @ [e])"
  "\<forall>h. clock_ms tickingEnv h + 100 \<le> clock_ms tickingEnv (h @ [Sleep 100])"
  "\<forall>h e. clock_ms tickingEnv (h @ [e]) = clock_ms tickingEnv h + (if e = Sleep 100 then 100 else 0)"
  "ERROR_BOOTLOADER_NOT_FOUND tickingEnv = 3"
  "clock_ms tickingEnv [] = 0"
  by (simp_all add: tickingEnv_def)

lemma strangerEnv_facts:
  "\<forall>h. fst (ploaderListCreate strangerEnv h) = 0"
  "\<forall>h h'. ploaderListFilterBySerialNumber strangerEnv h' (snd (ploaderListCreate strangerEnv h))
            ''99999999'' = (0, [])"
  "\<forall>h e. clock_ms strangerEnv h \<le> clock_ms strangerEnv (h @ [e])"
  "\<forall>h. clock_ms strangerEnv h + 100 \<le> clock_ms strangerEnv (h @ [Sleep 100])"
  "\<forall>h e. clock_ms strangerEnv (h @ [e]) = clock_ms strangerEnv h + (if e = Sleep 100 then 100 else 0)"
  "ERROR_BOOTLOADER_NOT_FOUND strangerEnv = 3"
  "clock_ms strangerEnv [] = 0"
  "ploaderListCreate strangerEnv [] = (0, [7])"
  by (simp_all add: strangerEnv_def tickingEnv_def)

lemma waitingState_facts:
  "waitForBootloaderFlag waitingState" "ploaderListSize (bootloaderList waitingState) = 0"
  "trace waitingState = []" "desiredSerialNumber waitingState = None"
  by (simp_all add: waitingState_def ploaderListSize_def listEntries_def)

theorem wait_times_out_witness:
  "(case waitForBootloaderIfNeeded tickingEnv waitingState of
      None \<Rightarrow> False
    | Some (c, s') \<Rightarrow>
        c = 3 \<and> 10000 < clock_ms tickingEnv (trace s') \<and> clock_ms tickingEnv (trace s') < 11100) \<and>
   ploaderListCreate strangerEnv [] = (0, [7]) \<and>
   (case waitForBootloaderIfNeeded strangerEnv (waitingState\<lparr>desiredSerialNumber := Some ''99999999''\<rparr>) of
      None \<Rightarrow> False
    | Some (c, s') \<Rightarrow>
        c = 3 \<and> 10000 < clock_ms strangerEnv (trace s') \<and> clock_ms strangerEnv (trace s') < 11100)"
proof -
  let ?w = "waitingState\<lparr>desiredSerialNumber := Some ''99999999''\<rparr>"
  have n1: "case desiredSerialNumber waitingState of
           None \<Rightarrow> \<forall>h. snd (ploaderListCreate tickingEnv h) = []
         | Some sn \<Rightarrow>
             \<forall>h h'. ploaderListFilterBySerialNumber tickingEnv h' (snd (ploaderListCreate tickingEnv h)) sn = (0, [])"
    using tickingEnv_facts(2) by (simp add: waitingState_facts(4))
  from wait_times_out [OF tickingEnv_facts(1) n1 tickingEnv_facts(3,4) waitingState_facts(1,2)]
    tickingEnv_facts(5)
  obtain s' where "waitForBootloaderIfNeeded tickingEnv waitingState =
                     Some (ERROR_BOOTLOADER_NOT_FOUND tickingEnv, s')"
    and "clock_ms tickingEnv (trace waitingState) + 10000 < clock_ms tickingEnv (trace s')"
    and "clock_ms tickingEnv (trace s') < clock_ms tickingEnv (trace waitingState) + 11100"
    by blast
  then have a: "case waitForBootloaderIfNeeded tickingEnv waitingState of
      None \<Rightarrow> False
    | Some (c, s') \<Rightarrow>
        c = 3 \<and> 10000 < clock_ms tickingEnv (trace s') \<and> clock_ms tickingEnv (trace s') < 11100"
    by (simp add: tickingEnv_facts(6,7) waitingState_facts(3))
  have n2: "case desiredSerialNumber ?w of
           None \<Rightarrow> \<forall>h. snd (ploaderListCreate strangerEnv h) = []
         | Some sn \<Rightarrow>
             \<forall>h h'. ploaderListFilterBySerialNumber strangerEnv h' (snd (ploaderListCreate strangerEnv h)) sn = (0, [])"
    using strangerEnv_facts(2) by simp
  have f: "waitForBootloaderFlag ?w" "ploaderListSize (bootloaderList ?w) = 0" "trace ?w = []"
    using waitingState_facts by simp_all
  from wait_times_out [OF strangerEnv_facts(1) n2 strangerEnv_facts(3,4) f(1,2)]
    strangerEnv_facts(5)
  obtain s' where "waitForBootloaderIfNeeded strangerEnv ?w =
                     Some (ERROR_BOOTLOADER_NOT_FOUND strangerEnv, s')"
    and "clock_ms strangerEnv (trace ?w) + 10000 < clock_ms strangerEnv (trace s')"
    and "clock_ms strangerEnv (trace s') < clock_ms strangerEnv (trace ?w) + 11100"
    by blast
  then have b: "case waitForBootloaderIfNeeded strangerEnv ?w of
      None \<Rightarrow> False
    | Some (c, s') \<Rightarrow>
        c = 3 \<and> 10000 < clock_ms strangerEnv (trace s') \<and> clock_ms strangerEnv (trace s') < 11100"
    by (simp add: strangerEnv_facts(6,7) f(3))
  from a strangerEnv_facts(8) b show ?thesis
    by (intro conjI)
qed

text \<open>
  The upper bound of C4 as the specification states it, 10 s and one poll interval of 100 ms, does
  not hold: on \<open>tickingEnv\<close>, where the call starts on a full second, discovery costs nothing and
  every sleep takes exactly 100 ms, the wait ends with \<open>ERROR_BOOTLOADER_NOT_FOUND\<close> (3 there)
  after 11 000 ms or more.
\<close>

theorem wait_longer_than_poll_interval_counterexample:
  "(case waitForBootloaderIfNeeded tickingEnv waitingState of
      None \<Rightarrow> False
    | Some (c, s') \<Rightarrow>
        c = 3 \<and>
        \<not> clock_ms tickingEnv (trace s') - clock_ms tickingEnv (trace waitingState) \<le> 10000 + 100)"
proof -
  have n1: "case None of
           None \<Rightarrow> \<forall>h. snd (ploaderListCreate tickingEnv h) = []
         | Some sn \<Rightarrow>
             \<forall>h h'. ploaderListFilterBySerialNumber tickingEnv h' (snd (ploaderListCreate tickingEnv h)) sn = (0, [])"
    using tickingEnv_facts(2) by simp
  from waitLoop_times_out [OF tickingEnv_facts(1) n1 tickingEnv_facts(3,4) waitingState_facts(2,4), of 0]
  obtain s' where r: "waitLoop tickingEnv 0 waitingState = Some (ERROR_BOOTLOADER_NOT_FOUND tickingEnv, s')"
    and low: "11000 \<le> clock_ms tickingEnv (trace s')"
    by auto
  have "time tickingEnv waitingState = 0"
    by (simp add: time_def waitingState_facts(3) tickingEnv_facts(7))
  with r have "waitForBootloaderIfNeeded tickingEnv waitingState =
                 Some (ERROR_BOOTLOADER_NOT_FOUND tickingEnv, s')"
    by (simp add: waitForBootloaderIfNeeded_def waitingState_facts(1))
  with low show ?thesis
    by (simp add: tickingEnv_facts(6,7) waitingState_facts(3))
qed

end
